theory Spec2Isabelle
  imports Complex_Main "HOL-Library.Word" "HOL-Library.Multiset" "HOL-Library.Monad_Syntax"
begin

section \<open>Numbers\<close>

text \<open>
  The scene layer of the renderer, embedded function by function from
  \<^verbatim>\<open>src/graphics/render_scene.cpp\<close>. An \<^verbatim>\<open>int\<close> is an integer of HOL. A C++ \<^verbatim>\<open>float\<close> is read
  in two ways. In the terrain quad-tree (\<^verbatim>\<open>createChildren\<close>, \<^verbatim>\<open>getDistance\<close>, \<^verbatim>\<open>render\<close>), where
  what is stated depends on rounding, it is a binary32 number with the arithmetic below. In the
  rest of the scene (matrices, scales, life times, the ray cast) and in the formula of the outer
  radius it is read as a real number, with exact arithmetic.
\<close>

subsection \<open>Binary32 arithmetic\<close>

text \<open>
  IEEE 754 binary32: a finite value is a real number \<open>m \<times> 2\<^sup>e\<close> with an integer \<open>m\<close> of magnitude
  below \<open>2\<^sup>2\<^sup>4\<close> and \<open>e \<ge> -149\<close>, of magnitude below \<open>2\<^sup>1\<^sup>2\<^sup>8\<close>; beside the finite values stand the
  two infinities and NaN. The sign of zero is not modelled: no operation of the functions
  embedded here tells \<open>-0\<close> from \<open>+0\<close>.
\<close>

datatype float32 = Finite real | PInf | NInf | NaN

text \<open>The integer nearest to \<open>y\<close>, the even one of the two when \<open>y\<close> lies half way.\<close>

definition round_even :: "real \<Rightarrow> int" where
  "round_even y =
     (let f = \<lfloor>y\<rfloor>; d = y - of_int f
      in if d < 1 / 2 then f else if d > 1 / 2 then f + 1 else if even f then f else f + 1)"

text \<open>The exponent of the binade of \<open>x\<close>; below \<open>2\<^sup>-\<^sup>1\<^sup>2\<^sup>6\<close> the numbers are subnormal and share
  the exponent \<open>-126\<close>.\<close>

definition exponent32 :: "real \<Rightarrow> int" where
  "exponent32 x = max (- 126) \<lfloor>log 2 \<bar>x\<bar>\<rfloor>"

text \<open>
  Rounding to nearest, ties to even: the significand has 24 bits, so the numbers of the
  binade of \<open>x\<close> are the multiples of \<open>2\<close> to the power \<open>exponent32 x - 23\<close>. A result that
  reaches \<open>2\<^sup>1\<^sup>2\<^sup>8\<close> overflows to an infinity; a result below the least subnormal is 0.
\<close>

definition round32 :: "real \<Rightarrow> float32" where
  "round32 x =
     (if x = 0 then Finite 0
      else let u = 2 powi (exponent32 x - 23);
               r = u * of_int (round_even (x / u))
           in if \<bar>r\<bar> \<ge> 2 ^ 128 then (if x > 0 then PInf else NInf) else Finite r)"

text \<open>Every operation computes the exact result of its finite operands and rounds it once, to
  binary32: no excess precision and no fused multiply-add.\<close>

fun fadd :: "float32 \<Rightarrow> float32 \<Rightarrow> float32" where
  "fadd (Finite a) (Finite b) = round32 (a + b)"
| "fadd NaN b = NaN"
| "fadd a NaN = NaN"
| "fadd PInf NInf = NaN"
| "fadd NInf PInf = NaN"
| "fadd PInf b = PInf"
| "fadd a PInf = PInf"
| "fadd NInf b = NInf"
| "fadd a NInf = NInf"

fun fsub :: "float32 \<Rightarrow> float32 \<Rightarrow> float32" where
  "fsub (Finite a) (Finite b) = round32 (a - b)"
| "fsub NaN b = NaN"
| "fsub a NaN = NaN"
| "fsub PInf PInf = NaN"
| "fsub NInf NInf = NaN"
| "fsub PInf b = PInf"
| "fsub a PInf = NInf"
| "fsub NInf b = NInf"
| "fsub a NInf = PInf"

fun fmul :: "float32 \<Rightarrow> float32 \<Rightarrow> float32" where
  "fmul (Finite a) (Finite b) = round32 (a * b)"
| "fmul NaN b = NaN"
| "fmul a NaN = NaN"
| "fmul (Finite a) PInf = (if a = 0 then NaN else if a > 0 then PInf else NInf)"
| "fmul (Finite a) NInf = (if a = 0 then NaN else if a > 0 then NInf else PInf)"
| "fmul PInf (Finite b) = (if b = 0 then NaN else if b > 0 then PInf else NInf)"
| "fmul NInf (Finite b) = (if b = 0 then NaN else if b > 0 then NInf else PInf)"
| "fmul PInf PInf = PInf"
| "fmul PInf NInf = NInf"
| "fmul NInf PInf = NInf"
| "fmul NInf NInf = PInf"

text \<open>A zero divisor is taken as \<open>+0\<close>; the code embedded here divides by the constant 2 only.\<close>

fun fdiv :: "float32 \<Rightarrow> float32 \<Rightarrow> float32" where
  "fdiv (Finite a) (Finite b) =
     (if b = 0 then (if a = 0 then NaN else if a > 0 then PInf else NInf) else round32 (a / b))"
| "fdiv NaN b = NaN"
| "fdiv a NaN = NaN"
| "fdiv (Finite a) PInf = Finite 0"
| "fdiv (Finite a) NInf = Finite 0"
| "fdiv PInf (Finite b) = (if b \<ge> 0 then PInf else NInf)"
| "fdiv NInf (Finite b) = (if b \<ge> 0 then NInf else PInf)"
| "fdiv PInf b = NaN"
| "fdiv NInf b = NaN"

fun fsqrt :: "float32 \<Rightarrow> float32" where
  "fsqrt (Finite a) = (if a < 0 then NaN else round32 (sqrt a))"
| "fsqrt PInf = PInf"
| "fsqrt NInf = NaN"
| "fsqrt NaN = NaN"

text \<open>The comparison \<^verbatim>\<open><\<close>: false as soon as an operand is NaN.\<close>

fun flt :: "float32 \<Rightarrow> float32 \<Rightarrow> bool" where
  "flt (Finite a) (Finite b) \<longleftrightarrow> a < b"
| "flt NaN b \<longleftrightarrow> False"
| "flt a NaN \<longleftrightarrow> False"
| "flt PInf b \<longleftrightarrow> False"
| "flt NInf NInf \<longleftrightarrow> False"
| "flt NInf b \<longleftrightarrow> True"
| "flt a NInf \<longleftrightarrow> False"
| "flt a PInf \<longleftrightarrow> True"

text \<open>The comparison \<^verbatim>\<open>>\<close>.\<close>

definition fgt :: "float32 \<Rightarrow> float32 \<Rightarrow> bool" where
  "fgt a b \<longleftrightarrow> flt b a"

text \<open>The real number a finite value stands for.\<close>

fun val :: "float32 \<Rightarrow> real" where
  "val (Finite a) = a"
| "val PInf = 0"
| "val NInf = 0"
| "val NaN = 0"

fun is_finite :: "float32 \<Rightarrow> bool" where
  "is_finite (Finite a) \<longleftrightarrow> True"
| "is_finite PInf \<longleftrightarrow> False"
| "is_finite NInf \<longleftrightarrow> False"
| "is_finite NaN \<longleftrightarrow> False"

text \<open>The real numbers that are binary32 values.\<close>

definition representable32 :: "real \<Rightarrow> bool" where
  "representable32 c \<longleftrightarrow>
     (\<exists>n k. c = of_int n * 2 powi k \<and> \<bar>n\<bar> < 2 ^ 24 \<and> - 149 \<le> k \<and> \<bar>c\<bar> < 2 ^ 128)"

section \<open>Terrain quad-tree\<close>

text \<open>\<^verbatim>\<open>Vec3\<close> with real coordinates, for the scene, and with binary32 coordinates, for the
  quad-tree.\<close>

record Vec3 =
  vx :: real
  vy :: real
  vz :: real

record Vec3_f32 =
  x32 :: float32
  y32 :: float32
  z32 :: float32

text \<open>\<^verbatim>\<open>enum ChildType\<close>: the enumerators are array indices.\<close>

definition TOP_LEFT :: nat where "TOP_LEFT = 0"
definition TOP_RIGHT :: nat where "TOP_RIGHT = 1"
definition BOTTOM_LEFT :: nat where "BOTTOM_LEFT = 2"
definition BOTTOM_RIGHT :: nat where "BOTTOM_RIGHT = 3"
definition CHILD_COUNT :: nat where "CHILD_COUNT = 4"

text \<open>
  \<^verbatim>\<open>struct TerrainQuad\<close>: the array \<^verbatim>\<open>m_children\<close> of owned pointers is a list of
  options (\<open>None\<close> is \<^verbatim>\<open>NULL\<close>). The field \<^verbatim>\<open>m_xz_scale\<close> is never written nor read
  and is left out.
\<close>

datatype TerrainQuad =
  TerrainQuad (m_children: "TerrainQuad option list") (m_min: Vec3_f32) (m_size: float32) (m_lod: int)

text \<open>A node as \<^verbatim>\<open>LUMIX_NEW(TerrainQuad)\<close> followed by the assignments of its fields
  leaves it: the constructor sets every child pointer to \<^verbatim>\<open>NULL\<close>.\<close>

definition new_TerrainQuad :: "Vec3_f32 \<Rightarrow> float32 \<Rightarrow> int \<Rightarrow> TerrainQuad" where
  "new_TerrainQuad mn sz lod = TerrainQuad (replicate CHILD_COUNT None) mn sz lod"

text \<open>The min corner \<^verbatim>\<open>createChildren\<close> gives to child \<open>i\<close>: the top-left child copies
  the parent's corner, the other three are \<^verbatim>\<open>set\<close> with \<open>y = 0\<close>. The sums
  \<^verbatim>\<open>m_min.x + m_size / 2\<close> are binary32 sums and round.\<close>

definition child_min :: "Vec3_f32 \<Rightarrow> float32 \<Rightarrow> nat \<Rightarrow> Vec3_f32" where
  "child_min mn sz i =
     (if i = TOP_LEFT then mn
      else if i = TOP_RIGHT
        then \<lparr>x32 = fadd (x32 mn) (fdiv sz (Finite 2)), y32 = Finite 0, z32 = z32 mn\<rparr>
      else if i = BOTTOM_LEFT
        then \<lparr>x32 = x32 mn, y32 = Finite 0, z32 = fadd (z32 mn) (fdiv sz (Finite 2))\<rparr>
      else \<lparr>x32 = fadd (x32 mn) (fdiv sz (Finite 2)), y32 = Finite 0,
            z32 = fadd (z32 mn) (fdiv sz (Finite 2))\<rparr>)"

function createChildren :: "TerrainQuad \<Rightarrow> TerrainQuad" where
  "createChildren (TerrainQuad cs mn sz lod) =
     (if lod < 8 \<and> fgt sz (Finite 16)
      then TerrainQuad
             (map (\<lambda>i. Some (createChildren
                               (new_TerrainQuad (child_min mn sz i) (fdiv sz (Finite 2)) (lod + 1))))
                  [0..<CHILD_COUNT])
             mn sz lod
      else TerrainQuad cs mn sz lod)"
  by pat_completeness auto
termination
  by (relation "measure (\<lambda>q. nat (8 - m_lod q))") (auto simp: new_TerrainQuad_def)

text \<open>\<^verbatim>\<open>Terrain::generateQuadTree\<close>: the root the terrain owns afterwards.\<close>

definition generateQuadTree :: "float32 \<Rightarrow> TerrainQuad" where
  "generateQuadTree sz =
     createChildren (new_TerrainQuad \<lparr>x32 = Finite 0, y32 = Finite 0, z32 = Finite 0\<rparr> sz 1)"

definition getDistance :: "TerrainQuad \<Rightarrow> Vec3_f32 \<Rightarrow> float32" where
  "getDistance q camera_pos =
     (let max_x = fadd (x32 (m_min q)) (m_size q);
          max_z = fadd (z32 (m_min q)) (m_size q);
          dist0 = Finite 0;
          dist1 = (if flt (x32 camera_pos) (x32 (m_min q))
                   then let d = fsub (x32 (m_min q)) (x32 camera_pos) in fadd dist0 (fmul d d)
                   else dist0);
          dist2 = (if fgt (x32 camera_pos) max_x
                   then let d = fsub max_x (x32 camera_pos) in fadd dist1 (fmul d d)
                   else dist1);
          dist3 = (if flt (z32 camera_pos) (z32 (m_min q))
                   then let d = fsub (z32 (m_min q)) (z32 camera_pos) in fadd dist2 (fmul d d)
                   else dist2);
          dist4 = (if fgt (z32 camera_pos) max_z
                   then let d = fsub max_z (z32 camera_pos) in fadd dist3 (fmul d d)
                   else dist3)
      in fsqrt dist4)"

text \<open>The formula of the outer radius, on the real numbers.\<close>

definition getRadiusOuter :: "real \<Rightarrow> real" where
  "getRadiusOuter sz = (if sz > 17 then 2 else 1) * sqrt (2 * sz * sz) + sz * (1 / 4)"

text \<open>
  \<^verbatim>\<open>getRadiusOuter\<close> and \<^verbatim>\<open>getRadiusInner\<close> as \<^verbatim>\<open>render\<close> evaluates them, in binary32; the
  operators associate to the left, and \<^verbatim>\<open>sqrt\<close> is the square root of binary32. What is
  proved of \<^verbatim>\<open>render\<close> below uses of the outer radius only that it is not negative for a
  size that is not negative.
\<close>

definition getRadiusOuter_f32 :: "float32 \<Rightarrow> float32" where
  "getRadiusOuter_f32 sz =
     fadd (fmul (if fgt sz (Finite 17) then Finite 2 else Finite 1)
                (fsqrt (fmul (fmul (Finite 2) sz) sz)))
          (fmul sz (Finite (1 / 4)))"

definition getRadiusInner :: "float32 \<Rightarrow> float32" where
  "getRadiusInner sz =
     (let lower_level_size = fdiv sz (Finite 2);
          lower_level_diagonal =
            fsqrt (fdiv (fmul (fdiv (fmul (Finite 2) sz) (Finite 2)) sz) (Finite 2))
      in fadd (getRadiusOuter_f32 lower_level_size) lower_level_diagonal)"

subsection \<open>Rendering a quad-tree\<close>

text \<open>
  \<^verbatim>\<open>Terrain::generateGeometry\<close> builds one unit grid of \<open>GRID_SIZE \<times> GRID_SIZE\<close> cells from
  four calls of \<^verbatim>\<open>generateSubgrid\<close>, each writing \<open>8 \<times> 8\<close> cells of six indices; the mesh is
  created over all the indices. \<open>subgrid_start k\<close> is the pair \<^verbatim>\<open>(start_x, start_y)\<close> of the
  \<open>k\<close>-th call, whose cells fill the \<open>k\<close>-th quarter of the index buffer.
\<close>

definition GRID_SIZE :: int where "GRID_SIZE = 16"

definition terrain_mesh_count :: int where
  "terrain_mesh_count = GRID_SIZE * GRID_SIZE * 6"

definition subgrid_start :: "nat \<Rightarrow> int \<times> int" where
  "subgrid_start k = [(0, 0), (8, 0), (0, 8), (8, 8)] ! k"

text \<open>One call of \<^verbatim>\<open>geometry.draw\<close> together with the three uniforms set just before it.\<close>

record DrawCall =
  morph_const :: Vec3_f32
  quad_size :: float32
  quad_min :: Vec3_f32
  first_index :: int
  index_count :: int

definition draw_quadrant :: "int \<Rightarrow> Vec3_f32 \<Rightarrow> float32 \<Rightarrow> nat \<Rightarrow> DrawCall" where
  "draw_quadrant getCount mn sz i =
     \<lparr>morph_const = \<lparr>x32 = getRadiusOuter_f32 sz, y32 = getRadiusInner sz, z32 = Finite 0\<rparr>,
      quad_size = sz,
      quad_min = mn,
      first_index = getCount div 4 * int i,
      index_count = getCount div 4\<rparr>"

text \<open>
  \<^verbatim>\<open>TerrainQuad::render\<close> returns its boolean result and the draw calls it issued, in order.
  \<open>getCount\<close> is the value of \<^verbatim>\<open>mesh->getCount()\<close>. The loop visits the \<^verbatim>\<open>CHILD_COUNT\<close> entries of
  \<^verbatim>\<open>m_children\<close> by index.
\<close>

function render :: "int \<Rightarrow> TerrainQuad \<Rightarrow> Vec3_f32 \<Rightarrow> bool \<times> DrawCall list" where
  "render getCount (TerrainQuad cs mn sz lod) camera_pos =
     (let dist = getDistance (TerrainQuad cs mn sz lod) camera_pos;
          r = getRadiusOuter_f32 sz
      in if fgt dist r \<and> lod > 1 then (False, [])
         else (True,
               concat (map (\<lambda>(i, child).
                         case child of
                           None \<Rightarrow> [draw_quadrant getCount mn sz i]
                         | Some c \<Rightarrow>
                             (case render getCount c camera_pos of
                                (drawn, ds) \<Rightarrow>
                                  if \<not> drawn then ds @ [draw_quadrant getCount mn sz i] else ds))
                       (zip [0..<CHILD_COUNT] cs))))"
  by pat_completeness auto
termination
proof (relation "measure (\<lambda>(getCount, q, camera_pos). size q)", goal_cases)
  case 1
  show ?case by simp
next
  case (2 getCount cs mn sz lod camera_pos dist r ic i child c)
  from 2 have "Some c \<in> set cs" by (auto dest: set_zip_rightD)
  then have "size c < Suc (size_list (size_option size) cs)"
    by (induction cs) auto
  then show ?case by simp
qed

text \<open>\<^verbatim>\<open>Terrain::render\<close>, for the quad-tree part: nothing is drawn without a root.\<close>

definition Terrain_render :: "TerrainQuad option \<Rightarrow> Vec3_f32 \<Rightarrow> DrawCall list" where
  "Terrain_render m_root camera_pos =
     (case m_root of
        None \<Rightarrow> []
      | Some q \<Rightarrow> snd (render terrain_mesh_count q camera_pos))"

subsection \<open>Footprints and the structure of a quad-tree\<close>

text \<open>All the nodes of a tree, the root first.\<close>

function nodes :: "TerrainQuad \<Rightarrow> TerrainQuad list" where
  "nodes (TerrainQuad cs mn sz lod) =
     TerrainQuad cs mn sz lod #
     concat (map (\<lambda>child. case child of None \<Rightarrow> [] | Some c \<Rightarrow> nodes c) cs)"
  by pat_completeness auto
termination
proof (relation "measure size", goal_cases)
  case 1
  show ?case by simp
next
  case (2 cs mn sz lod child c)
  then have "size c < Suc (size_list (size_option size) cs)"
    by (induction cs) auto
  then show ?case by simp
qed

text \<open>The point of space a corner with finite coordinates is.\<close>

definition vec_val :: "Vec3_f32 \<Rightarrow> Vec3" where
  "vec_val v = \<lparr>vx = val (x32 v), vy = val (y32 v), vz = val (z32 v)\<rparr>"

text \<open>A node whose corner (in the plane) and size are finite numbers.\<close>

definition finite_quad :: "TerrainQuad \<Rightarrow> bool" where
  "finite_quad q \<longleftrightarrow> is_finite (x32 (m_min q)) \<and> is_finite (z32 (m_min q)) \<and> is_finite (m_size q)"

text \<open>
  The square a patch with min corner \<open>mn\<close> and size \<open>sz\<close> covers in the xz-plane. The
  square is half-open (its min edges belong to it, its max edges to the neighbour), so that
  two adjacent patches share no point and "covered exactly once" can be said of every point.
\<close>

definition in_square :: "Vec3 \<Rightarrow> real \<Rightarrow> real \<Rightarrow> real \<Rightarrow> bool" where
  "in_square mn sz px pz \<longleftrightarrow>
     vx mn \<le> px \<and> px < vx mn + sz \<and> vz mn \<le> pz \<and> pz < vz mn + sz"

text \<open>The min corner of quadrant \<open>i\<close> of a square, in the plane.\<close>

definition quadrant_min :: "Vec3 \<Rightarrow> real \<Rightarrow> nat \<Rightarrow> Vec3" where
  "quadrant_min mn sz i =
     (if i = TOP_LEFT then mn
      else if i = TOP_RIGHT then \<lparr>vx = vx mn + sz / 2, vy = 0, vz = vz mn\<rparr>
      else if i = BOTTOM_LEFT then \<lparr>vx = vx mn, vy = 0, vz = vz mn + sz / 2\<rparr>
      else \<lparr>vx = vx mn + sz / 2, vy = 0, vz = vz mn + sz / 2\<rparr>)"

text \<open>The closed square \<open>[minX, minX + S] \<times> [minZ, minZ + S]\<close> of a node, for the distance
  to it.\<close>

definition in_footprint :: "TerrainQuad \<Rightarrow> real \<Rightarrow> real \<Rightarrow> bool" where
  "in_footprint q px pz \<longleftrightarrow>
     val (x32 (m_min q)) \<le> px \<and> px \<le> val (x32 (m_min q)) + val (m_size q) \<and>
     val (z32 (m_min q)) \<le> pz \<and> pz \<le> val (z32 (m_min q)) + val (m_size q)"




definition has_children :: "TerrainQuad \<Rightarrow> bool" where
  "has_children q \<longleftrightarrow> (\<exists>child \<in> set (m_children q). child \<noteq> None)"

text \<open>Child \<open>i\<close> of \<open>q\<close> is \<open>c\<close>, half as large, one level deeper, with min corner \<open>(cx, cz)\<close>.\<close>

definition child_at :: "TerrainQuad \<Rightarrow> nat \<Rightarrow> real \<Rightarrow> real \<Rightarrow> TerrainQuad \<Rightarrow> bool" where
  "child_at q i cx cz c \<longleftrightarrow>
     m_children q ! i = Some c \<and> finite_quad c \<and>
     val (m_size c) = val (m_size q) / 2 \<and> m_lod c = m_lod q + 1 \<and>
     val (x32 (m_min c)) = cx \<and> val (z32 (m_min c)) = cz"

text \<open>The square of a node.\<close>

definition quad_square :: "TerrainQuad \<Rightarrow> real \<Rightarrow> real \<Rightarrow> bool" where
  "quad_square q px pz \<longleftrightarrow> in_square (vec_val (m_min q)) (val (m_size q)) px pz"

text \<open>Four squares partition the square of \<open>q\<close>: they cover it, stay inside it, and no two
  of them share a point.\<close>

definition partitions ::
  "TerrainQuad \<Rightarrow> TerrainQuad \<Rightarrow> TerrainQuad \<Rightarrow> TerrainQuad \<Rightarrow> TerrainQuad \<Rightarrow> bool" where
  "partitions q q_tl q_tr q_bl q_br \<longleftrightarrow>
     (\<forall>px pz. quad_square q px pz \<longleftrightarrow>
               quad_square q_tl px pz \<or> quad_square q_tr px pz \<or>
               quad_square q_bl px pz \<or> quad_square q_br px pz) \<and>
     (\<forall>px pz. \<not> (quad_square q_tl px pz \<and> quad_square q_tr px pz) \<and>
               \<not> (quad_square q_tl px pz \<and> quad_square q_bl px pz) \<and>
               \<not> (quad_square q_tl px pz \<and> quad_square q_br px pz) \<and>
               \<not> (quad_square q_tr px pz \<and> quad_square q_bl px pz) \<and>
               \<not> (quad_square q_tr px pz \<and> quad_square q_br px pz) \<and>
               \<not> (quad_square q_bl px pz \<and> quad_square q_br px pz))"

definition quadrant_children ::
  "TerrainQuad \<Rightarrow> TerrainQuad \<Rightarrow> TerrainQuad \<Rightarrow> TerrainQuad \<Rightarrow> TerrainQuad \<Rightarrow> bool" where
  "quadrant_children q q_tl q_tr q_bl q_br \<longleftrightarrow>
     child_at q TOP_LEFT (val (x32 (m_min q))) (val (z32 (m_min q))) q_tl \<and>
     child_at q TOP_RIGHT (val (x32 (m_min q)) + val (m_size q) / 2) (val (z32 (m_min q))) q_tr \<and>
     child_at q BOTTOM_LEFT (val (x32 (m_min q))) (val (z32 (m_min q)) + val (m_size q) / 2) q_bl \<and>
     child_at q BOTTOM_RIGHT (val (x32 (m_min q)) + val (m_size q) / 2)
       (val (z32 (m_min q)) + val (m_size q) / 2) q_br \<and>
     partitions q q_tl q_tr q_bl q_br"

text \<open>The invariant of a node, in the words of the specification.\<close>

definition quad_invariant :: "TerrainQuad \<Rightarrow> bool" where
  "quad_invariant q \<longleftrightarrow>
     finite_quad q \<and>
     length (m_children q) = CHILD_COUNT \<and>
     (has_children q \<longleftrightarrow> m_lod q < 8 \<and> val (m_size q) > 16) \<and>
     (has_children q \<longrightarrow> (\<exists>q_tl q_tr q_bl q_br. quadrant_children q q_tl q_tr q_bl q_br)) \<and>
     m_lod q \<le> 8 \<and>
     (\<not> has_children q \<longrightarrow> val (m_size q) \<le> 16 \<or> m_lod q = 8)"

text \<open>
  The sizes whose halves and corners are exact down to level 8: \<open>m \<times> 2\<^sup>e\<close> for a natural
  number \<open>m\<close> with \<open>127 \<times> m < 2\<^sup>2\<^sup>4\<close>, so that the largest odd multiple of a half that
  occurs as a corner still has 24 bits. Every texture width up to 132104 is such a size.
\<close>

definition exact_size :: "float32 \<Rightarrow> bool" where
  "exact_size sz \<longleftrightarrow> (\<exists>m e. sz = Finite (real m * 2 powi e) \<and> 127 * m < 2 ^ 24 \<and> - 100 \<le> e \<and> e \<le> 100)"

text \<open>
  The part of the plane a draw call covers. The index range of the call selects the
  sub-grid \<open>k\<close> of the unit grid, whose cells span eight of the \<open>GRID_SIZE\<close> columns and
  rows from \<open>subgrid_start k\<close>; the uniforms \<^verbatim>\<open>quad_min\<close> and \<^verbatim>\<open>quad_size\<close> place the unit
  grid in the plane. The square is half-open, as \<open>in_square\<close> is.
\<close>

definition draw_covers :: "DrawCall \<Rightarrow> real \<Rightarrow> real \<Rightarrow> bool" where
  "draw_covers d px pz \<longleftrightarrow>
     (case subgrid_start (nat (first_index d div index_count d)) of
        (start_x, start_y) \<Rightarrow>
          val (x32 (quad_min d)) + val (quad_size d) * (real_of_int start_x / real_of_int GRID_SIZE) \<le> px \<and>
          px < val (x32 (quad_min d)) + val (quad_size d) * (real_of_int (start_x + 8) / real_of_int GRID_SIZE) \<and>
          val (z32 (quad_min d)) + val (quad_size d) * (real_of_int start_y / real_of_int GRID_SIZE) \<le> pz \<and>
          pz < val (z32 (quad_min d)) + val (quad_size d) * (real_of_int (start_y + 8) / real_of_int GRID_SIZE))"

text \<open>How many of the draw calls cover a point.\<close>

definition times_covered :: "DrawCall list \<Rightarrow> real \<Rightarrow> real \<Rightarrow> nat" where
  "times_covered ds px pz = length (filter (\<lambda>d. draw_covers d px pz) ds)"

text \<open>The outcome of rendering a patch: either it declined and drew nothing, or its draw
  calls cover every point of the square once and no point outside it.\<close>

definition covers_exactly :: "bool \<times> DrawCall list \<Rightarrow> Vec3 \<Rightarrow> real \<Rightarrow> bool" where
  "covers_exactly res mn sz \<longleftrightarrow>
     (case res of
        (drawn, ds) \<Rightarrow>
          if drawn
          then \<forall>px pz. times_covered ds px pz = (if in_square mn sz px pz then 1 else 0)
          else ds = [])"

text \<open>The draw calls one round of the loop of \<^verbatim>\<open>render\<close> issues, for child \<open>i\<close>.\<close>

definition render_child ::
  "int \<Rightarrow> Vec3_f32 \<Rightarrow> float32 \<Rightarrow> Vec3_f32 \<Rightarrow> nat \<Rightarrow> TerrainQuad option \<Rightarrow> DrawCall list" where
  "render_child getCount mn sz camera_pos i child =
     (case child of
        None \<Rightarrow> [draw_quadrant getCount mn sz i]
      | Some c \<Rightarrow>
          (case render getCount c camera_pos of
             (drawn, ds) \<Rightarrow> if \<not> drawn then ds @ [draw_quadrant getCount mn sz i] else ds))"


text \<open>A coordinate on the grid of an exact size: one of the first \<open>n\<close> multiples of
  \<open>m \<times> 2\<^sup>k\<close>.\<close>

definition on_grid32 :: "nat \<Rightarrow> int \<Rightarrow> nat \<Rightarrow> float32 \<Rightarrow> bool" where
  "on_grid32 m k n c \<longleftrightarrow> (\<exists>a < n. c = Finite (real a * (real m * 2 powi k)))"

text \<open>For the tree of a texture 16777215 wide: the node in the top row (\<open>z = 0\<close>) with its
  corner at \<open>x\<close>, of size \<open>s\<close> and level \<open>lod\<close>, with all that \<^verbatim>\<open>createChildren\<close> hangs below
  it; and a camera on the corner of a leaf.\<close>

abbreviation top_quad :: "real \<Rightarrow> real \<Rightarrow> int \<Rightarrow> TerrainQuad" where
  "top_quad x s lod \<equiv>
     createChildren (new_TerrainQuad \<lparr>x32 = Finite x, y32 = Finite 0, z32 = Finite 0\<rparr> (Finite s) lod)"

abbreviation wide_camera :: Vec3_f32 where
  "wide_camera \<equiv> \<lparr>x32 = Finite (12582911 / 32), y32 = Finite 0, z32 = Finite 0\<rparr>"

section \<open>The scene\<close>

subsection \<open>Data\<close>

text \<open>
  \<^verbatim>\<open>Matrix\<close> is sixteen floats \<^verbatim>\<open>m11 .. m44\<close> in declaration order; the code reads and
  writes them as \<^verbatim>\<open>(&mtx.m11)[j]\<close>, so the model is the list of the sixteen.
\<close>

type_synonym Matrix = "real list"

text \<open>An entity is an index and a pointer to the universe that owns it; the pointer is
  modelled by the address of the universe.\<close>

record Entity =
  index :: int
  universe :: nat

text \<open>\<^verbatim>\<open>Component(entity, type, scene, index)\<close>; the scene pointer is the address of the
  scene.\<close>

record Component =
  entity :: Entity
  type :: "32 word"
  scene :: nat
  c_index :: int

text \<open>What the scene reads of a \<^verbatim>\<open>Model\<close> and of a \<^verbatim>\<open>Material\<close> (classes of the asset
  layer): the path and the bounding radius.\<close>

record Model =
  model_path :: string
  bounding_radius :: real

record Material =
  material_path :: string

text \<open>\<^verbatim>\<open>ModelInstance\<close>: the bound model (\<open>None\<close> is \<^verbatim>\<open>NULL\<close>) and the transform. The pose
  is not modelled.\<close>

record ModelInstance =
  mi_model :: "Model option"
  mi_matrix :: Matrix

record Renderable =
  m_model :: ModelInstance
  m_entity :: Entity
  m_layer_mask :: int
  m_scale :: real

text \<open>\<^verbatim>\<open>Light::Type\<close> is an \<^verbatim>\<open>int32_t\<close> enumeration with the one enumerator
  \<^verbatim>\<open>DIRECTIONAL\<close>; deserialization writes any integer of the stream into it.\<close>

definition DIRECTIONAL :: int where "DIRECTIONAL = 0"

record Light =
  m_type :: int
  m_entity :: Entity

definition MAX_SLOT_LENGTH :: nat where "MAX_SLOT_LENGTH = 30"

record Camera =
  m_entity :: Entity
  m_fov :: real
  m_aspect :: real
  m_near :: real
  m_far :: real
  m_width :: real
  m_height :: real
  m_is_active :: bool
  m_slot :: string

record Mesh =
  mesh_material :: "Material option"
  mesh_start :: int
  mesh_count :: int
  mesh_name :: string

text \<open>\<^verbatim>\<open>struct Terrain\<close>, without the geometry buffer.\<close>

record Terrain =
  m_width :: int
  m_height :: int
  m_material :: "Material option"
  m_mesh :: "Mesh option"
  m_matrix :: Matrix
  m_entity :: Entity
  m_layer_mask :: int
  m_root :: "TerrainQuad option"
  m_xz_scale :: real
  m_y_scale :: real

record DebugLine =
  m_from :: Vec3
  m_to :: Vec3
  m_color :: Vec3
  m_life :: real

text \<open>The result of a ray cast, with the fields the scene reads and writes.\<close>

record RayCastModelHit =
  m_is_hit :: bool
  m_t :: real
  m_renderable :: Component

text \<open>
  The universe is a collaborator of the scene. Its state, as far as the scene changes it:
  the components registered by \<^verbatim>\<open>addComponent\<close> and the components announced by
  \<^verbatim>\<open>componentCreated\<close>, both in order.
\<close>

record Universe =
  u_address :: nat
  u_components :: "Component list"
  u_created :: "Component list"

text \<open>
  \<^verbatim>\<open>class RenderSceneImpl\<close>. The arrays of pointers own their elements, so they are lists
  of values; \<open>this\<close> is the address of the scene, \<open>m_universe\<close> the universe it refers
  to. The engine and the timer are not modelled.
\<close>

record RenderSceneImpl =
  this :: nat
  m_renderables :: "Renderable list"
  m_lights :: "Light list"
  m_cameras :: "Camera list"
  m_terrains :: "Terrain list"
  m_universe :: Universe
  m_debug_lines :: "DebugLine list"

text \<open>
  The functions of other parts of the engine the scene calls and whose code is not part of
  this file: the hash of the type names, the invalid component, the translation of a
  matrix, the ray-sphere test of the math library, the ray cast of a model, the resource
  managers of models and materials, the matrix of an entity and the length of a path
  buffer. The last three fields are what a default-constructed \<^verbatim>\<open>Camera\<close>, \<^verbatim>\<open>Light\<close> and
  \<^verbatim>\<open>Renderable\<close> hold: the first two have no constructor and the constructor of the third
  is empty, so their fields are whatever the allocator left there.
\<close>

record Collaborators =
  crc32 :: "string \<Rightarrow> 32 word"
  INVALID :: Component
  getTranslation :: "Matrix \<Rightarrow> Vec3"
  getRaySphereIntersection :: "Vec3 \<Rightarrow> real \<Rightarrow> Vec3 \<Rightarrow> Vec3 \<Rightarrow> bool"
  Model_castRay :: "Model \<Rightarrow> Vec3 \<Rightarrow> Vec3 \<Rightarrow> Matrix \<Rightarrow> real \<Rightarrow> RayCastModelHit"
  load_model :: "string \<Rightarrow> Model option"
  load_material :: "string \<Rightarrow> Material option"
  Entity_getMatrix :: "Entity \<Rightarrow> Matrix"
  LUMIX_MAX_PATH :: nat
  default_Camera :: Camera
  default_Light :: Light
  default_Renderable :: Renderable

definition RENDERABLE_HASH :: "Collaborators \<Rightarrow> 32 word" where
  "RENDERABLE_HASH ext = crc32 ext ''renderable''"

definition LIGHT_HASH :: "Collaborators \<Rightarrow> 32 word" where
  "LIGHT_HASH ext = crc32 ext ''light''"

definition CAMERA_HASH :: "Collaborators \<Rightarrow> 32 word" where
  "CAMERA_HASH ext = crc32 ext ''camera''"

definition TERRAIN_HASH :: "Collaborators \<Rightarrow> 32 word" where
  "TERRAIN_HASH ext = crc32 ext ''terrain''"

subsection \<open>Arrays\<close>

text \<open>
  Modelled from the spec: \<^verbatim>\<open>Array::eraseFast\<close> of \<^verbatim>\<open>core/array.h\<close>, which is not among the
  sources. The specification calls it an order-destroying, swap-style removal: the last
  element takes the place of the erased one and the array shrinks by one.
\<close>

definition eraseFast :: "'a list \<Rightarrow> nat \<Rightarrow> 'a list" where
  "eraseFast xs i = (if i < length xs then butlast (xs[i := last xs]) else xs)"

text \<open>
  Modelled from the spec: \<^verbatim>\<open>Array::resize\<close>, which truncates from the tail or appends
  default-constructed entries. \<open>fresh\<close> is what a default-constructed entry holds.
\<close>

definition resize :: "'a \<Rightarrow> 'a list \<Rightarrow> nat \<Rightarrow> 'a list" where
  "resize fresh xs n = take n xs @ replicate (n - length xs) fresh"

subsection \<open>Debug lines\<close>

definition addDebugLine :: "Vec3 \<Rightarrow> Vec3 \<Rightarrow> Vec3 \<Rightarrow> real \<Rightarrow> RenderSceneImpl \<Rightarrow> RenderSceneImpl" where
  "addDebugLine from to color life s =
     s\<lparr>m_debug_lines := m_debug_lines s @
          [\<lparr>m_from = from, m_to = to, m_color = color, m_life = life\<rparr>]\<rparr>"

text \<open>One round of the loop of \<^verbatim>\<open>update\<close>: \<^verbatim>\<open>life\<close> is a local copy of the line's field,
  and nothing writes it back.\<close>

definition update_step :: "real \<Rightarrow> nat \<Rightarrow> DebugLine list \<Rightarrow> DebugLine list" where
  "update_step dt i lines =
     (let life = m_life (lines ! i);
          life = life - dt
      in if life < 0 then eraseFast lines i else lines)"

text \<open>The loop runs from the last index down to 0.\<close>

definition update :: "real \<Rightarrow> RenderSceneImpl \<Rightarrow> RenderSceneImpl" where
  "update dt s =
     s\<lparr>m_debug_lines :=
         fold (update_step dt) (rev [0..<length (m_debug_lines s)]) (m_debug_lines s)\<rparr>"

subsection \<open>Lights\<close>

text \<open>
  \<^verbatim>\<open>getLight\<close> returns the component and leaves the scene as it is. Indexing the array
  below 0 is undefined behaviour in the source: the model returns \<open>None\<close> there.
\<close>

definition getLight :: "Collaborators \<Rightarrow> RenderSceneImpl \<Rightarrow> int \<Rightarrow> (Component \<times> RenderSceneImpl) option" where
  "getLight ext s idx =
     (if idx \<ge> int (length (m_lights s)) then Some (INVALID ext, s)
      else if idx < 0 then None
      else Some (\<lparr>entity = Light.m_entity (m_lights s ! nat idx), type = crc32 ext ''light'',
                  scene = this s, c_index = idx\<rparr>, s))"

subsection \<open>Ray cast\<close>

definition vec_sub :: "Vec3 \<Rightarrow> Vec3 \<Rightarrow> Vec3" where
  "vec_sub a b = \<lparr>vx = vx a - vx b, vy = vy a - vy b, vz = vz a - vz b\<rparr>"

definition dotProduct :: "Vec3 \<Rightarrow> Vec3 \<Rightarrow> real" where
  "dotProduct a b = vx a * vx b + vy a * vy b + vz a * vz b"

text \<open>The condition of the \<^verbatim>\<open>if\<close> that guards the ray cast of the model, for a renderable
  whose model is \<open>m\<close>.\<close>

definition broad_phase :: "Collaborators \<Rightarrow> Renderable \<Rightarrow> Model \<Rightarrow> Vec3 \<Rightarrow> Vec3 \<Rightarrow> bool" where
  "broad_phase ext r m origin dir =
     (let pos = getTranslation ext (mi_matrix (m_model r));
          radius = bounding_radius m;
          scale = m_scale r
      in dotProduct (vec_sub pos origin) (vec_sub pos origin) < radius * radius \<or>
         getRaySphereIntersection ext pos (radius * scale) origin dir)"

text \<open>One round of the loop of \<^verbatim>\<open>castRay\<close>, for the renderable at index \<open>i\<close>.\<close>

definition castRay_step ::
  "Collaborators \<Rightarrow> RenderSceneImpl \<Rightarrow> Vec3 \<Rightarrow> Vec3 \<Rightarrow> nat \<Rightarrow> RayCastModelHit \<Rightarrow> RayCastModelHit" where
  "castRay_step ext s origin dir i hit =
     (let r = m_renderables s ! i in
      case mi_model (m_model r) of
        None \<Rightarrow> hit
      | Some m \<Rightarrow>
          if broad_phase ext r m origin dir
          then let new_hit = Model_castRay ext m origin dir (mi_matrix (m_model r)) (m_scale r)
               in if m_is_hit new_hit \<and> (\<not> m_is_hit hit \<or> m_t new_hit < m_t hit)
                  then new_hit\<lparr>m_renderable :=
                                  \<lparr>entity = Renderable.m_entity r, type = crc32 ext ''renderable'',
                                   scene = this s, c_index = int i\<rparr>,
                                m_is_hit := True\<rparr>
                  else hit
          else hit)"

text \<open>\<open>hit0\<close> is the default-constructed \<^verbatim>\<open>RayCastModelHit\<close> the function starts from.\<close>

definition castRay ::
  "Collaborators \<Rightarrow> RayCastModelHit \<Rightarrow> RenderSceneImpl \<Rightarrow> Vec3 \<Rightarrow> Vec3 \<Rightarrow> RayCastModelHit" where
  "castRay ext hit0 s origin dir =
     fold (castRay_step ext s origin dir) [0..<length (m_renderables s)] (hit0\<lparr>m_is_hit := False\<rparr>)"

subsection \<open>A scene as its constructor leaves it\<close>

text \<open>The constructor of \<^verbatim>\<open>RenderSceneImpl\<close> binds the universe; every array is empty.\<close>

definition new_RenderSceneImpl :: "nat \<Rightarrow> Universe \<Rightarrow> RenderSceneImpl" where
  "new_RenderSceneImpl address u =
     \<lparr>this = address, m_renderables = [], m_lights = [], m_cameras = [], m_terrains = [],
      m_universe = u, m_debug_lines = []\<rparr>"

definition new_Universe :: "nat \<Rightarrow> Universe" where
  "new_Universe address = \<lparr>u_address = address, u_components = [], u_created = []\<rparr>"

subsection \<open>Debug lines, in the words of the specification\<close>

text \<open>A line expires in a call \<^verbatim>\<open>update(dt)\<close> when its stored lifetime less \<open>dt\<close> is below 0.\<close>

definition expires :: "real \<Rightarrow> DebugLine \<Rightarrow> bool" where
  "expires dt l \<longleftrightarrow> m_life l - dt < 0"

subsection \<open>The ray cast, in the words of the specification\<close>

text \<open>
  The broad phase as the specification states it: the origin lies inside the bounding
  sphere or the ray intersects it, for the one sphere around the instance's position whose
  radius is the model's bounding radius times the scale of the instance.
\<close>

definition broad_phase_spec :: "Collaborators \<Rightarrow> Renderable \<Rightarrow> Model \<Rightarrow> Vec3 \<Rightarrow> Vec3 \<Rightarrow> bool" where
  "broad_phase_spec ext r m origin dir =
     (let pos = getTranslation ext (mi_matrix (m_model r));
          radius = bounding_radius m * m_scale r
      in dotProduct (vec_sub pos origin) (vec_sub pos origin) < radius * radius \<or>
         getRaySphereIntersection ext pos radius origin dir)"


subsection \<open>The hits the loop of the ray cast sees\<close>

text \<open>
  What one round of the loop of \<^verbatim>\<open>castRay\<close> offers for renderable \<open>i\<close>, read off
  \<open>castRay_step\<close>: the hit of the model's own ray cast, tagged with the component of the
  renderable, when the renderable has a model, passes the broad phase as the code computes
  it (\<open>broad_phase\<close>, with the unscaled radius in the inside check) and the ray cast of the
  model hits; \<open>None\<close> otherwise.
\<close>

definition reported_hit ::
  "Collaborators \<Rightarrow> RenderSceneImpl \<Rightarrow> Vec3 \<Rightarrow> Vec3 \<Rightarrow> nat \<Rightarrow> RayCastModelHit option" where
  "reported_hit ext s origin dir i =
     (let r = m_renderables s ! i in
      case mi_model (m_model r) of
        None \<Rightarrow> None
      | Some m \<Rightarrow>
          if broad_phase ext r m origin dir
          then let new_hit = Model_castRay ext m origin dir (mi_matrix (m_model r)) (m_scale r)
               in if m_is_hit new_hit
                  then Some (new_hit\<lparr>m_renderable :=
                                        \<lparr>entity = Renderable.m_entity r, type = RENDERABLE_HASH ext,
                                         scene = this s, c_index = int i\<rparr>,
                                      m_is_hit := True\<rparr>)
                  else None
          else None)"

text \<open>\<open>h\<close> is the reported hit of renderable \<open>i\<close>, no reported hit among the first \<open>n\<close>
  renderables is closer, and none before \<open>i\<close> is as close.\<close>

definition closest_hit ::
  "Collaborators \<Rightarrow> RenderSceneImpl \<Rightarrow> Vec3 \<Rightarrow> Vec3 \<Rightarrow> nat \<Rightarrow> nat \<Rightarrow> RayCastModelHit \<Rightarrow> bool" where
  "closest_hit ext s origin dir n i h \<longleftrightarrow>
     i < n \<and> reported_hit ext s origin dir i = Some h \<and>
     (\<forall>j < n. \<forall>h'. reported_hit ext s origin dir j = Some h' \<longrightarrow>
                 m_t h \<le> m_t h' \<and> (j < i \<longrightarrow> m_t h < m_t h'))"

subsection \<open>Stand-ins for the collaborators\<close>

text \<open>
  Concrete collaborators, to run the model on examples. The ray-sphere test is the
  geometric one for a ray that leaves the origin in direction \<open>dir\<close>: the centre is not
  behind the origin and the line passes within the radius of it. The ray cast of a model
  hits when the bounding radius is positive, at the parameter found in the translation of
  the instance.
\<close>

definition ray_hits_sphere :: "Vec3 \<Rightarrow> real \<Rightarrow> Vec3 \<Rightarrow> Vec3 \<Rightarrow> bool" where
  "ray_hits_sphere center radius origin dir =
     (let L = vec_sub center origin;
          tca = dotProduct L dir
      in 0 \<le> tca \<and>
         dotProduct L L * dotProduct dir dir - tca * tca \<le> radius * radius * dotProduct dir dir)"

definition sample_collaborators :: Collaborators where
  "sample_collaborators =
     \<lparr>crc32 = (\<lambda>name. of_nat (length name)),
      INVALID = \<lparr>entity = \<lparr>index = - 1, universe = 0\<rparr>, type = 0, scene = 0, c_index = - 1\<rparr>,
      getTranslation = (\<lambda>m. \<lparr>vx = m ! 12, vy = m ! 13, vz = m ! 14\<rparr>),
      getRaySphereIntersection = ray_hits_sphere,
      Model_castRay = (\<lambda>m origin dir mtx scale.
         \<lparr>m_is_hit = (0 < bounding_radius m), m_t = mtx ! 12,
          m_renderable = \<lparr>entity = \<lparr>index = - 1, universe = 0\<rparr>, type = 0, scene = 0, c_index = - 1\<rparr>\<rparr>),
      load_model = (\<lambda>path. Some \<lparr>model_path = path, bounding_radius = 1\<rparr>),
      load_material = (\<lambda>path. Some \<lparr>material_path = path\<rparr>),
      Entity_getMatrix = (\<lambda>e. [1, 0, 0, 0, 0, 1, 0, 0, 0, 0, 1, 0, 0, 0, 0, 1]),
      LUMIX_MAX_PATH = 260,
      default_Camera =
        \<lparr>Camera.m_entity = \<lparr>index = 0, universe = 0\<rparr>, m_fov = 0, m_aspect = 0, m_near = 0,
         m_far = 0, Camera.m_width = 0, Camera.m_height = 0, m_is_active = False, m_slot = []\<rparr>,
      default_Light = \<lparr>m_type = 0, Light.m_entity = \<lparr>index = 0, universe = 0\<rparr>\<rparr>,
      default_Renderable =
        \<lparr>m_model = \<lparr>mi_model = None,
                    mi_matrix = [1, 0, 0, 0, 0, 1, 0, 0, 0, 0, 1, 0, 0, 0, 0, 1]\<rparr>,
         Renderable.m_entity = \<lparr>index = 0, universe = 0\<rparr>, Renderable.m_layer_mask = 0,
         m_scale = 0\<rparr>\<rparr>"

text \<open>The invariant of the loop of \<^verbatim>\<open>castRay\<close> after the first \<open>n\<close> renderables.\<close>

definition castRay_inv ::
  "Collaborators \<Rightarrow> RayCastModelHit \<Rightarrow> RenderSceneImpl \<Rightarrow> Vec3 \<Rightarrow> Vec3 \<Rightarrow> nat \<Rightarrow> RayCastModelHit \<Rightarrow> bool" where
  "castRay_inv ext hit0 s origin dir n h \<longleftrightarrow>
     ((\<exists>i < n. reported_hit ext s origin dir i \<noteq> None) \<longrightarrow> (\<exists>i. closest_hit ext s origin dir n i h)) \<and>
     ((\<forall>i < n. reported_hit ext s origin dir i = None) \<longrightarrow> h = hit0\<lparr>m_is_hit := False\<rparr>)"

subsection \<open>A sample scene\<close>

definition sample_matrix :: "real \<Rightarrow> Matrix" where
  "sample_matrix tx = [1, 0, 0, 0, 0, 1, 0, 0, 0, 0, 1, 0, tx, 0, 0, 1]"

definition sample_universe :: Universe where
  "sample_universe = \<lparr>u_address = 7, u_components = [], u_created = []\<rparr>"

definition sample_scene :: RenderSceneImpl where
  "sample_scene =
     \<lparr>this = 1,
      m_renderables =
        [\<lparr>m_model = \<lparr>mi_model = Some \<lparr>model_path = ''far.msh'', bounding_radius = 1\<rparr>,
                     mi_matrix = sample_matrix 5\<rparr>,
          Renderable.m_entity = \<lparr>index = 3, universe = 7\<rparr>, Renderable.m_layer_mask = 1,
          m_scale = 1\<rparr>,
         \<lparr>m_model = \<lparr>mi_model = Some \<lparr>model_path = ''near.msh'', bounding_radius = 1\<rparr>,
                     mi_matrix = sample_matrix 2\<rparr>,
          Renderable.m_entity = \<lparr>index = 4, universe = 7\<rparr>, Renderable.m_layer_mask = 2,
          m_scale = 1 / 2\<rparr>],
      m_lights =
        [\<lparr>m_type = DIRECTIONAL, Light.m_entity = \<lparr>index = 5, universe = 7\<rparr>\<rparr>,
         \<lparr>m_type = DIRECTIONAL, Light.m_entity = \<lparr>index = 6, universe = 7\<rparr>\<rparr>],
      m_cameras =
        [\<lparr>Camera.m_entity = \<lparr>index = 0, universe = 7\<rparr>, m_fov = 60, m_aspect = 4 / 3,
          m_near = 1 / 10, m_far = 10000, Camera.m_width = 800, Camera.m_height = 600,
          m_is_active = True, m_slot = ''main''\<rparr>],
      m_terrains =
        [\<lparr>m_width = 0, m_height = 0, m_material = Some \<lparr>material_path = ''ground.mat''\<rparr>,
          m_mesh = Some \<lparr>mesh_material = Some \<lparr>material_path = ''ground.mat''\<rparr>, mesh_start = 0,
                         mesh_count = terrain_mesh_count, mesh_name = ''terrain''\<rparr>,
          m_matrix = sample_matrix 0, m_entity = \<lparr>index = 8, universe = 7\<rparr>, m_layer_mask = 1,
          m_root = None, m_xz_scale = 2, m_y_scale = 3\<rparr>],
      m_universe = sample_universe,
      m_debug_lines = []\<rparr>"

definition sample_hit :: RayCastModelHit where
  "sample_hit = \<lparr>m_is_hit = True, m_t = 0, m_renderable = INVALID sample_collaborators\<rparr>"


section \<open>Serialization\<close>

subsection \<open>The serializer\<close>

text \<open>
  Modelled from the spec: the serializer collaborator (\<^verbatim>\<open>core/iserializer.h\<close>, which is not
  among the sources), an ordered key/value and array writer and reader. The stream is the
  list of what was written, in order; the writer appends, the reader takes from the front
  and fails (\<open>None\<close>) on an entry of another kind, another key or another type of value,
  and at the end of the stream. Reading a string into a buffer keeps at most
  \<open>max_length\<close> characters.
\<close>

datatype Value = IntValue int | FloatValue real | BoolValue bool | StringValue string

datatype Token = Entry string Value | BeginArray string | ArrayItem Value | EndArray

type_synonym Stream = "Token list"

definition serialize_int :: "string \<Rightarrow> int \<Rightarrow> Stream \<Rightarrow> Stream" where
  "serialize_int label v st = st @ [Entry label (IntValue v)]"

definition beginArray :: "string \<Rightarrow> Stream \<Rightarrow> Stream" where
  "beginArray label st = st @ [BeginArray label]"

definition serializeArrayItem :: "Value \<Rightarrow> Stream \<Rightarrow> Stream" where
  "serializeArrayItem v st = st @ [ArrayItem v]"

definition endArray :: "Stream \<Rightarrow> Stream" where
  "endArray st = st @ [EndArray]"

definition deserialize_int :: "string \<Rightarrow> Stream \<Rightarrow> (int \<times> Stream) option" where
  "deserialize_int label st =
     (case st of
        Entry l (IntValue v) # rest \<Rightarrow> if l = label then Some (v, rest) else None
      | _ \<Rightarrow> None)"

definition deserializeArrayBegin :: "string \<Rightarrow> Stream \<Rightarrow> Stream option" where
  "deserializeArrayBegin label st =
     (case st of
        BeginArray l # rest \<Rightarrow> if l = label then Some rest else None
      | _ \<Rightarrow> None)"

definition deserializeArrayItem_int :: "Stream \<Rightarrow> (int \<times> Stream) option" where
  "deserializeArrayItem_int st =
     (case st of ArrayItem (IntValue v) # rest \<Rightarrow> Some (v, rest) | _ \<Rightarrow> None)"

definition deserializeArrayItem_float :: "Stream \<Rightarrow> (real \<times> Stream) option" where
  "deserializeArrayItem_float st =
     (case st of ArrayItem (FloatValue v) # rest \<Rightarrow> Some (v, rest) | _ \<Rightarrow> None)"

definition deserializeArrayItem_bool :: "Stream \<Rightarrow> (bool \<times> Stream) option" where
  "deserializeArrayItem_bool st =
     (case st of ArrayItem (BoolValue v) # rest \<Rightarrow> Some (v, rest) | _ \<Rightarrow> None)"

definition deserializeArrayItem_string :: "nat \<Rightarrow> Stream \<Rightarrow> (string \<times> Stream) option" where
  "deserializeArrayItem_string max_length st =
     (case st of ArrayItem (StringValue v) # rest \<Rightarrow> Some (take max_length v, rest) | _ \<Rightarrow> None)"

definition deserializeArrayEnd :: "Stream \<Rightarrow> Stream option" where
  "deserializeArrayEnd st = (case st of EndArray # rest \<Rightarrow> Some rest | _ \<Rightarrow> None)"

text \<open>A counted loop whose body may fail: \<^verbatim>\<open>for (int i = ...; ...; ++i)\<close> over the indices
  given, stopping at the first failure.\<close>

fun for_each :: "nat list \<Rightarrow> (nat \<Rightarrow> 's \<Rightarrow> 's option) \<Rightarrow> 's \<Rightarrow> 's option" where
  "for_each [] body s = Some s"
| "for_each (i # rest) body s = (case body i s of None \<Rightarrow> None | Some s' \<Rightarrow> for_each rest body s')"

subsection \<open>The universe\<close>

text \<open>
  Modelled from the spec: \<^verbatim>\<open>Universe::addComponent(entity, type, scene, index)\<close> registers
  the component and returns it.
\<close>

definition Universe_addComponent ::
  "Universe \<Rightarrow> Entity \<Rightarrow> 32 word \<Rightarrow> nat \<Rightarrow> int \<Rightarrow> Component \<times> Universe" where
  "Universe_addComponent u e t sc i =
     (let cmp = \<lparr>entity = e, type = t, scene = sc, c_index = i\<rparr>
      in (cmp, u\<lparr>u_components := u_components u @ [cmp]\<rparr>))"

definition componentCreated_invoke :: "Component \<Rightarrow> Universe \<Rightarrow> Universe" where
  "componentCreated_invoke cmp u = u\<lparr>u_created := u_created u @ [cmp]\<rparr>"

subsection \<open>Creating components\<close>

text \<open>
  The constructor of \<^verbatim>\<open>Terrain\<close> sets the material and the root to \<^verbatim>\<open>NULL\<close> and builds the
  mesh over all the indices of the grid, with the material it has then; \<^verbatim>\<open>createComponent\<close>
  assigns the other fields.
\<close>

definition new_Terrain_mesh :: Mesh where
  "new_Terrain_mesh =
     \<lparr>mesh_material = None, mesh_start = 0, mesh_count = terrain_mesh_count,
      mesh_name = ''terrain''\<rparr>"

text \<open>An unknown type tag fails the assertion: \<open>None\<close>.\<close>

definition createComponent ::
  "Collaborators \<Rightarrow> RenderSceneImpl \<Rightarrow> 32 word \<Rightarrow> Entity \<Rightarrow> (Component \<times> RenderSceneImpl) option" where
  "createComponent ext s t e =
     (if t = TERRAIN_HASH ext then
        let terrain = \<lparr>m_width = 0, m_height = 0, m_material = None, m_mesh = Some new_Terrain_mesh,
                       m_matrix = Entity_getMatrix ext e, m_entity = e, m_layer_mask = 1,
                       m_root = None, m_xz_scale = 1, m_y_scale = 1\<rparr>;
            terrains = m_terrains s @ [terrain];
            (cmp, u) = Universe_addComponent (m_universe s) e t (this s) (int (length terrains) - 1)
        in Some (cmp, s\<lparr>m_terrains := terrains, m_universe := componentCreated_invoke cmp u\<rparr>)
      else if t = CAMERA_HASH ext then
        let camera = (default_Camera ext)
                       \<lparr>m_is_active := False, Camera.m_entity := e, m_fov := 60,
                        Camera.m_width := 800, Camera.m_height := 600, m_aspect := 800 / 600,
                        m_near := 1 / 10, m_far := 10000, m_slot := []\<rparr>;
            cameras = m_cameras s @ [camera];
            (cmp, u) = Universe_addComponent (m_universe s) e t (this s) (int (length cameras) - 1)
        in Some (cmp, s\<lparr>m_cameras := cameras, m_universe := componentCreated_invoke cmp u\<rparr>)
      else if t = RENDERABLE_HASH ext then
        let r = (default_Renderable ext)
                  \<lparr>Renderable.m_entity := e, Renderable.m_layer_mask := 1, m_scale := 1,
                   m_model := (m_model (default_Renderable ext))\<lparr>mi_model := None\<rparr>\<rparr>;
            renderables = m_renderables s @ [r];
            (cmp, u) = Universe_addComponent (m_universe s) e t (this s) (int (length renderables) - 1)
        in Some (cmp, s\<lparr>m_renderables := renderables, m_universe := componentCreated_invoke cmp u\<rparr>)
      else if t = LIGHT_HASH ext then
        let light = (default_Light ext)\<lparr>m_type := DIRECTIONAL, Light.m_entity := e\<rparr>;
            lights = m_lights s @ [light];
            (cmp, u) = Universe_addComponent (m_universe s) e t (this s) (int (length lights) - 1)
        in Some (cmp, s\<lparr>m_lights := lights, m_universe := componentCreated_invoke cmp u\<rparr>)
      else None)"

text \<open>
  \<^verbatim>\<open>setTerrainMaterial\<close>. An index outside the array, and a material that did not load
  while the terrain has a mesh (the observer is bound through the material), are undefined
  behaviour in the source: \<open>None\<close>. The reference counts and the observers of the resource
  manager are not modelled.
\<close>

definition setTerrainMaterial ::
  "Collaborators \<Rightarrow> Component \<Rightarrow> string \<Rightarrow> RenderSceneImpl \<Rightarrow> RenderSceneImpl option" where
  "setTerrainMaterial ext cmp path s =
     (if c_index cmp < 0 \<or> int (length (m_terrains s)) \<le> c_index cmp then None
      else
        let i = nat (c_index cmp);
            terrain = m_terrains s ! i;
            material = load_material ext path
        in case m_mesh terrain of
             None \<Rightarrow> Some (s\<lparr>m_terrains := (m_terrains s)[i := terrain\<lparr>m_material := material\<rparr>]\<rparr>)
           | Some mesh \<Rightarrow>
               (case material of
                  None \<Rightarrow> None
                | Some m \<Rightarrow>
                    Some (s\<lparr>m_terrains := (m_terrains s)
                              [i := terrain\<lparr>m_material := material,
                                           m_mesh := Some (mesh\<lparr>mesh_material := material\<rparr>)\<rparr>]\<rparr>)))"

subsection \<open>Writing the registries\<close>

definition camera_items :: "Camera \<Rightarrow> Value list" where
  "camera_items c =
     [FloatValue (m_far c), FloatValue (m_near c), FloatValue (m_fov c), BoolValue (m_is_active c),
      FloatValue (Camera.m_width c), FloatValue (Camera.m_height c),
      IntValue (index (Camera.m_entity c)), StringValue (m_slot c)]"

definition serializeCameras :: "RenderSceneImpl \<Rightarrow> Stream \<Rightarrow> Stream" where
  "serializeCameras s st0 =
     (let st1 = serialize_int ''camera_count'' (int (length (m_cameras s))) st0;
          st2 = beginArray ''cameras'' st1;
          st3 = fold (\<lambda>i. fold serializeArrayItem (camera_items (m_cameras s ! i)))
                     [0..<length (m_cameras s)] st2
      in endArray st3)"

definition light_items :: "Light \<Rightarrow> Value list" where
  "light_items l = [IntValue (index (Light.m_entity l)), IntValue (m_type l)]"

definition serializeLights :: "RenderSceneImpl \<Rightarrow> Stream \<Rightarrow> Stream" where
  "serializeLights s st0 =
     (let st1 = serialize_int ''light_count'' (int (length (m_lights s))) st0;
          st2 = beginArray ''lights'' st1;
          st3 = fold (\<lambda>i. fold serializeArrayItem (light_items (m_lights s ! i)))
                     [0..<length (m_lights s)] st2
      in endArray st3)"

text \<open>The path written for a renderable: that of its model, or the empty string.\<close>

definition renderable_path :: "Renderable \<Rightarrow> string" where
  "renderable_path r = (case mi_model (m_model r) of Some m \<Rightarrow> model_path m | None \<Rightarrow> [])"

definition serializeRenderable :: "Renderable \<Rightarrow> Stream \<Rightarrow> Stream" where
  "serializeRenderable r st0 =
     (let st1 = serializeArrayItem (IntValue (index (Renderable.m_entity r))) st0;
          st2 = serializeArrayItem (StringValue (renderable_path r)) st1;
          st3 = serializeArrayItem (FloatValue (m_scale r)) st2;
          mtx = mi_matrix (m_model r)
      in fold (\<lambda>j. serializeArrayItem (FloatValue (mtx ! j))) [0..<16] st3)"

definition serializeRenderables :: "RenderSceneImpl \<Rightarrow> Stream \<Rightarrow> Stream" where
  "serializeRenderables s st0 =
     (let st1 = serialize_int ''renderable_count'' (int (length (m_renderables s))) st0;
          st2 = beginArray ''renderables'' st1;
          st3 = fold (\<lambda>i. serializeRenderable (m_renderables s ! i))
                     [0..<length (m_renderables s)] st2
      in endArray st3)"

text \<open>\<^verbatim>\<open>serializeTerrains\<close> reads the path through \<^verbatim>\<open>m_material\<close> without a check: a
  terrain without a material is a \<^verbatim>\<open>NULL\<close> dereference, \<open>None\<close> in the model.\<close>

definition serializeTerrain :: "Terrain \<Rightarrow> Stream \<Rightarrow> Stream option" where
  "serializeTerrain t st =
     (case m_material t of
        None \<Rightarrow> None
      | Some m \<Rightarrow>
          Some (fold serializeArrayItem
                  [IntValue (index (m_entity t)), IntValue (m_layer_mask t),
                   StringValue (material_path m), FloatValue (m_xz_scale t),
                   FloatValue (m_y_scale t)] st))"

definition serializeTerrains :: "RenderSceneImpl \<Rightarrow> Stream \<Rightarrow> Stream option" where
  "serializeTerrains s st0 =
     (let st1 = serialize_int ''terrain_count'' (int (length (m_terrains s))) st0;
          st2 = beginArray ''terrains'' st1
      in map_option endArray
           (for_each [0..<length (m_terrains s)] (\<lambda>i. serializeTerrain (m_terrains s ! i)) st2))"

definition serialize :: "RenderSceneImpl \<Rightarrow> Stream \<Rightarrow> Stream option" where
  "serialize s st0 =
     (let st1 = serializeCameras s st0;
          st2 = serializeRenderables s st1;
          st3 = serializeLights s st2
      in serializeTerrains s st3)"

subsection \<open>Reading the registries\<close>

text \<open>One round of the loop of \<^verbatim>\<open>deserializeCameras\<close>, on the scene and the stream.\<close>

definition deserializeCamera ::
  "Collaborators \<Rightarrow> nat \<Rightarrow> RenderSceneImpl \<times> Stream \<Rightarrow> (RenderSceneImpl \<times> Stream) option" where
  "deserializeCamera ext i = (\<lambda>(s, st0). do {
     (far, st1) \<leftarrow> deserializeArrayItem_float st0;
     (near, st2) \<leftarrow> deserializeArrayItem_float st1;
     (fov, st3) \<leftarrow> deserializeArrayItem_float st2;
     (is_active, st4) \<leftarrow> deserializeArrayItem_bool st3;
     (width, st5) \<leftarrow> deserializeArrayItem_float st4;
     (height, st6) \<leftarrow> deserializeArrayItem_float st5;
     (idx, st7) \<leftarrow> deserializeArrayItem_int st6;
     (slot, st8) \<leftarrow> deserializeArrayItem_string MAX_SLOT_LENGTH st7;
     let e = \<lparr>index = idx, universe = u_address (m_universe s)\<rparr>;
         camera = (m_cameras s ! i)
                    \<lparr>m_far := far, m_near := near, m_fov := fov, m_is_active := is_active,
                     Camera.m_width := width, Camera.m_height := height,
                     m_aspect := width / height, Camera.m_entity := e, m_slot := slot\<rparr>;
         (cmp, u) = Universe_addComponent (m_universe s) e (CAMERA_HASH ext) (this s) (int i)
     in Some (s\<lparr>m_cameras := (m_cameras s)[i := camera], m_universe := u\<rparr>, st8)
   })"

text \<open>A negative count makes \<^verbatim>\<open>resize\<close> undefined: \<open>None\<close>.\<close>

definition deserializeCameras ::
  "Collaborators \<Rightarrow> RenderSceneImpl \<times> Stream \<Rightarrow> (RenderSceneImpl \<times> Stream) option" where
  "deserializeCameras ext = (\<lambda>(s, st0). do {
     (size, st1) \<leftarrow> deserialize_int ''camera_count'' st0;
     st2 \<leftarrow> deserializeArrayBegin ''cameras'' st1;
     (s', st3) \<leftarrow>
       (if size < 0 then None
        else for_each [0..<nat size] (deserializeCamera ext)
               (s\<lparr>m_cameras := resize (default_Camera ext) (m_cameras s) (nat size)\<rparr>, st2));
     st4 \<leftarrow> deserializeArrayEnd st3;
     Some (s', st4)
   })"

text \<open>The inner loop of \<^verbatim>\<open>deserializeRenderables\<close>: one component of the matrix.\<close>

definition deserializeMatrixItem :: "nat \<Rightarrow> Matrix \<times> Stream \<Rightarrow> (Matrix \<times> Stream) option" where
  "deserializeMatrixItem j = (\<lambda>(mtx, st0). do {
     (v, st1) \<leftarrow> deserializeArrayItem_float st0;
     Some (mtx[j := v], st1)
   })"

definition deserializeRenderable ::
  "Collaborators \<Rightarrow> nat \<Rightarrow> RenderSceneImpl \<times> Stream \<Rightarrow> (RenderSceneImpl \<times> Stream) option" where
  "deserializeRenderable ext i = (\<lambda>(s, st0). do {
     (idx, st1) \<leftarrow> deserializeArrayItem_int st0;
     (path, st2) \<leftarrow> deserializeArrayItem_string (LUMIX_MAX_PATH ext) st1;
     (scale, st3) \<leftarrow> deserializeArrayItem_float st2;
     (mtx, st4) \<leftarrow> for_each [0..<16] deserializeMatrixItem
                      (mi_matrix (m_model (m_renderables s ! i)), st3);
     let e = \<lparr>index = idx, universe = u_address (m_universe s)\<rparr>;
         r = (m_renderables s ! i)
               \<lparr>Renderable.m_entity := e, m_scale := scale,
                m_model := \<lparr>mi_model = load_model ext path, mi_matrix = mtx\<rparr>\<rparr>;
         (cmp, u) = Universe_addComponent (m_universe s) e (RENDERABLE_HASH ext) (this s) (int i)
     in Some (s\<lparr>m_renderables := (m_renderables s)[i := r], m_universe := u\<rparr>, st4)
   })"

text \<open>
  \<^verbatim>\<open>deserializeRenderables\<close> deletes the entries beyond the recorded count, resizes the
  array of pointers and allocates the entries that are new.
\<close>

definition deserializeRenderables ::
  "Collaborators \<Rightarrow> RenderSceneImpl \<times> Stream \<Rightarrow> (RenderSceneImpl \<times> Stream) option" where
  "deserializeRenderables ext = (\<lambda>(s, st0). do {
     (size, st1) \<leftarrow> deserialize_int ''renderable_count'' st0;
     st2 \<leftarrow> deserializeArrayBegin ''renderables'' st1;
     (s', st3) \<leftarrow>
       (if size < 0 then None
        else for_each [0..<nat size] (deserializeRenderable ext)
               (s\<lparr>m_renderables := resize (default_Renderable ext) (m_renderables s) (nat size)\<rparr>, st2));
     st4 \<leftarrow> deserializeArrayEnd st3;
     Some (s', st4)
   })"

definition deserializeLight ::
  "Collaborators \<Rightarrow> nat \<Rightarrow> RenderSceneImpl \<times> Stream \<Rightarrow> (RenderSceneImpl \<times> Stream) option" where
  "deserializeLight ext i = (\<lambda>(s, st0). do {
     (idx, st1) \<leftarrow> deserializeArrayItem_int st0;
     (t, st2) \<leftarrow> deserializeArrayItem_int st1;
     let e = \<lparr>index = idx, universe = u_address (m_universe s)\<rparr>;
         light = (m_lights s ! i)\<lparr>Light.m_entity := e, m_type := t\<rparr>;
         (cmp, u) = Universe_addComponent (m_universe s) e (LIGHT_HASH ext) (this s) (int i)
     in Some (s\<lparr>m_lights := (m_lights s)[i := light], m_universe := u\<rparr>, st2)
   })"

definition deserializeLights ::
  "Collaborators \<Rightarrow> RenderSceneImpl \<times> Stream \<Rightarrow> (RenderSceneImpl \<times> Stream) option" where
  "deserializeLights ext = (\<lambda>(s, st0). do {
     (size, st1) \<leftarrow> deserialize_int ''light_count'' st0;
     st2 \<leftarrow> deserializeArrayBegin ''lights'' st1;
     (s', st3) \<leftarrow>
       (if size < 0 then None
        else for_each [0..<nat size] (deserializeLight ext)
               (s\<lparr>m_lights := resize (default_Light ext) (m_lights s) (nat size)\<rparr>, st2));
     st4 \<leftarrow> deserializeArrayEnd st3;
     Some (s', st4)
   })"

text \<open>
  One round of the loop of \<^verbatim>\<open>deserializeTerrains\<close>. The terrain is created through
  \<^verbatim>\<open>createComponent\<close>, which appends it; the layer mask and the material go to the terrain
  at the index of the new component, the two scales to the terrain at the loop index \<open>i\<close>.
\<close>

definition deserializeTerrain ::
  "Collaborators \<Rightarrow> nat \<Rightarrow> RenderSceneImpl \<times> Stream \<Rightarrow> (RenderSceneImpl \<times> Stream) option" where
  "deserializeTerrain ext i = (\<lambda>(s, st0). do {
     (idx, st1) \<leftarrow> deserializeArrayItem_int st0;
     (cmp, s1) \<leftarrow> createComponent ext s (TERRAIN_HASH ext)
                    \<lparr>index = idx, universe = u_address (m_universe s)\<rparr>;
     (mask, st2) \<leftarrow> deserializeArrayItem_int st1;
     s2 \<leftarrow> (if c_index cmp < 0 \<or> int (length (m_terrains s1)) \<le> c_index cmp then None
            else Some (s1\<lparr>m_terrains := (m_terrains s1)
                            [nat (c_index cmp) :=
                               (m_terrains s1 ! nat (c_index cmp))\<lparr>m_layer_mask := mask\<rparr>]\<rparr>));
     (path, st3) \<leftarrow> deserializeArrayItem_string (LUMIX_MAX_PATH ext) st2;
     s3 \<leftarrow> setTerrainMaterial ext cmp path s2;
     (xz_scale, st4) \<leftarrow> deserializeArrayItem_float st3;
     s4 \<leftarrow> (if length (m_terrains s3) \<le> i then None
            else Some (s3\<lparr>m_terrains := (m_terrains s3)
                            [i := (m_terrains s3 ! i)\<lparr>m_xz_scale := xz_scale\<rparr>]\<rparr>));
     (y_scale, st5) \<leftarrow> deserializeArrayItem_float st4;
     s5 \<leftarrow> (if length (m_terrains s4) \<le> i then None
            else Some (s4\<lparr>m_terrains := (m_terrains s4)
                            [i := (m_terrains s4 ! i)\<lparr>m_y_scale := y_scale\<rparr>]\<rparr>));
     Some (s5, st5)
   })"

text \<open>\<^verbatim>\<open>deserializeTerrains\<close> does not resize the array; with a count below 1 the loop
  does not run.\<close>

definition deserializeTerrains ::
  "Collaborators \<Rightarrow> RenderSceneImpl \<times> Stream \<Rightarrow> (RenderSceneImpl \<times> Stream) option" where
  "deserializeTerrains ext = (\<lambda>(s, st0). do {
     (size, st1) \<leftarrow> deserialize_int ''terrain_count'' st0;
     st2 \<leftarrow> deserializeArrayBegin ''terrains'' st1;
     (s', st3) \<leftarrow> for_each [0..<nat size] (deserializeTerrain ext) (s, st2);
     st4 \<leftarrow> deserializeArrayEnd st3;
     Some (s', st4)
   })"

definition deserialize ::
  "Collaborators \<Rightarrow> RenderSceneImpl \<times> Stream \<Rightarrow> (RenderSceneImpl \<times> Stream) option" where
  "deserialize ext x0 = do {
     x1 \<leftarrow> deserializeCameras ext x0;
     x2 \<leftarrow> deserializeRenderables ext x1;
     x3 \<leftarrow> deserializeLights ext x2;
     deserializeTerrains ext x3
   }"

subsection \<open>The stream of a scene and the scene read back\<close>

text \<open>The entries one element of each registry contributes to the stream.\<close>

definition camera_tokens :: "Camera \<Rightarrow> Stream" where
  "camera_tokens c = map ArrayItem (camera_items c)"

definition renderable_tokens :: "Renderable \<Rightarrow> Stream" where
  "renderable_tokens r =
     map ArrayItem
       ([IntValue (index (Renderable.m_entity r)), StringValue (renderable_path r),
         FloatValue (m_scale r)] @ map FloatValue (mi_matrix (m_model r)))"

definition light_tokens :: "Light \<Rightarrow> Stream" where
  "light_tokens l = map ArrayItem (light_items l)"

definition terrain_path :: "Terrain \<Rightarrow> string" where
  "terrain_path t = (case m_material t of Some m \<Rightarrow> material_path m | None \<Rightarrow> [])"

definition terrain_tokens :: "Terrain \<Rightarrow> Stream" where
  "terrain_tokens t =
     map ArrayItem
       [IntValue (index (m_entity t)), IntValue (m_layer_mask t), StringValue (terrain_path t),
        FloatValue (m_xz_scale t), FloatValue (m_y_scale t)]"

text \<open>A registry in the stream: its count, then its elements between the array marks.\<close>

definition registry_stream :: "string \<Rightarrow> string \<Rightarrow> ('a \<Rightarrow> Stream) \<Rightarrow> 'a list \<Rightarrow> Stream" where
  "registry_stream count_label array_label tokens xs =
     [Entry count_label (IntValue (int (length xs))), BeginArray array_label] @
     concat (map tokens xs) @ [EndArray]"

definition scene_stream :: "RenderSceneImpl \<Rightarrow> Stream" where
  "scene_stream s =
     registry_stream ''camera_count'' ''cameras'' camera_tokens (m_cameras s) @
     registry_stream ''renderable_count'' ''renderables'' renderable_tokens (m_renderables s) @
     registry_stream ''light_count'' ''lights'' light_tokens (m_lights s) @
     registry_stream ''terrain_count'' ''terrains'' terrain_tokens (m_terrains s)"

text \<open>
  What the types of the source guarantee of a scene: a matrix has sixteen components (that
  of a default-constructed renderable too), a camera slot fits its buffer of
  \<^verbatim>\<open>MAX_SLOT_LENGTH + 1\<close> characters, and a path fits a buffer of \<^verbatim>\<open>LUMIX_MAX_PATH\<close>
  characters.
\<close>

definition well_formed :: "Collaborators \<Rightarrow> RenderSceneImpl \<Rightarrow> bool" where
  "well_formed ext s \<longleftrightarrow>
     list_all (\<lambda>c. length (m_slot c) \<le> MAX_SLOT_LENGTH) (m_cameras s) \<and>
     list_all (\<lambda>r. length (mi_matrix (m_model r)) = 16 \<and>
                   length (renderable_path r) \<le> LUMIX_MAX_PATH ext) (m_renderables s) \<and>
     list_all (\<lambda>t. length (terrain_path t) \<le> LUMIX_MAX_PATH ext) (m_terrains s) \<and>
     length (mi_matrix (m_model (default_Renderable ext))) = 16"

text \<open>The elements deserialization builds from the elements that were written. \<open>a\<close> is
  the address of the universe of the scene that reads. The layer mask of a renderable that
  is read back is the one of the default-constructed renderable.\<close>

definition restored_camera :: "nat \<Rightarrow> Camera \<Rightarrow> Camera" where
  "restored_camera a c =
     c\<lparr>Camera.m_entity := \<lparr>index = index (Camera.m_entity c), universe = a\<rparr>,
       m_aspect := Camera.m_width c / Camera.m_height c\<rparr>"

definition restored_renderable :: "Collaborators \<Rightarrow> nat \<Rightarrow> Renderable \<Rightarrow> Renderable" where
  "restored_renderable ext a r =
     \<lparr>m_model = \<lparr>mi_model = load_model ext (renderable_path r), mi_matrix = mi_matrix (m_model r)\<rparr>,
      Renderable.m_entity = \<lparr>index = index (Renderable.m_entity r), universe = a\<rparr>,
      Renderable.m_layer_mask = Renderable.m_layer_mask (default_Renderable ext),
      m_scale = m_scale r\<rparr>"

definition restored_light :: "nat \<Rightarrow> Light \<Rightarrow> Light" where
  "restored_light a l =
     \<lparr>m_type = m_type l, Light.m_entity = \<lparr>index = index (Light.m_entity l), universe = a\<rparr>\<rparr>"

definition restored_terrain :: "Collaborators \<Rightarrow> nat \<Rightarrow> Terrain \<Rightarrow> Terrain" where
  "restored_terrain ext a t =
     \<lparr>m_width = 0, m_height = 0,
      m_material = load_material ext (terrain_path t),
      m_mesh = Some (new_Terrain_mesh\<lparr>mesh_material := load_material ext (terrain_path t)\<rparr>),
      m_matrix = Entity_getMatrix ext \<lparr>index = index (m_entity t), universe = a\<rparr>,
      m_entity = \<lparr>index = index (m_entity t), universe = a\<rparr>,
      m_layer_mask = m_layer_mask t,
      m_root = None, m_xz_scale = m_xz_scale t, m_y_scale = m_y_scale t\<rparr>"

text \<open>The components registered for a registry: one for each element, with the entity
  index that was written, the type tag of the registry and the position in the registry.\<close>

definition registered :: "nat \<Rightarrow> nat \<Rightarrow> 32 word \<Rightarrow> int list \<Rightarrow> Component list" where
  "registered a sc t entity_indices =
     map (\<lambda>(i, e). \<lparr>entity = \<lparr>index = e, universe = a\<rparr>, type = t, scene = sc, c_index = int i\<rparr>)
         (enumerate 0 entity_indices)"

definition restored_scene ::
  "Collaborators \<Rightarrow> RenderSceneImpl \<Rightarrow> RenderSceneImpl \<Rightarrow> RenderSceneImpl" where
  "restored_scene ext fresh s =
     (let u = m_universe fresh;
          a = u_address u;
          terrain_components =
            registered a (this fresh) (TERRAIN_HASH ext) (map (\<lambda>t. index (m_entity t)) (m_terrains s))
      in fresh
           \<lparr>m_cameras := map (restored_camera a) (m_cameras s),
            m_renderables := map (restored_renderable ext a) (m_renderables s),
            m_lights := map (restored_light a) (m_lights s),
            m_terrains := map (restored_terrain ext a) (m_terrains s),
            m_universe := u
              \<lparr>u_components := u_components u @
                 registered a (this fresh) (CAMERA_HASH ext)
                   (map (\<lambda>c. index (Camera.m_entity c)) (m_cameras s)) @
                 registered a (this fresh) (RENDERABLE_HASH ext)
                   (map (\<lambda>r. index (Renderable.m_entity r)) (m_renderables s)) @
                 registered a (this fresh) (LIGHT_HASH ext)
                   (map (\<lambda>l. index (Light.m_entity l)) (m_lights s)) @
                 terrain_components,
               u_created := u_created u @ terrain_components\<rparr>\<rparr>)"

text \<open>Serializing a scene and deserializing the stream into another scene.\<close>

definition roundtrip ::
  "Collaborators \<Rightarrow> RenderSceneImpl \<Rightarrow> RenderSceneImpl \<Rightarrow> (RenderSceneImpl \<times> Stream) option" where
  "roundtrip ext s fresh =
     (case serialize s [] of None \<Rightarrow> None | Some st \<Rightarrow> deserialize ext (fresh, st))"

text \<open>The fields of the elements the specification compares after a round trip.\<close>

definition camera_fields :: "Camera \<Rightarrow> real \<times> real \<times> real \<times> real \<times> real \<times> bool \<times> string \<times> int" where
  "camera_fields c =
     (m_fov c, m_near c, m_far c, Camera.m_width c, Camera.m_height c, m_is_active c, m_slot c,
      index (Camera.m_entity c))"

definition renderable_fields :: "Renderable \<Rightarrow> Matrix \<times> real \<times> string \<times> int" where
  "renderable_fields r =
     (mi_matrix (m_model r), m_scale r, renderable_path r, index (Renderable.m_entity r))"

definition light_fields :: "Light \<Rightarrow> int \<times> int" where
  "light_fields l = (m_type l, index (Light.m_entity l))"

definition terrain_fields :: "Terrain \<Rightarrow> int \<times> string \<times> real \<times> real \<times> int" where
  "terrain_fields t =
     (m_layer_mask t, terrain_path t, m_xz_scale t, m_y_scale t, index (m_entity t))"

text \<open>The registries of two scenes agree in the fields that are written to the stream.\<close>

definition same_serialized_fields :: "RenderSceneImpl \<Rightarrow> RenderSceneImpl \<Rightarrow> bool" where
  "same_serialized_fields s s' \<longleftrightarrow>
     map camera_fields (m_cameras s') = map camera_fields (m_cameras s) \<and>
     map renderable_fields (m_renderables s') = map renderable_fields (m_renderables s) \<and>
     map light_fields (m_lights s') = map light_fields (m_lights s) \<and>
     map terrain_fields (m_terrains s') = map terrain_fields (m_terrains s)"

text \<open>The registries agree field for field as the specification lists the fields: the
  layer masks of the renderables are among them.\<close>

definition same_registries :: "RenderSceneImpl \<Rightarrow> RenderSceneImpl \<Rightarrow> bool" where
  "same_registries s s' \<longleftrightarrow>
     same_serialized_fields s s' \<and>
     map Renderable.m_layer_mask (m_renderables s') = map Renderable.m_layer_mask (m_renderables s)"

definition roundtrip_preserves :: "Collaborators \<Rightarrow> RenderSceneImpl \<Rightarrow> RenderSceneImpl \<Rightarrow> bool" where
  "roundtrip_preserves ext s fresh \<longleftrightarrow>
     (case roundtrip ext s fresh of None \<Rightarrow> False | Some (s', rest) \<Rightarrow> same_registries s s')"

text \<open>The resource managers answer a path with a resource of that path.\<close>

definition loads_by_path :: "Collaborators \<Rightarrow> bool" where
  "loads_by_path ext \<longleftrightarrow>
     (\<forall>path. \<exists>m. load_model ext path = Some m \<and> model_path m = path) \<and>
     (\<forall>path. \<exists>m. load_material ext path = Some m \<and> material_path m = path)"

text \<open>The effect of reading one element on the scene, for each registry.\<close>

definition read_camera :: "Collaborators \<Rightarrow> nat \<Rightarrow> Camera \<Rightarrow> RenderSceneImpl \<Rightarrow> RenderSceneImpl" where
  "read_camera ext i c s =
     s\<lparr>m_cameras := (m_cameras s)[i := restored_camera (u_address (m_universe s)) c],
       m_universe := (m_universe s)
         \<lparr>u_components := u_components (m_universe s) @
            [\<lparr>entity = \<lparr>index = index (Camera.m_entity c), universe = u_address (m_universe s)\<rparr>,
              type = CAMERA_HASH ext, scene = this s, c_index = int i\<rparr>]\<rparr>\<rparr>"

text \<open>The renderable at a position after the fields of \<open>r\<close> were read into \<open>old\<close>.\<close>

definition overwritten_renderable :: "Collaborators \<Rightarrow> nat \<Rightarrow> Renderable \<Rightarrow> Renderable \<Rightarrow> Renderable" where
  "overwritten_renderable ext a old r =
     old\<lparr>Renderable.m_entity := \<lparr>index = index (Renderable.m_entity r), universe = a\<rparr>,
         m_scale := m_scale r,
         m_model := \<lparr>mi_model = load_model ext (renderable_path r),
                     mi_matrix = mi_matrix (m_model r)\<rparr>\<rparr>"

definition read_renderable :: "Collaborators \<Rightarrow> nat \<Rightarrow> Renderable \<Rightarrow> RenderSceneImpl \<Rightarrow> RenderSceneImpl" where
  "read_renderable ext i r s =
     s\<lparr>m_renderables := (m_renderables s)
         [i := overwritten_renderable ext (u_address (m_universe s)) (m_renderables s ! i) r],
       m_universe := (m_universe s)
         \<lparr>u_components := u_components (m_universe s) @
            [\<lparr>entity = \<lparr>index = index (Renderable.m_entity r), universe = u_address (m_universe s)\<rparr>,
              type = RENDERABLE_HASH ext, scene = this s, c_index = int i\<rparr>]\<rparr>\<rparr>"

definition read_light :: "Collaborators \<Rightarrow> nat \<Rightarrow> Light \<Rightarrow> RenderSceneImpl \<Rightarrow> RenderSceneImpl" where
  "read_light ext i l s =
     s\<lparr>m_lights := (m_lights s)[i := restored_light (u_address (m_universe s)) l],
       m_universe := (m_universe s)
         \<lparr>u_components := u_components (m_universe s) @
            [\<lparr>entity = \<lparr>index = index (Light.m_entity l), universe = u_address (m_universe s)\<rparr>,
              type = LIGHT_HASH ext, scene = this s, c_index = int i\<rparr>]\<rparr>\<rparr>"

definition read_terrain :: "Collaborators \<Rightarrow> Terrain \<Rightarrow> RenderSceneImpl \<Rightarrow> RenderSceneImpl" where
  "read_terrain ext t s =
     (let cmp = \<lparr>entity = \<lparr>index = index (m_entity t), universe = u_address (m_universe s)\<rparr>,
                 type = TERRAIN_HASH ext, scene = this s, c_index = int (length (m_terrains s))\<rparr>
      in s\<lparr>m_terrains := m_terrains s @ [restored_terrain ext (u_address (m_universe s)) t],
           m_universe := (m_universe s)
             \<lparr>u_components := u_components (m_universe s) @ [cmp],
              u_created := u_created (m_universe s) @ [cmp]\<rparr>\<rparr>)"

text \<open>Every matrix of the renderables has its sixteen components.\<close>

definition matrices_ok :: "Renderable list \<Rightarrow> bool" where
  "matrices_ok rs \<longleftrightarrow> list_all (\<lambda>r. length (mi_matrix (m_model r)) = 16) rs"

text \<open>The number of elements of each registry: cameras, renderables, lights, terrains.\<close>

definition registry_sizes :: "RenderSceneImpl \<Rightarrow> nat \<times> nat \<times> nat \<times> nat" where
  "registry_sizes s =
     (length (m_cameras s), length (m_renderables s), length (m_lights s), length (m_terrains s))"

definition terrain_scales :: "RenderSceneImpl \<Rightarrow> (real \<times> real) list" where
  "terrain_scales s = map (\<lambda>t. (m_xz_scale t, m_y_scale t)) (m_terrains s)"

section \<open>Properties of binary32 rounding\<close>

lemma round_even_int [simp]: "round_even (of_int n) = n"
  by (simp add: round_even_def)

lemma round_even_ge: "of_int n \<le> y \<Longrightarrow> n \<le> round_even y"
proof -
  assume "of_int n \<le> y"
  then have "n \<le> \<lfloor>y\<rfloor>" by (simp add: le_floor_iff)
  then show ?thesis by (auto simp: round_even_def Let_def)
qed

lemma round_even_le: "y \<le> of_int n \<Longrightarrow> round_even y \<le> n"
proof -
  assume a: "y \<le> of_int n"
  have f: "\<lfloor>y\<rfloor> \<le> n" by (metis a floor_mono floor_of_int)
  show ?thesis
  proof (cases "\<lfloor>y\<rfloor> = n")
    case True
    then have "y = of_int n" using a by linarith
    then show ?thesis by simp
  next
    case False
    then have "\<lfloor>y\<rfloor> + 1 \<le> n" using f by linarith
    then show ?thesis using f by (auto simp: round_even_def Let_def)
  qed
qed

lemma powr_powi: "0 < x \<Longrightarrow> x powr real_of_int k = x powi k"
  by (simp add: powr_real_of_int power_int_def power_inverse)

lemma floor_log2_eq:
  assumes "2 powi k \<le> x" "x < 2 powi (k + 1)"
  shows "\<lfloor>log 2 x\<rfloor> = k"
proof -
  have "0 < (2::real) powi k" by simp
  then have pos: "0 < x" using assms(1) by linarith
  have a: "2 powr real_of_int k = (2::real) powi k" by (rule powr_powi) simp
  have b: "2 powr real_of_int (k + 1) = (2::real) powi (k + 1)" by (rule powr_powi) simp
  have "2 powr real_of_int k \<le> x \<and> x < 2 powr real_of_int (k + 1)"
    unfolding a b using assms by simp
  then show ?thesis
    using floor_log_eq_powr_iff [of x 2 k] pos by simp
qed

lemma floor_log2_bounds:
  assumes "0 < x"
  shows "2 powi \<lfloor>log 2 x\<rfloor> \<le> x \<and> x < 2 powi (\<lfloor>log 2 x\<rfloor> + 1)"
proof -
  have a: "2 powr real_of_int \<lfloor>log 2 x\<rfloor> = (2::real) powi \<lfloor>log 2 x\<rfloor>" by (rule powr_powi) simp
  have b: "2 powr real_of_int (\<lfloor>log 2 x\<rfloor> + 1) = (2::real) powi (\<lfloor>log 2 x\<rfloor> + 1)"
    by (rule powr_powi) simp
  have "2 powr real_of_int \<lfloor>log 2 x\<rfloor> \<le> x \<and> x < 2 powr real_of_int (\<lfloor>log 2 x\<rfloor> + 1)"
    using floor_log_eq_powr_iff [of x 2 "\<lfloor>log 2 x\<rfloor>"] assms by simp
  then show ?thesis unfolding a b .
qed

lemma exponent32_ge: "- 126 \<le> exponent32 x"
  by (simp add: exponent32_def)

lemma exponent32_upper: "x \<noteq> 0 \<Longrightarrow> \<bar>x\<bar> < 2 powi (exponent32 x + 1)"
proof -
  assume "x \<noteq> 0"
  then have "\<bar>x\<bar> < 2 powi (\<lfloor>log 2 \<bar>x\<bar>\<rfloor> + 1)" using floor_log2_bounds [of "\<bar>x\<bar>"] by simp
  also have "\<dots> \<le> 2 powi (exponent32 x + 1)"
    by (rule power_int_increasing) (simp_all add: exponent32_def)
  finally show ?thesis .
qed

lemma exponent32_lower: "x \<noteq> 0 \<Longrightarrow> - 126 < exponent32 x \<Longrightarrow> 2 powi exponent32 x \<le> \<bar>x\<bar>"
  using floor_log2_bounds [of "\<bar>x\<bar>"] by (simp add: exponent32_def max_def split: if_splits)

lemma exponent32_eq:
  assumes "2 powi k \<le> \<bar>x\<bar>" "\<bar>x\<bar> < 2 powi (k + 1)" "- 126 \<le> k"
  shows "exponent32 x = k"
  using floor_log2_eq [OF assms(1,2)] assms(3) by (simp add: exponent32_def)


lemma on_grid:
  assumes "e \<le> k"
  shows "of_int n * 2 powi k / 2 powi e = (of_int (n * 2 ^ nat (k - e)) :: real)"
proof -
  have "(2::real) powi k = 2 powi (k - e + e)" by simp
  also have "\<dots> = 2 powi (k - e) * 2 powi e" by (rule power_int_add) simp
  finally have a: "(2::real) powi k = 2 powi (k - e) * 2 powi e" .
  have b: "(2::real) powi (k - e) = 2 ^ nat (k - e)" using assms by (simp add: power_int_def)
  show ?thesis by (simp add: a b)
qed

lemma powi_less_exp:
  assumes "(2::real) powi a < 2 powi b"
  shows "a < b"
proof (rule ccontr)
  assume "\<not> a < b"
  then have "(2::real) powi b \<le> 2 powi a" by (intro power_int_increasing) simp_all
  then show False using assms by linarith
qed

lemma mantissa_exponent:
  fixes c :: real
  assumes c: "c = of_int n * 2 powi k" and n: "\<bar>n\<bar> < 2 ^ 24" and lo: "2 powi E \<le> \<bar>c\<bar>"
  shows "E - 23 \<le> k"
proof -
  have "\<bar>c\<bar> = \<bar>real_of_int n\<bar> * 2 powi k" by (simp add: c abs_mult)
  also have "\<dots> < 2 ^ 24 * 2 powi k"
  proof (rule mult_strict_right_mono)
    have "real_of_int \<bar>n\<bar> < real_of_int (2 ^ 24)" using n by (simp only: of_int_less_iff)
    then show "\<bar>real_of_int n\<bar> < 2 ^ 24" by simp
  qed simp
  also have "\<dots> = 2 powi (24 + k)" by (subst power_int_add) simp_all
  finally have "(2::real) powi E < 2 powi (24 + k)" using lo by linarith
  then have "E < 24 + k" by (rule powi_less_exp)
  then show ?thesis by simp
qed

lemma round32_exact:
  fixes x :: real
  assumes x: "x = of_int n * 2 powi k" and n: "\<bar>n\<bar> < 2 ^ 24" and k: "- 149 \<le> k"
    and b: "\<bar>x\<bar> < 2 ^ 128"
  shows "round32 x = Finite x"
proof (cases "x = 0")
  case True
  then show ?thesis by (simp add: round32_def)
next
  case False
  define E where "E = exponent32 x"
  have ek: "E - 23 \<le> k"
  proof (cases "E = - 126")
    case True
    with k show ?thesis by simp
  next
    case False
    then have gt: "- 126 < exponent32 x" using exponent32_ge [of x] by (simp add: E_def)
    have "2 powi E \<le> \<bar>x\<bar>" unfolding E_def by (rule exponent32_lower [OF \<open>x \<noteq> 0\<close> gt])
    then show ?thesis by (rule mantissa_exponent [OF x n])
  qed
  have g: "x / 2 powi (E - 23) = of_int (n * 2 ^ nat (k - (E - 23)))"
    unfolding x by (rule on_grid [OF ek])
  have "2 powi (E - 23) * real_of_int (round_even (x / 2 powi (E - 23))) = x"
    unfolding g round_even_int unfolding g [symmetric] by simp
  then show ?thesis
    using False b by (simp add: round32_def Let_def E_def [symmetric])
qed

lemma representable32_round [simp]: "representable32 c \<Longrightarrow> round32 c = Finite c"
  unfolding representable32_def by (auto intro: round32_exact)

lemma representable32_0 [simp]: "representable32 0"
  unfolding representable32_def by (intro exI [of _ 0]) simp

lemma grid_le:
  fixes c :: real
  assumes g: "c / u = of_int j" and le: "c \<le> x" and u: "0 < u"
  shows "c \<le> u * of_int (round_even (x / u))"
proof -
  have "of_int j \<le> x / u" using le u g [symmetric] by (simp add: divide_right_mono)
  then have "j \<le> round_even (x / u)" by (rule round_even_ge)
  then have "real_of_int j \<le> real_of_int (round_even (x / u))" by simp
  then have "u * real_of_int j \<le> u * real_of_int (round_even (x / u))"
    using u by (simp add: mult_left_mono)
  moreover have "c = u * real_of_int j" using g u by (simp add: field_simps)
  ultimately show ?thesis by simp
qed

lemma round32_ge:
  assumes c: "representable32 c" and le: "c \<le> x"
  shows "round32 x = PInf \<or> (\<exists>r. round32 x = Finite r \<and> c \<le> r)"
proof (cases "x = 0")
  case True
  then show ?thesis using le by (simp add: round32_def)
next
  case False
  define E where "E = exponent32 x"
  define u :: real where "u = 2 powi (E - 23)"
  define r where "r = u * of_int (round_even (x / u))"
  obtain n k where cn: "c = of_int n * 2 powi k" and n: "\<bar>n\<bar> < 2 ^ 24" and k: "- 149 \<le> k"
    and cb: "\<bar>c\<bar> < 2 ^ 128"
    using c unfolding representable32_def by blast
  have u: "0 < u" by (simp add: u_def)
  have grid: "E - 23 \<le> k \<Longrightarrow> c \<le> r"
  proof -
    assume "E - 23 \<le> k"
    then have "c / u = of_int (n * 2 ^ nat (k - (E - 23)))"
      unfolding cn u_def by (rule on_grid)
    then show "c \<le> r" unfolding r_def using le u by (rule grid_le)
  qed
  have cr: "c \<le> r"
  proof (cases "E = - 126")
    case True
    with k show ?thesis by (intro grid) simp
  next
    case False
    then have gt: "- 126 < exponent32 x" using exponent32_ge [of x] by (simp add: E_def)
    have lo: "2 powi E \<le> \<bar>x\<bar>" unfolding E_def by (rule exponent32_lower [OF \<open>x \<noteq> 0\<close> gt])
    show ?thesis
    proof (cases "2 powi E \<le> \<bar>c\<bar>")
      case True
      then have "E - 23 \<le> k" by (rule mantissa_exponent [OF cn n])
      then show ?thesis by (rule grid)
    next
      case small: False
      have xpos: "0 < x"
      proof (rule ccontr)
        assume "\<not> 0 < x"
        then have "\<bar>x\<bar> \<le> \<bar>c\<bar>" using le by linarith
        then show False using lo small by linarith
      qed
      have "(2::real) powi E = 2 powi (E - 23 + 23)" by simp
      also have "\<dots> = 2 powi (E - 23) * 2 powi 23" by (rule power_int_add) simp
      finally have e: "(2::real) powi E = u * 2 ^ 23" by (simp add: u_def)
      have "real_of_int (2 ^ 23) \<le> x / u"
        using lo xpos u e by (simp add: field_simps)
      then have "2 ^ 23 \<le> round_even (x / u)" by (rule round_even_ge)
      then have "real_of_int (2 ^ 23) \<le> real_of_int (round_even (x / u))" by (simp only: of_int_le_iff)
      then have "u * 2 ^ 23 \<le> r" unfolding r_def using u by simp
      then show ?thesis using small e by linarith
    qed
  qed
  show ?thesis
  proof (cases "\<bar>r\<bar> \<ge> 2 ^ 128")
    case True
    have "0 < r" using True cr cb by linarith
    then have "0 < round_even (x / u)" using u by (simp add: r_def zero_less_mult_iff)
    then have "0 < x / u" using round_even_le [of "x / u" 0] by (cases "0 < x / u") auto
    then have "0 < x" using u by (simp add: zero_less_divide_iff)
    then show ?thesis
      using True False by (simp add: round32_def Let_def E_def [symmetric] u_def [symmetric] r_def [symmetric])
  next
    case False
    then show ?thesis
      using \<open>x \<noteq> 0\<close> cr
      by (simp add: round32_def Let_def E_def [symmetric] u_def [symmetric] r_def [symmetric])
  qed
qed

lemma round32_eval:
  assumes "2 powi k \<le> \<bar>x\<bar>" "\<bar>x\<bar> < 2 powi (k + 1)" "- 126 \<le> k"
  shows "round32 x =
     (let u = 2 powi (k - 23); r = u * of_int (round_even (x / u))
      in if \<bar>r\<bar> \<ge> 2 ^ 128 then (if x > 0 then PInf else NInf) else Finite r)"
proof -
  have "0 < (2::real) powi k" by simp
  then have "x \<noteq> 0" using assms(1) by linarith
  then show ?thesis
    by (simp add: round32_def exponent32_eq [OF assms])
qed




lemma representable32I:
  "c = of_int n * 2 powi k \<Longrightarrow> \<bar>n\<bar> < 2 ^ 24 \<Longrightarrow> - 149 \<le> k \<Longrightarrow> \<bar>c\<bar> < 2 ^ 128 \<Longrightarrow> representable32 c"
  unfolding representable32_def by blast

lemma representable32_of_int: "\<bar>n\<bar> < 2 ^ 24 \<Longrightarrow> representable32 (of_int n)"
proof -
  assume n: "\<bar>n\<bar> < 2 ^ 24"
  then have "real_of_int \<bar>n\<bar> < real_of_int (2 ^ 24)" by (simp only: of_int_less_iff)
  then have "\<bar>real_of_int n\<bar> < 2 ^ 128" by simp
  then show ?thesis
    unfolding representable32_def using n by (intro exI [of _ n] exI [of _ 0]) simp
qed

lemma representable32_numeral [simp]:
  "numeral w < (2 ^ 24 :: int) \<Longrightarrow> representable32 (numeral w)"
  "numeral w < (2 ^ 24 :: int) \<Longrightarrow> representable32 (- numeral w)"
  using representable32_of_int [of "numeral w"] representable32_of_int [of "- numeral w"] by simp_all

lemma representable32_1 [simp]: "representable32 1"
  using representable32_of_int [of 1] by simp


lemma is_finite_val: "is_finite a \<Longrightarrow> a = Finite (val a)"
  by (cases a) simp_all


section \<open>Properties of the terrain quad-tree\<close>

subsection \<open>The outer radius\<close>

lemma sqrt_two_squares: "0 \<le> s \<Longrightarrow> sqrt (2 * s * s) = sqrt 2 * s"
  by (simp add: real_sqrt_mult mult.assoc)

lemma getRadiusOuter_pos: "0 < s \<Longrightarrow> 0 < getRadiusOuter s"
  by (simp add: getRadiusOuter_def sqrt_two_squares add_pos_pos)

lemma getRadiusOuter_mono:
  assumes "0 < s1" "s1 \<le> s2"
  shows "getRadiusOuter s1 \<le> getRadiusOuter s2"
proof -
  define a where "a = sqrt 2 * s1"
  define b where "b = sqrt 2 * s2"
  have ab: "0 \<le> a" "a \<le> b" using assms by (simp_all add: a_def b_def)
  have r1: "getRadiusOuter s1 = (if s1 > 17 then 2 else 1) * a + s1 * (1 / 4)"
    using assms by (simp add: getRadiusOuter_def sqrt_two_squares a_def)
  have r2: "getRadiusOuter s2 = (if s2 > 17 then 2 else 1) * b + s2 * (1 / 4)"
    using assms by (simp add: getRadiusOuter_def sqrt_two_squares b_def)
  show ?thesis unfolding r1 r2 using ab assms by (auto split: if_splits)
qed

text \<open>
  C9. For every positive size the outer radius is positive, and the outer radius does not
  decrease when the size grows, also across the switch of the factor at size 17.
\<close>

theorem getRadiusOuter_positive_monotone:
  "(0 < s \<longrightarrow> 0 < getRadiusOuter s) \<and>
   (0 < s1 \<and> s1 \<le> s2 \<longrightarrow> getRadiusOuter s1 \<le> getRadiusOuter s2)"
  using getRadiusOuter_pos getRadiusOuter_mono by blast

theorem getRadiusOuter_positive_monotone_witness:
  "(0::real) < 17 \<and> 0 < getRadiusOuter 17 \<and> (17::real) \<le> 18 \<and>
   getRadiusOuter 17 \<le> getRadiusOuter 18"
  using getRadiusOuter_positive_monotone [of 17 17 18] by simp

subsection \<open>The distance of the camera to a patch\<close>




text \<open>Inside the square no branch of \<^verbatim>\<open>getDistance\<close> is taken: the rounded max corner is
  not below a binary32 coordinate that the exact one is not below.\<close>

lemma not_above_rounded_sum:
  assumes "representable32 c" "c \<le> lo + s"
  shows "\<not> fgt (Finite c) (fadd (Finite lo) (Finite s))"
  using round32_ge [OF assms] by (auto simp: fgt_def)

lemma getDistance_inside:
  assumes f: "finite_quad q" and r: "representable32 cx" "representable32 cz"
    and i: "in_footprint q cx cz"
  shows "getDistance q \<lparr>x32 = Finite cx, y32 = cy, z32 = Finite cz\<rparr> = Finite 0"
proof -
  from f have m: "x32 (m_min q) = Finite (val (x32 (m_min q)))"
    "z32 (m_min q) = Finite (val (z32 (m_min q)))" "m_size q = Finite (val (m_size q))"
    by (simp_all add: finite_quad_def is_finite_val)
  from i have lo: "\<not> cx < val (x32 (m_min q))" "\<not> cz < val (z32 (m_min q))"
    and hi: "cx \<le> val (x32 (m_min q)) + val (m_size q)" "cz \<le> val (z32 (m_min q)) + val (m_size q)"
    by (simp_all add: in_footprint_def)
  have x: "\<not> fgt (Finite cx) (fadd (x32 (m_min q)) (m_size q))"
    by (subst m(1), subst m(3)) (rule not_above_rounded_sum [OF r(1) hi(1)])
  have z: "\<not> fgt (Finite cz) (fadd (z32 (m_min q)) (m_size q))"
    by (subst m(2), subst m(3)) (rule not_above_rounded_sum [OF r(2) hi(2)])
  have x0: "\<not> flt (Finite cx) (x32 (m_min q))" by (subst m(1)) (simp add: lo)
  have z0: "\<not> flt (Finite cz) (z32 (m_min q))" by (subst m(2)) (simp add: lo)
  show ?thesis
    by (simp add: getDistance_def Let_def x z x0 z0 round32_def)
qed







subsection \<open>The structure of the generated tree\<close>

declare createChildren.simps [simp del]

lemma createChildren_fields:
  "m_min (createChildren q) = m_min q" "m_size (createChildren q) = m_size q"
  "m_lod (createChildren q) = m_lod q"
  by (cases q; simp add: createChildren.simps)+

lemma createChildren_leaf:
  "\<not> (lod < 8 \<and> fgt sz (Finite 16)) \<Longrightarrow>
   createChildren (new_TerrainQuad mn sz lod) = new_TerrainQuad mn sz lod"
  unfolding new_TerrainQuad_def by (subst createChildren.simps) (simp only: if_False)

lemma createChildren_inner:
  "lod < 8 \<Longrightarrow> fgt sz (Finite 16) \<Longrightarrow> createChildren (new_TerrainQuad mn sz lod) =
     TerrainQuad
       [Some (createChildren (new_TerrainQuad (child_min mn sz 0) (fdiv sz (Finite 2)) (lod + 1))),
        Some (createChildren (new_TerrainQuad (child_min mn sz 1) (fdiv sz (Finite 2)) (lod + 1))),
        Some (createChildren (new_TerrainQuad (child_min mn sz 2) (fdiv sz (Finite 2)) (lod + 1))),
        Some (createChildren (new_TerrainQuad (child_min mn sz 3) (fdiv sz (Finite 2)) (lod + 1)))]
       mn sz lod"
  unfolding new_TerrainQuad_def
  by (subst createChildren.simps) (simp add: CHILD_COUNT_def upt_rec new_TerrainQuad_def eval_nat_numeral)

lemma halves_cover:
  "in_square mn sz px pz \<longleftrightarrow>
     in_square (quadrant_min mn sz 0) (sz / 2) px pz \<or> in_square (quadrant_min mn sz 1) (sz / 2) px pz \<or>
     in_square (quadrant_min mn sz 2) (sz / 2) px pz \<or> in_square (quadrant_min mn sz 3) (sz / 2) px pz"
  unfolding in_square_def quadrant_min_def TOP_LEFT_def TOP_RIGHT_def BOTTOM_LEFT_def
  by (simp; argo)

lemma halves_disjoint:
  "\<not> (in_square (quadrant_min mn sz 0) (sz / 2) px pz \<and> in_square (quadrant_min mn sz 1) (sz / 2) px pz)"
  "\<not> (in_square (quadrant_min mn sz 0) (sz / 2) px pz \<and> in_square (quadrant_min mn sz 2) (sz / 2) px pz)"
  "\<not> (in_square (quadrant_min mn sz 0) (sz / 2) px pz \<and> in_square (quadrant_min mn sz 3) (sz / 2) px pz)"
  "\<not> (in_square (quadrant_min mn sz 1) (sz / 2) px pz \<and> in_square (quadrant_min mn sz 2) (sz / 2) px pz)"
  "\<not> (in_square (quadrant_min mn sz 1) (sz / 2) px pz \<and> in_square (quadrant_min mn sz 3) (sz / 2) px pz)"
  "\<not> (in_square (quadrant_min mn sz 2) (sz / 2) px pz \<and> in_square (quadrant_min mn sz 3) (sz / 2) px pz)"
  unfolding in_square_def quadrant_min_def TOP_LEFT_def TOP_RIGHT_def BOTTOM_LEFT_def
  by (simp; argo)+

lemma quadrant_min_xz:
  "vx (quadrant_min mn sz 0) = vx mn" "vz (quadrant_min mn sz 0) = vz mn"
  "vx (quadrant_min mn sz 1) = vx mn + sz / 2" "vz (quadrant_min mn sz 1) = vz mn"
  "vx (quadrant_min mn sz 2) = vx mn" "vz (quadrant_min mn sz 2) = vz mn + sz / 2"
  "vx (quadrant_min mn sz 3) = vx mn + sz / 2" "vz (quadrant_min mn sz 3) = vz mn + sz / 2"
  "vx (quadrant_min mn sz (Suc 0)) = vx mn + sz / 2" "vz (quadrant_min mn sz (Suc 0)) = vz mn"
  by (simp_all add: quadrant_min_def TOP_LEFT_def TOP_RIGHT_def BOTTOM_LEFT_def)

lemma in_square_xz:
  "vx a = vx b \<Longrightarrow> vz a = vz b \<Longrightarrow> in_square a s px pz = in_square b s px pz"
  by (simp add: in_square_def)

text \<open>A multiple of a power of two with a significand of at most 24 bits is a binary32
  value, as long as the exponent stays in range.\<close>

lemma round32_nat_exact:
  assumes "n < 2 ^ 24" "- 149 \<le> j" "j \<le> 100"
  shows "round32 (real n * 2 powi j) = Finite (real n * 2 powi j)"
proof (rule round32_exact [where n = "int n" and k = j])
  show "real n * 2 powi j = real_of_int (int n) * 2 powi j" by simp
  show "\<bar>int n\<bar> < 2 ^ 24" using assms(1) by simp
  show "- 149 \<le> j" by fact
  have n: "real n < 2 ^ 24" using assms(1) by (metis of_nat_less_iff of_nat_numeral of_nat_power)
  have j: "(2::real) powi j \<le> 2 powi 100" by (rule power_int_increasing) (use assms(3) in simp_all)
  have "real n * 2 powi j < 2 ^ 24 * 2 powi j" using n by (rule mult_strict_right_mono) simp
  also have "\<dots> \<le> 2 ^ 24 * 2 powi 100" using j by (rule mult_left_mono) simp
  also have "\<dots> < 2 ^ 128" by simp
  finally show "\<bar>real n * 2 powi j\<bar> < 2 ^ 128" by (simp add: abs_mult)
qed

lemma powi_half: "(2::real) powi k / 2 = 2 powi (k - 1)"
  by (simp add: power_int_diff)

text \<open>The children of a node on the grid of an exact size: with the corner at \<open>(a, b)\<close> times
  the size \<open>s = m \<times> 2\<^sup>k\<close>, the half and the corners of the children are exact.\<close>

lemma half_exact:
  assumes "127 * m < 2 ^ 24" "- 148 \<le> k" "k \<le> 100"
  shows "fdiv (Finite (real m * 2 powi k)) (Finite 2) = Finite (real m * 2 powi (k - 1))"
proof -
  have e: "real m * 2 powi k / 2 = real m * 2 powi (k - 1)"
    unfolding powi_half [symmetric] by simp
  have m: "m < 2 ^ 24" using assms(1) by simp
  have "fdiv (Finite (real m * 2 powi k)) (Finite 2) = round32 (real m * 2 powi k / 2)" by simp
  also have "\<dots> = round32 (real m * 2 powi (k - 1))" by (simp only: e)
  also have "\<dots> = Finite (real m * 2 powi (k - 1))"
    using m assms(2,3) by (intro round32_nat_exact) simp_all
  finally show ?thesis .
qed

lemma corner_exact:
  assumes "127 * m < 2 ^ 24" "a < 2 ^ 6" "- 148 \<le> k" "k \<le> 100"
  shows "fadd (Finite (real a * (real m * 2 powi k))) (Finite (real m * 2 powi (k - 1)))
         = Finite (real (2 * a + 1) * (real m * 2 powi (k - 1)))"
proof -
  have k: "(2::real) powi k = 2 * 2 powi (k - 1)" using powi_half [of k] by simp
  have e: "real a * (real m * 2 powi k) + real m * 2 powi (k - 1)
           = real ((2 * a + 1) * m) * 2 powi (k - 1)"
    unfolding k by (simp add: algebra_simps)
  have "2 * a + 1 \<le> 127" using assms(2) by simp
  then have "(2 * a + 1) * m \<le> 127 * m" by (rule mult_right_mono) simp
  also have "\<dots> < 2 ^ 24" by (rule assms(1))
  finally have "(2 * a + 1) * m < 2 ^ 24" .
  then have "round32 (real ((2 * a + 1) * m) * 2 powi (k - 1))
             = Finite (real ((2 * a + 1) * m) * 2 powi (k - 1))"
    using assms(3,4) by (intro round32_nat_exact) simp_all
  then show ?thesis unfolding fadd.simps e by (simp add: algebra_simps)
qed

lemma quad_invariant_leaf:
  "\<not> (lod < 8 \<and> s > 16) \<Longrightarrow> lod \<le> 8 \<Longrightarrow> is_finite (x32 mn) \<Longrightarrow> is_finite (z32 mn) \<Longrightarrow>
   quad_invariant (new_TerrainQuad mn (Finite s) lod)"
  by (auto simp: quad_invariant_def new_TerrainQuad_def has_children_def finite_quad_def)

lemma nodes_leaf: "nodes (new_TerrainQuad mn sz lod) = [new_TerrainQuad mn sz lod]"
  by (simp add: new_TerrainQuad_def CHILD_COUNT_def)

lemma quad_invariant_children:
  assumes c: "\<And>i. i < 4 \<Longrightarrow> finite_quad (cs i) \<and> val (m_size (cs i)) = s / 2 \<and> m_lod (cs i) = lod + 1 \<and>
                 vx (vec_val (m_min (cs i))) = vx (quadrant_min (vec_val mn) s i) \<and>
                 vz (vec_val (m_min (cs i))) = vz (quadrant_min (vec_val mn) s i)"
    and f: "is_finite (x32 mn)" "is_finite (z32 mn)" and l: "lod < 8" "s > 16"
  shows "quad_invariant (TerrainQuad [Some (cs 0), Some (cs 1), Some (cs 2), Some (cs 3)] mn (Finite s) lod)"
proof -
  let ?q = "TerrainQuad [Some (cs 0), Some (cs 1), Some (cs 2), Some (cs 3)] mn (Finite s) lod"
  have h: "has_children ?q" by (simp add: has_children_def)
  have c0: "finite_quad (cs 0)" "val (m_size (cs 0)) = s / 2" "m_lod (cs 0) = lod + 1"
    "val (x32 (m_min (cs 0))) = val (x32 mn)" "val (z32 (m_min (cs 0))) = val (z32 mn)"
    using c [of 0] by (simp_all add: vec_val_def quadrant_min_xz)
  have c1: "finite_quad (cs 1)" "val (m_size (cs 1)) = s / 2" "m_lod (cs 1) = lod + 1"
    "val (x32 (m_min (cs 1))) = val (x32 mn) + s / 2" "val (z32 (m_min (cs 1))) = val (z32 mn)"
    using c [of 1] by (simp_all add: vec_val_def quadrant_min_xz)
  have c2: "finite_quad (cs 2)" "val (m_size (cs 2)) = s / 2" "m_lod (cs 2) = lod + 1"
    "val (x32 (m_min (cs 2))) = val (x32 mn)" "val (z32 (m_min (cs 2))) = val (z32 mn) + s / 2"
    using c [of 2] by (simp_all add: vec_val_def quadrant_min_xz)
  have c3: "finite_quad (cs 3)" "val (m_size (cs 3)) = s / 2" "m_lod (cs 3) = lod + 1"
    "val (x32 (m_min (cs 3))) = val (x32 mn) + s / 2" "val (z32 (m_min (cs 3))) = val (z32 mn) + s / 2"
    using c [of 3] by (simp_all add: vec_val_def quadrant_min_xz)
  have ca: "child_at ?q TOP_LEFT (val (x32 mn)) (val (z32 mn)) (cs 0)"
    "child_at ?q TOP_RIGHT (val (x32 mn) + s / 2) (val (z32 mn)) (cs 1)"
    "child_at ?q BOTTOM_LEFT (val (x32 mn)) (val (z32 mn) + s / 2) (cs 2)"
    "child_at ?q BOTTOM_RIGHT (val (x32 mn) + s / 2) (val (z32 mn) + s / 2) (cs 3)"
    using c0 c1 c2 c3
    by (simp_all add: child_at_def TOP_LEFT_def TOP_RIGHT_def BOTTOM_LEFT_def BOTTOM_RIGHT_def)
  have sq: "quad_square (cs i) px pz = in_square (quadrant_min (vec_val mn) s i) (s / 2) px pz"
    if "i < 4" for i px pz
  proof -
    from c [OF that] have e: "val (m_size (cs i)) = s / 2"
      "vx (vec_val (m_min (cs i))) = vx (quadrant_min (vec_val mn) s i)"
      "vz (vec_val (m_min (cs i))) = vz (quadrant_min (vec_val mn) s i)" by simp_all
    show ?thesis unfolding quad_square_def e(1) using e(2,3) by (rule in_square_xz)
  qed
  have s0: "quad_square (cs 0) px pz = in_square (quadrant_min (vec_val mn) s 0) (s / 2) px pz" for px pz
    by (rule sq) simp
  have s1: "quad_square (cs 1) px pz = in_square (quadrant_min (vec_val mn) s 1) (s / 2) px pz" for px pz
    by (rule sq) simp
  have s2: "quad_square (cs 2) px pz = in_square (quadrant_min (vec_val mn) s 2) (s / 2) px pz" for px pz
    by (rule sq) simp
  have s3: "quad_square (cs 3) px pz = in_square (quadrant_min (vec_val mn) s 3) (s / 2) px pz" for px pz
    by (rule sq) simp
  have sp: "quad_square ?q px pz = in_square (vec_val mn) s px pz" for px pz
    by (simp add: quad_square_def)
  have p: "partitions ?q (cs 0) (cs 1) (cs 2) (cs 3)"
    unfolding partitions_def s0 s1 s2 s3 sp
    using halves_cover [of "vec_val mn" s] halves_disjoint [of "vec_val mn" s] by blast
  have "quadrant_children ?q (cs 0) (cs 1) (cs 2) (cs 3)"
    unfolding quadrant_children_def using ca p by simp
  then have "\<exists>q_tl q_tr q_bl q_br. quadrant_children ?q q_tl q_tr q_bl q_br" by blast
  then show ?thesis
    unfolding quad_invariant_def using f l h by (simp add: CHILD_COUNT_def finite_quad_def)
qed

lemma on_grid32_finite: "on_grid32 m k n c \<Longrightarrow> is_finite c"
  by (auto simp: on_grid32_def)

lemma on_grid32_left: "on_grid32 m k n c \<Longrightarrow> on_grid32 m (k - 1) (2 * n) c"
proof -
  assume "on_grid32 m k n c"
  then obtain a where a: "a < n" "c = Finite (real a * (real m * 2 powi k))"
    unfolding on_grid32_def by blast
  have k: "(2::real) powi k = 2 * 2 powi (k - 1)" using powi_half [of k] by simp
  have "c = Finite (real (2 * a) * (real m * 2 powi (k - 1)))" unfolding a(2) k by simp
  moreover have "2 * a < 2 * n" using a(1) by simp
  ultimately show ?thesis unfolding on_grid32_def by blast
qed

lemma on_grid32_right:
  assumes "127 * m < 2 ^ 24" "n \<le> 2 ^ 6" "- 148 \<le> k" "k \<le> 100" "on_grid32 m k n c"
  shows "on_grid32 m (k - 1) (2 * n) (fadd c (fdiv (Finite (real m * 2 powi k)) (Finite 2))) \<and>
         val (fadd c (fdiv (Finite (real m * 2 powi k)) (Finite 2))) = val c + real m * 2 powi k / 2"
proof -
  from assms(5) obtain a where a: "a < n" "c = Finite (real a * (real m * 2 powi k))"
    unfolding on_grid32_def by blast
  have a6: "a < 2 ^ 6" using a(1) assms(2) by simp
  have k: "(2::real) powi k = 2 * 2 powi (k - 1)" using powi_half [of k] by simp
  have e: "fadd c (fdiv (Finite (real m * 2 powi k)) (Finite 2))
           = Finite (real (2 * a + 1) * (real m * 2 powi (k - 1)))"
    unfolding a(2) half_exact [OF assms(1,3,4)] by (rule corner_exact [OF assms(1) a6 assms(3,4)])
  have "2 * a + 1 < 2 * n" using a(1) by simp
  then have g: "on_grid32 m (k - 1) (2 * n) (Finite (real (2 * a + 1) * (real m * 2 powi (k - 1))))"
    unfolding on_grid32_def by blast
  have v: "real (2 * a + 1) * (real m * 2 powi (k - 1)) = val c + real m * 2 powi k / 2"
    unfolding a(2) k by (simp add: algebra_simps)
  show ?thesis unfolding e using g v by simp
qed

lemma child_min_grid:
  assumes c: "127 * m < 2 ^ 24" "n \<le> 2 ^ 6" "- 148 \<le> k" "k \<le> 100"
    and x: "on_grid32 m k n (x32 mn)" and z: "on_grid32 m k n (z32 mn)" and i: "i < 4"
  shows "on_grid32 m (k - 1) (2 * n) (x32 (child_min mn (Finite (real m * 2 powi k)) i)) \<and>
         on_grid32 m (k - 1) (2 * n) (z32 (child_min mn (Finite (real m * 2 powi k)) i)) \<and>
         vx (vec_val (child_min mn (Finite (real m * 2 powi k)) i))
           = vx (quadrant_min (vec_val mn) (real m * 2 powi k) i) \<and>
         vz (vec_val (child_min mn (Finite (real m * 2 powi k)) i))
           = vz (quadrant_min (vec_val mn) (real m * 2 powi k) i)"
proof -
  note xl = on_grid32_left [OF x] and zl = on_grid32_left [OF z]
  note xr = on_grid32_right [OF c x] and zr = on_grid32_right [OF c z]
  from i consider "i = 0" | "i = 1" | "i = 2" | "i = 3" by linarith
  then show ?thesis
  proof cases
    case 1
    then show ?thesis using xl zl
      by (simp add: child_min_def quadrant_min_def vec_val_def TOP_LEFT_def)
  next
    case 2
    then show ?thesis using xr zl
      by (simp add: child_min_def quadrant_min_def vec_val_def TOP_LEFT_def TOP_RIGHT_def)
  next
    case 3
    then show ?thesis using xl zr
      by (simp add: child_min_def quadrant_min_def vec_val_def TOP_LEFT_def TOP_RIGHT_def BOTTOM_LEFT_def)
  next
    case 4
    then show ?thesis using xr zr
      by (simp add: child_min_def quadrant_min_def vec_val_def TOP_LEFT_def TOP_RIGHT_def BOTTOM_LEFT_def)
  qed
qed

lemma new_TerrainQuad_sel [simp]:
  "m_min (new_TerrainQuad mn sz lod) = mn" "m_size (new_TerrainQuad mn sz lod) = sz"
  "m_lod (new_TerrainQuad mn sz lod) = lod"
  by (simp_all add: new_TerrainQuad_def)

lemma nodes_four:
  "q \<in> set (nodes (TerrainQuad [Some c0, Some c1, Some c2, Some c3] mn sz lod)) \<longleftrightarrow>
     q = TerrainQuad [Some c0, Some c1, Some c2, Some c3] mn sz lod \<or>
     q \<in> set (nodes c0) \<or> q \<in> set (nodes c1) \<or> q \<in> set (nodes c2) \<or> q \<in> set (nodes c3)"
  by auto

lemma exact_nodes_invariant:
  assumes m: "127 * m < 2 ^ 24"
  shows "1 \<le> lod \<Longrightarrow> lod \<le> 8 \<Longrightarrow> n = 2 ^ nat (lod - 1) \<Longrightarrow> - 99 \<le> k + lod \<Longrightarrow> k \<le> 100 \<Longrightarrow>
         on_grid32 m k n (x32 mn) \<Longrightarrow> on_grid32 m k n (z32 mn) \<Longrightarrow>
         q \<in> set (nodes (createChildren (new_TerrainQuad mn (Finite (real m * 2 powi k)) lod))) \<Longrightarrow>
         quad_invariant q"
proof (induction "nat (8 - lod)" arbitrary: lod n k mn q)
  case 0
  then have leaf: "\<not> (lod < 8 \<and> fgt (Finite (real m * 2 powi k)) (Finite 16))" by simp
  have l: "\<not> (lod < 8 \<and> real m * 2 powi k > 16)" using 0 by simp
  from 0(9) have "q = new_TerrainQuad mn (Finite (real m * 2 powi k)) lod"
    unfolding createChildren_leaf [OF leaf] nodes_leaf by simp
  then show ?case
    using l 0(3) on_grid32_finite [OF 0(7)] on_grid32_finite [OF 0(8)]
    by (simp add: quad_invariant_leaf)
next
  case (Suc j)
  let ?s = "real m * 2 powi k"
  have fin: "is_finite (x32 mn)" "is_finite (z32 mn)"
    using on_grid32_finite Suc.prems(6,7) by blast+
  show ?case
  proof (cases "lod < 8 \<and> ?s > 16")
    case False
    then have leaf: "\<not> (lod < 8 \<and> fgt (Finite ?s) (Finite 16))" by (simp add: fgt_def)
    from Suc.prems(8) have "q = new_TerrainQuad mn (Finite ?s) lod"
      unfolding createChildren_leaf [OF leaf] nodes_leaf by simp
    then show ?thesis using False Suc.prems(2) fin by (simp add: quad_invariant_leaf)
  next
    case True
    then have lod: "lod < 8" and big: "?s > 16" and fg: "fgt (Finite ?s) (Finite 16)"
      by (simp_all add: fgt_def)
    have k: "- 148 \<le> k" using Suc.prems(2,4) by linarith
    have n: "n \<le> 2 ^ 6"
    proof -
      have "nat (lod - 1) \<le> 6" using lod by simp
      then have "(2::nat) ^ nat (lod - 1) \<le> 2 ^ 6" by (rule power_increasing) simp
      then show ?thesis using Suc.prems(3) by simp
    qed
    note c = m n k Suc.prems(5)
    note h = half_exact [OF m k Suc.prems(5)]
    let ?c = "\<lambda>i. createChildren (new_TerrainQuad (child_min mn (Finite ?s) i)
                                      (Finite (real m * 2 powi (k - 1))) (lod + 1))"
    have q: "createChildren (new_TerrainQuad mn (Finite ?s) lod)
             = TerrainQuad [Some (?c 0), Some (?c 1), Some (?c 2), Some (?c 3)] mn (Finite ?s) lod"
      using createChildren_inner [OF lod fg, of mn] unfolding h .
    have g: "on_grid32 m (k - 1) (2 * n) (x32 (child_min mn (Finite ?s) i)) \<and>
         on_grid32 m (k - 1) (2 * n) (z32 (child_min mn (Finite ?s) i)) \<and>
         vx (vec_val (child_min mn (Finite ?s) i)) = vx (quadrant_min (vec_val mn) ?s i) \<and>
         vz (vec_val (child_min mn (Finite ?s) i)) = vz (quadrant_min (vec_val mn) ?s i)"
      if "i < 4" for i
      using child_min_grid [OF c Suc.prems(6,7) that] .
    have sub: "quad_invariant q" if "q \<in> set (nodes (?c i))" "i < 4" for i
    proof (rule Suc.hyps(1) [of "lod + 1" "2 * n" "k - 1" "child_min mn (Finite ?s) i"])
      show "j = nat (8 - (lod + 1))" using Suc.hyps(2) by linarith
      show "1 \<le> lod + 1" using Suc.prems(1) by simp
      show "lod + 1 \<le> 8" using lod by simp
      have "nat (lod + 1 - 1) = Suc (nat (lod - 1))" using Suc.prems(1) by simp
      then show "2 * n = 2 ^ nat (lod + 1 - 1)" using Suc.prems(3) by simp
      show "- 99 \<le> k - 1 + (lod + 1)" using Suc.prems(4) by simp
      show "k - 1 \<le> 100" using Suc.prems(5) by simp
      show "on_grid32 m (k - 1) (2 * n) (x32 (child_min mn (Finite ?s) i))" using g [OF that(2)] by simp
      show "on_grid32 m (k - 1) (2 * n) (z32 (child_min mn (Finite ?s) i))" using g [OF that(2)] by simp
      show "q \<in> set (nodes (?c i))" by fact
    qed
    have root: "quad_invariant (TerrainQuad [Some (?c 0), Some (?c 1), Some (?c 2), Some (?c 3)] mn (Finite ?s) lod)"
    proof (rule quad_invariant_children [of ?c ?s lod mn])
      fix i :: nat assume i: "i < 4"
      have "finite_quad (?c i)"
        using g [OF i] on_grid32_finite by (simp add: finite_quad_def createChildren_fields) blast
      moreover have "val (m_size (?c i)) = ?s / 2"
        using powi_half [of k] by (simp add: createChildren_fields)
      ultimately show "finite_quad (?c i) \<and> val (m_size (?c i)) = ?s / 2 \<and> m_lod (?c i) = lod + 1 \<and>
           vx (vec_val (m_min (?c i))) = vx (quadrant_min (vec_val mn) ?s i) \<and>
           vz (vec_val (m_min (?c i))) = vz (quadrant_min (vec_val mn) ?s i)"
        using g [OF i] by (simp add: createChildren_fields)
    qed (use fin lod big in simp_all)
    from Suc.prems(8) show ?thesis
      unfolding q nodes_four using root sub by auto
  qed
qed

lemma generateQuadTree_root:
  "m_lod (generateQuadTree sz) = 1"
  "m_min (generateQuadTree sz) = \<lparr>x32 = Finite 0, y32 = Finite 0, z32 = Finite 0\<rparr>"
  "m_size (generateQuadTree sz) = sz"
  by (simp_all add: generateQuadTree_def createChildren_fields)

lemma generateQuadTree_nodes:
  assumes "exact_size sz" "n \<in> set (nodes (generateQuadTree sz))"
  shows "quad_invariant n"
proof -
  from assms(1) obtain m e where sz: "sz = Finite (real m * 2 powi e)" and m: "127 * m < 2 ^ 24"
    and e: "- 100 \<le> e" "e \<le> 100"
    unfolding exact_size_def by blast
  have g: "on_grid32 m e 1 (Finite 0)" by (simp add: on_grid32_def)
  show ?thesis
  proof (rule exact_nodes_invariant [OF m, of 1 1 e "\<lparr>x32 = Finite 0, y32 = Finite 0, z32 = Finite 0\<rparr>"])
    show "n \<in> set (nodes (createChildren (new_TerrainQuad \<lparr>x32 = Finite 0, y32 = Finite 0, z32 = Finite 0\<rparr>
                 (Finite (real m * 2 powi e)) 1)))"
      using assms(2) unfolding generateQuadTree_def sz .
  qed (use e g in simp_all)
qed



lemma exact_size_nat: "127 * n < 2 ^ 24 \<Longrightarrow> exact_size (Finite (real n))"
  unfolding exact_size_def by (intro exI [of _ n] exI [of _ 0]) simp


text \<open>
  The claim as stated fails where a corner rounds. For a texture 16777215 wide, the top-right
  child of the root has its corner at 8388607.5 and the size 8388607.5; the corner of its own
  top-right child is the sum \<open>8388607.5 + 4194303.75 = 12582911.25\<close>, which needs 26 bits and
  is stored as 12582911: that child overlaps its left neighbour, and the four children do not
  partition the square.
\<close>

lemma round32_wide_2: "round32 (16777215 / 2) = Finite (16777215 / 2)"
  by (subst round32_eval [where k = 22]) (simp_all add: round_even_def Let_def)

lemma round32_wide_4: "round32 (16777215 / 4) = Finite (16777215 / 4)"
  by (subst round32_eval [where k = 21]) (simp_all add: round_even_def Let_def)





subsection \<open>Coverage of the rendered quadrants\<close>

lemma draw_covers_quadrant:
  "draw_covers (draw_quadrant terrain_mesh_count mn sz 0) px pz
     = in_square (quadrant_min (vec_val mn) (val sz) 0) (val sz / 2) px pz"
  "draw_covers (draw_quadrant terrain_mesh_count mn sz 1) px pz
     = in_square (quadrant_min (vec_val mn) (val sz) 1) (val sz / 2) px pz"
  "draw_covers (draw_quadrant terrain_mesh_count mn sz 2) px pz
     = in_square (quadrant_min (vec_val mn) (val sz) 2) (val sz / 2) px pz"
  "draw_covers (draw_quadrant terrain_mesh_count mn sz 3) px pz
     = in_square (quadrant_min (vec_val mn) (val sz) 3) (val sz / 2) px pz"
  by (simp_all add: draw_covers_def draw_quadrant_def terrain_mesh_count_def GRID_SIZE_def
      subgrid_start_def in_square_def quadrant_min_def vec_val_def TOP_LEFT_def TOP_RIGHT_def
      BOTTOM_LEFT_def add.commute)

lemma times_covered_simps:
  "times_covered [] px pz = 0"
  "times_covered [d] px pz = (if draw_covers d px pz then 1 else 0)"
  "times_covered (xs @ ys) px pz = times_covered xs px pz + times_covered ys px pz"
  by (simp_all add: times_covered_def)

lemma render_four:
  "render getCount (TerrainQuad [a0, a1, a2, a3] mn sz lod) cam =
     (if fgt (getDistance (TerrainQuad [a0, a1, a2, a3] mn sz lod) cam) (getRadiusOuter_f32 sz) \<and> lod > 1
      then (False, [])
      else (True, render_child getCount mn sz cam 0 a0 @ render_child getCount mn sz cam 1 a1 @
                  render_child getCount mn sz cam 2 a2 @ render_child getCount mn sz cam 3 a3))"
  by (simp add: CHILD_COUNT_def upt_rec render_child_def Let_def eval_nat_numeral)

lemma render_child_covered:
  assumes "child = None \<or>
           (\<exists>c. child = Some c \<and> val (m_size c) = val sz / 2 \<and>
                vx (vec_val (m_min c)) = vx (quadrant_min (vec_val mn) (val sz) i) \<and>
                vz (vec_val (m_min c)) = vz (quadrant_min (vec_val mn) (val sz) i) \<and>
                covers_exactly (render terrain_mesh_count c cam) (vec_val (m_min c)) (val (m_size c)))"
    and "draw_covers (draw_quadrant terrain_mesh_count mn sz i) px pz
           = in_square (quadrant_min (vec_val mn) (val sz) i) (val sz / 2) px pz"
  shows "times_covered (render_child terrain_mesh_count mn sz cam i child) px pz
           = (if in_square (quadrant_min (vec_val mn) (val sz) i) (val sz / 2) px pz then 1 else 0)"
proof (cases child)
  case None
  then show ?thesis using assms(2) by (simp add: render_child_def times_covered_simps)
next
  case (Some c)
  with assms(1) have c: "val (m_size c) = val sz / 2"
    "vx (vec_val (m_min c)) = vx (quadrant_min (vec_val mn) (val sz) i)"
    "vz (vec_val (m_min c)) = vz (quadrant_min (vec_val mn) (val sz) i)"
    "covers_exactly (render terrain_mesh_count c cam) (vec_val (m_min c)) (val (m_size c))" by auto
  have sq: "in_square (vec_val (m_min c)) (val (m_size c)) px pz
              = in_square (quadrant_min (vec_val mn) (val sz) i) (val sz / 2) px pz"
    unfolding c(1) using c(2,3) by (rule in_square_xz)
  obtain drawn ds where r: "render terrain_mesh_count c cam = (drawn, ds)" by (cases "render terrain_mesh_count c cam")
  show ?thesis
  proof (cases drawn)
    case True
    with c(4) r sq show ?thesis
      by (simp add: render_child_def Some covers_exactly_def)
  next
    case False
    with c(4) r have "ds = []" by (simp add: covers_exactly_def)
    with False r assms(2) show ?thesis
      by (simp add: render_child_def Some times_covered_simps)
  qed
qed

lemma four_indicators:
  fixes a b c d :: bool
  assumes "p \<longleftrightarrow> a \<or> b \<or> c \<or> d"
    and "\<not> (a \<and> b)" "\<not> (a \<and> c)" "\<not> (a \<and> d)" "\<not> (b \<and> c)" "\<not> (b \<and> d)" "\<not> (c \<and> d)"
  shows "(if a then 1 else 0) + (if b then 1 else 0) + (if c then 1 else 0) + (if d then 1 else 0)
         = (if p then 1 else (0::nat))"
  using assms by auto

lemma nodes_child:
  "Some c \<in> set cs \<Longrightarrow> n \<in> set (nodes c) \<Longrightarrow> n \<in> set (nodes (TerrainQuad cs mn sz lod))"
  by force

lemma length_four: "length xs = 4 \<Longrightarrow> \<exists>a0 a1 a2 a3. xs = [a0, a1, a2, a3]"
  by (auto simp: length_Suc_conv eval_nat_numeral)

lemma render_covers_exactly:
  "(\<forall>n \<in> set (nodes q). quad_invariant n) \<Longrightarrow>
   covers_exactly (render terrain_mesh_count q cam) (vec_val (m_min q)) (val (m_size q))"
proof (induction q)
  case (TerrainQuad cs mn sz lod)
  let ?q = "TerrainQuad cs mn sz lod"
  let ?ok = "\<lambda>i child. child = None \<or>
           (\<exists>c. child = Some c \<and> val (m_size c) = val sz / 2 \<and>
                vx (vec_val (m_min c)) = vx (quadrant_min (vec_val mn) (val sz) i) \<and>
                vz (vec_val (m_min c)) = vz (quadrant_min (vec_val mn) (val sz) i) \<and>
                covers_exactly (render terrain_mesh_count c cam) (vec_val (m_min c)) (val (m_size c)))"
  have inv: "quad_invariant ?q" using TerrainQuad.prems by simp
  have sub: "covers_exactly (render terrain_mesh_count c cam) (vec_val (m_min c)) (val (m_size c))"
    if "Some c \<in> set cs" for c
  proof -
    have "\<forall>n \<in> set (nodes c). quad_invariant n"
      using TerrainQuad.prems nodes_child [OF that] by blast
    with TerrainQuad.IH [OF that] show ?thesis by simp
  qed
  from inv have "length cs = 4" by (simp add: quad_invariant_def CHILD_COUNT_def)
  then obtain a0 a1 a2 a3 where cs: "cs = [a0, a1, a2, a3]" using length_four by blast
  have ok: "?ok 0 a0 \<and> ?ok 1 a1 \<and> ?ok 2 a2 \<and> ?ok 3 a3"
  proof (cases "has_children ?q")
    case False
    then show ?thesis by (simp add: has_children_def cs)
  next
    case True
    with inv obtain q_tl q_tr q_bl q_br where "quadrant_children ?q q_tl q_tr q_bl q_br"
      unfolding quad_invariant_def by blast
    then have ch: "a0 = Some q_tl" "a1 = Some q_tr" "a2 = Some q_bl" "a3 = Some q_br"
      and sz: "val (m_size q_tl) = val sz / 2" "val (m_size q_tr) = val sz / 2"
        "val (m_size q_bl) = val sz / 2" "val (m_size q_br) = val sz / 2"
      and xz: "val (x32 (m_min q_tl)) = val (x32 mn)" "val (z32 (m_min q_tl)) = val (z32 mn)"
        "val (x32 (m_min q_tr)) = val (x32 mn) + val sz / 2" "val (z32 (m_min q_tr)) = val (z32 mn)"
        "val (x32 (m_min q_bl)) = val (x32 mn)" "val (z32 (m_min q_bl)) = val (z32 mn) + val sz / 2"
        "val (x32 (m_min q_br)) = val (x32 mn) + val sz / 2"
        "val (z32 (m_min q_br)) = val (z32 mn) + val sz / 2"
      by (simp_all add: quadrant_children_def child_at_def cs TOP_LEFT_def TOP_RIGHT_def
          BOTTOM_LEFT_def BOTTOM_RIGHT_def eval_nat_numeral)
    have vv: "vx (vec_val (m_min q_tl)) = vx (quadrant_min (vec_val mn) (val sz) 0)"
      "vz (vec_val (m_min q_tl)) = vz (quadrant_min (vec_val mn) (val sz) 0)"
      "vx (vec_val (m_min q_tr)) = vx (quadrant_min (vec_val mn) (val sz) 1)"
      "vz (vec_val (m_min q_tr)) = vz (quadrant_min (vec_val mn) (val sz) 1)"
      "vx (vec_val (m_min q_bl)) = vx (quadrant_min (vec_val mn) (val sz) 2)"
      "vz (vec_val (m_min q_bl)) = vz (quadrant_min (vec_val mn) (val sz) 2)"
      "vx (vec_val (m_min q_br)) = vx (quadrant_min (vec_val mn) (val sz) 3)"
      "vz (vec_val (m_min q_br)) = vz (quadrant_min (vec_val mn) (val sz) 3)"
      using xz by (simp_all add: vec_val_def quadrant_min_xz)
    have cov: "covers_exactly (render terrain_mesh_count c cam) (vec_val (m_min c)) (val (m_size c))"
      if "c \<in> {q_tl, q_tr, q_bl, q_br}" for c
      using that sub ch cs by auto
    have "?ok 0 a0" using ch(1) sz(1) vv(1,2) cov [of q_tl] by blast
    moreover have "?ok 1 a1" using ch(2) sz(2) vv(3,4) cov [of q_tr] by blast
    moreover have "?ok 2 a2" using ch(3) sz(3) vv(5,6) cov [of q_bl] by blast
    moreover have "?ok 3 a3" using ch(4) sz(4) vv(7,8) cov [of q_br] by blast
    ultimately show ?thesis by blast
  qed
  show ?case
  proof (cases "fgt (getDistance ?q cam) (getRadiusOuter_f32 sz) \<and> lod > 1")
    case True
    then have "render terrain_mesh_count ?q cam = (False, [])"
      unfolding cs render_four by (simp del: render.simps)
    then show ?thesis by (simp add: covers_exactly_def del: render.simps)
  next
    case False
    let ?ds = "render_child terrain_mesh_count mn sz cam 0 a0 @
               render_child terrain_mesh_count mn sz cam 1 a1 @
               render_child terrain_mesh_count mn sz cam 2 a2 @
               render_child terrain_mesh_count mn sz cam 3 a3"
    have r: "render terrain_mesh_count ?q cam = (True, ?ds)"
      using False unfolding cs render_four by (simp del: render.simps)
    have "times_covered (render_child terrain_mesh_count mn sz cam 0 a0 @
                         render_child terrain_mesh_count mn sz cam 1 a1 @
                         render_child terrain_mesh_count mn sz cam 2 a2 @
                         render_child terrain_mesh_count mn sz cam 3 a3) px pz
          = (if in_square (vec_val mn) (val sz) px pz then 1 else 0)" for px pz
      unfolding times_covered_simps
      using ok render_child_covered [of _ sz mn _ cam px pz] draw_covers_quadrant [of mn sz px pz]
        four_indicators [OF halves_cover [of "vec_val mn" "val sz" px pz]
                            halves_disjoint [of "vec_val mn" "val sz" px pz]]
      by simp
    then show ?thesis unfolding r covers_exactly_def by simp
  qed
qed

lemma render_root_drawn: "m_lod q \<le> 1 \<Longrightarrow> fst (render getCount q cam)"
  by (cases q) (simp add: Let_def)

text \<open>
  C1. For the tree \<^verbatim>\<open>generateQuadTree\<close> builds for a size whose halves and corners are exact
  (\<open>m \<times> 2\<^sup>e\<close> with \<open>127 \<times> m < 2\<^sup>2\<^sup>4\<close>) and every camera position, the root's \<^verbatim>\<open>render\<close> is never
  pruned (it returns true), and the draw calls it issues cover every point of the root's
  square exactly once and no point outside it: no gap and no double draw. The squares are
  half-open, so that a point on the edge between two quadrants belongs to one of them.
\<close>

theorem render_covers_root_exactly_once:
  "exact_size sz \<longrightarrow>
   fst (render terrain_mesh_count (generateQuadTree sz) cam) \<and>
   times_covered (snd (render terrain_mesh_count (generateQuadTree sz) cam)) px pz
     = (if in_square \<lparr>vx = 0, vy = 0, vz = 0\<rparr> (val sz) px pz then 1 else 0)"
proof
  assume e: "exact_size sz"
  let ?r = "render terrain_mesh_count (generateQuadTree sz) cam"
  note root = generateQuadTree_root [of sz]
  have inv: "\<forall>n \<in> set (nodes (generateQuadTree sz)). quad_invariant n"
    using generateQuadTree_nodes [OF e] by blast
  have drawn: "fst ?r" using root(1) by (simp add: render_root_drawn)
  from render_covers_exactly [OF inv, of cam]
  have "covers_exactly ?r \<lparr>vx = 0, vy = 0, vz = 0\<rparr> (val sz)"
    unfolding root by (simp add: vec_val_def)
  with drawn have "times_covered (snd ?r) px pz
      = (if in_square \<lparr>vx = 0, vy = 0, vz = 0\<rparr> (val sz) px pz then 1 else 0)"
    by (cases ?r) (simp add: covers_exactly_def)
  with drawn show "fst ?r \<and> times_covered (snd ?r) px pz
      = (if in_square \<lparr>vx = 0, vy = 0, vz = 0\<rparr> (val sz) px pz then 1 else 0)" by blast
qed

theorem render_covers_root_exactly_once_witness:
  "exact_size (Finite 32) \<and>
   in_square \<lparr>vx = 0, vy = 0, vz = 0\<rparr> 32 5 20 \<and>
   fst (render terrain_mesh_count (generateQuadTree (Finite 32))
          \<lparr>x32 = Finite 100, y32 = Finite 3, z32 = Finite 100\<rparr>) \<and>
   times_covered (snd (render terrain_mesh_count (generateQuadTree (Finite 32))
          \<lparr>x32 = Finite 100, y32 = Finite 3, z32 = Finite 100\<rparr>)) 5 20 = 1"
proof -
  have e: "exact_size (Finite 32)" using exact_size_nat [of 32] by simp
  have s: "in_square \<lparr>vx = 0, vy = 0, vz = 0\<rparr> 32 5 20" by (simp add: in_square_def)
  show ?thesis
    using render_covers_root_exactly_once
      [of "Finite 32" "\<lparr>x32 = Finite 100, y32 = Finite 3, z32 = Finite 100\<rparr>" 5 20] e s
    by simp
qed

subsection \<open>A tree whose corners round\<close>

lemma round32_nonneg: "0 \<le> x \<Longrightarrow> \<not> flt (round32 x) (Finite 0)"
  using round32_ge [of 0 x] by auto

lemma fadd_nonneg:
  "\<not> flt a (Finite 0) \<Longrightarrow> \<not> flt b (Finite 0) \<Longrightarrow> \<not> flt (fadd a b) (Finite 0)"
  by (cases a; cases b) (simp_all add: round32_nonneg)

lemma fmul_nonneg:
  "\<not> flt a (Finite 0) \<Longrightarrow> \<not> flt b (Finite 0) \<Longrightarrow> \<not> flt (fmul a b) (Finite 0)"
  by (cases a; cases b) (auto simp: round32_nonneg)

lemma fsqrt_nonneg: "\<not> flt (fsqrt a) (Finite 0)"
  by (cases a) (simp_all add: round32_nonneg)

lemma getRadiusOuter_f32_nonneg:
  "0 \<le> s \<Longrightarrow> \<not> fgt (Finite 0) (getRadiusOuter_f32 (Finite s))"
  unfolding fgt_def getRadiusOuter_f32_def
  by (intro fadd_nonneg fmul_nonneg fsqrt_nonneg) (simp_all add: round32_nonneg)

text \<open>A node whose closed square holds the camera is not pruned.\<close>

lemma render_inside:
  assumes "finite_quad q" "representable32 cx" "representable32 cz" "in_footprint q cx cz"
  shows "fst (render getCount q \<lparr>x32 = Finite cx, y32 = cy, z32 = Finite cz\<rparr>)"
proof (cases q)
  case (TerrainQuad cs mn sz lod)
  have d: "getDistance q \<lparr>x32 = Finite cx, y32 = cy, z32 = Finite cz\<rparr> = Finite 0"
    using assms by (rule getDistance_inside)
  from assms(1) obtain s where s: "sz = Finite s"
    using is_finite_val unfolding finite_quad_def TerrainQuad by auto
  from assms(4) have "0 \<le> s" unfolding in_footprint_def TerrainQuad s by simp
  then have "\<not> fgt (Finite 0) (getRadiusOuter_f32 sz)"
    unfolding s by (rule getRadiusOuter_f32_nonneg)
  then show ?thesis
    using d unfolding TerrainQuad by (simp add: Let_def)
qed

text \<open>The draw calls of a child that renders are among those of its parent, when the
  parent renders.\<close>

lemma render_four_draws:
  assumes "fst (render getCount (TerrainQuad [a0, a1, a2, a3] mn sz lod) cam)"
  shows "snd (render getCount (TerrainQuad [a0, a1, a2, a3] mn sz lod) cam) =
           render_child getCount mn sz cam 0 a0 @ render_child getCount mn sz cam 1 a1 @
           render_child getCount mn sz cam 2 a2 @ render_child getCount mn sz cam 3 a3"
proof (cases "fgt (getDistance (TerrainQuad [a0, a1, a2, a3] mn sz lod) cam) (getRadiusOuter_f32 sz) \<and> lod > 1")
  case True
  then have "render getCount (TerrainQuad [a0, a1, a2, a3] mn sz lod) cam = (False, [])"
    unfolding render_four by (simp del: render.simps)
  with assms show ?thesis by simp
next
  case False
  show ?thesis unfolding render_four by (simp only: False if_False snd_conv)
qed

lemma render_child_draws:
  "fst (render getCount c cam) \<Longrightarrow>
   render_child getCount mn sz cam i (Some c) = snd (render getCount c cam)"
  by (cases "render getCount c cam") (simp add: render_child_def)

lemma render_descend:
  assumes l: "lod < 8" "fgt sz (Finite 16)" and i: "i < 4"
    and p: "fst (render getCount (createChildren (new_TerrainQuad mn sz lod)) cam)"
    and c: "fst (render getCount
                  (createChildren (new_TerrainQuad (child_min mn sz i) (fdiv sz (Finite 2)) (lod + 1))) cam)"
  shows "set (snd (render getCount
                  (createChildren (new_TerrainQuad (child_min mn sz i) (fdiv sz (Finite 2)) (lod + 1))) cam))
         \<subseteq> set (snd (render getCount (createChildren (new_TerrainQuad mn sz lod)) cam))"
proof -
  note q = createChildren_inner [OF l, of mn]
  from i consider "i = 0" | "i = 1" | "i = 2" | "i = 3" by linarith
  then show ?thesis
  proof cases
    case 1
    show ?thesis using c unfolding render_four_draws [OF p [unfolded q]] q 1
      by (auto simp add: render_child_draws simp del: render.simps)
  next
    case 2
    show ?thesis using c unfolding render_four_draws [OF p [unfolded q]] q 2
      by (auto simp add: render_child_draws simp del: render.simps)
  next
    case 3
    show ?thesis using c unfolding render_four_draws [OF p [unfolded q]] q 3
      by (auto simp add: render_child_draws simp del: render.simps)
  next
    case 4
    show ?thesis using c unfolding render_four_draws [OF p [unfolded q]] q 4
      by (auto simp add: render_child_draws simp del: render.simps)
  qed
qed

lemma render_leaf:
  assumes "fst (render getCount (new_TerrainQuad mn sz lod) cam)"
  shows "snd (render getCount (new_TerrainQuad mn sz lod) cam) =
           [draw_quadrant getCount mn sz 0, draw_quadrant getCount mn sz 1,
            draw_quadrant getCount mn sz 2, draw_quadrant getCount mn sz 3]"
  using assms unfolding new_TerrainQuad_def CHILD_COUNT_def
  by (simp add: eval_nat_numeral render_four_draws render_child_def del: render.simps)

lemma covered_twice:
  assumes "d1 \<in> set ds" "d2 \<in> set ds" "d1 \<noteq> d2" "draw_covers d1 px pz" "draw_covers d2 px pz"
  shows "2 \<le> times_covered ds px pz"
proof -
  have "{d1, d2} \<subseteq> set (filter (\<lambda>d. draw_covers d px pz) ds)" using assms by simp
  then have "card {d1, d2} \<le> card (set (filter (\<lambda>d. draw_covers d px pz) ds))"
    by (intro card_mono) simp_all
  also have "\<dots> \<le> length (filter (\<lambda>d. draw_covers d px pz) ds)" by (rule card_length)
  finally show ?thesis using assms(3) by (simp add: times_covered_def)
qed

text \<open>
  The claim as stated fails where a corner rounds. In the tree of a texture 16777215 wide the
  node of level 7 with its corner at \<open>x = 262143.984375\<close> has two top children of size
  131071.9921875: the left one ends at 393215.9765625, the corner of the right one is that
  sum rounded to 24 bits, 393215.96875. With the camera on that corner both leaves hold the
  camera in their closed squares, so they and all their ancestors render, and the strip
  between the two numbers is drawn by both.
\<close>

lemma round32_wide_8: "round32 (16777215 / 8) = Finite (16777215 / 8)"
  by (subst round32_eval [where k = 20]) (simp_all add: round_even_def Let_def)

lemma round32_wide_16: "round32 (16777215 / 16) = Finite (16777215 / 16)"
  by (subst round32_eval [where k = 19]) (simp_all add: round_even_def Let_def)

lemma round32_wide_32: "round32 (16777215 / 32) = Finite (16777215 / 32)"
  by (subst round32_eval [where k = 18]) (simp_all add: round_even_def Let_def)

lemma round32_wide_64: "round32 (16777215 / 64) = Finite (16777215 / 64)"
  by (subst round32_eval [where k = 17]) (simp_all add: round_even_def Let_def)

lemma round32_wide_128: "round32 (16777215 / 128) = Finite (16777215 / 128)"
  by (subst round32_eval [where k = 16]) (simp_all add: round_even_def Let_def)

lemma round32_wide_leaf_corner: "round32 (50331645 / 128) = Finite (12582911 / 32)"
  by (subst round32_eval [where k = 18]) (simp_all add: round_even_def Let_def)

lemmas round32_wide = round32_wide_2 round32_wide_4 round32_wide_8 round32_wide_16 round32_wide_32
  round32_wide_64 round32_wide_128 round32_wide_leaf_corner

lemma representable32_wide_camera: "representable32 (12582911 / 32)"
  by (rule representable32I [of _ 12582911 "- 5"]) simp_all

lemma wide_chain_renders:
  "fst (render terrain_mesh_count (top_quad 0 16777215 1) wide_camera)"
  "fst (render terrain_mesh_count (top_quad 0 (16777215 / 2) 2) wide_camera)"
  "fst (render terrain_mesh_count (top_quad 0 (16777215 / 4) 3) wide_camera)"
  "fst (render terrain_mesh_count (top_quad 0 (16777215 / 8) 4) wide_camera)"
  "fst (render terrain_mesh_count (top_quad 0 (16777215 / 16) 5) wide_camera)"
  "fst (render terrain_mesh_count (top_quad 0 (16777215 / 32) 6) wide_camera)"
  "fst (render terrain_mesh_count (top_quad (16777215 / 64) (16777215 / 64) 7) wide_camera)"
  "fst (render terrain_mesh_count (top_quad (16777215 / 64) (16777215 / 128) 8) wide_camera)"
  "fst (render terrain_mesh_count (top_quad (12582911 / 32) (16777215 / 128) 8) wide_camera)"
  by (rule render_inside;
      simp add: finite_quad_def in_footprint_def createChildren_fields representable32_wide_camera)+

lemma wide_chain_draws:
  "set (snd (render terrain_mesh_count (top_quad (16777215 / 64) (16777215 / 64) 7) wide_camera))
     \<subseteq> set (snd (render terrain_mesh_count (top_quad 0 16777215 1) wide_camera))"
proof -
  have "set (snd (render terrain_mesh_count (top_quad 0 (16777215 / 2) 2) wide_camera))
          \<subseteq> set (snd (render terrain_mesh_count (top_quad 0 16777215 1) wide_camera))"
    using render_descend [of 1 "Finite 16777215" 0 terrain_mesh_count
        "\<lparr>x32 = Finite 0, y32 = Finite 0, z32 = Finite 0\<rparr>" wide_camera]
      wide_chain_renders
    by (simp add: fgt_def child_min_def TOP_LEFT_def TOP_RIGHT_def round32_wide del: render.simps)
  moreover have "set (snd (render terrain_mesh_count (top_quad 0 (16777215 / 4) 3) wide_camera))
          \<subseteq> set (snd (render terrain_mesh_count (top_quad 0 (16777215 / 2) 2) wide_camera))"
    using render_descend [of 2 "Finite (16777215 / 2)" 0 terrain_mesh_count
        "\<lparr>x32 = Finite 0, y32 = Finite 0, z32 = Finite 0\<rparr>" wide_camera]
      wide_chain_renders
    by (simp add: fgt_def child_min_def TOP_LEFT_def TOP_RIGHT_def round32_wide del: render.simps)
  moreover have "set (snd (render terrain_mesh_count (top_quad 0 (16777215 / 8) 4) wide_camera))
          \<subseteq> set (snd (render terrain_mesh_count (top_quad 0 (16777215 / 4) 3) wide_camera))"
    using render_descend [of 3 "Finite (16777215 / 4)" 0 terrain_mesh_count
        "\<lparr>x32 = Finite 0, y32 = Finite 0, z32 = Finite 0\<rparr>" wide_camera]
      wide_chain_renders
    by (simp add: fgt_def child_min_def TOP_LEFT_def TOP_RIGHT_def round32_wide del: render.simps)
  moreover have "set (snd (render terrain_mesh_count (top_quad 0 (16777215 / 16) 5) wide_camera))
          \<subseteq> set (snd (render terrain_mesh_count (top_quad 0 (16777215 / 8) 4) wide_camera))"
    using render_descend [of 4 "Finite (16777215 / 8)" 0 terrain_mesh_count
        "\<lparr>x32 = Finite 0, y32 = Finite 0, z32 = Finite 0\<rparr>" wide_camera]
      wide_chain_renders
    by (simp add: fgt_def child_min_def TOP_LEFT_def TOP_RIGHT_def round32_wide del: render.simps)
  moreover have "set (snd (render terrain_mesh_count (top_quad 0 (16777215 / 32) 6) wide_camera))
          \<subseteq> set (snd (render terrain_mesh_count (top_quad 0 (16777215 / 16) 5) wide_camera))"
    using render_descend [of 5 "Finite (16777215 / 16)" 0 terrain_mesh_count
        "\<lparr>x32 = Finite 0, y32 = Finite 0, z32 = Finite 0\<rparr>" wide_camera]
      wide_chain_renders
    by (simp add: fgt_def child_min_def TOP_LEFT_def TOP_RIGHT_def round32_wide del: render.simps)
  moreover have "set (snd (render terrain_mesh_count (top_quad (16777215 / 64) (16777215 / 64) 7) wide_camera))
          \<subseteq> set (snd (render terrain_mesh_count (top_quad 0 (16777215 / 32) 6) wide_camera))"
    using render_descend [of 6 "Finite (16777215 / 32)" 1 terrain_mesh_count
        "\<lparr>x32 = Finite 0, y32 = Finite 0, z32 = Finite 0\<rparr>" wide_camera]
      wide_chain_renders
    by (simp add: fgt_def child_min_def TOP_LEFT_def TOP_RIGHT_def round32_wide del: render.simps)
  ultimately show ?thesis by blast
qed

lemma wide_leaves_draws:
  "set (snd (render terrain_mesh_count (top_quad (16777215 / 64) (16777215 / 128) 8) wide_camera))
     \<subseteq> set (snd (render terrain_mesh_count (top_quad (16777215 / 64) (16777215 / 64) 7) wide_camera))"
  "set (snd (render terrain_mesh_count (top_quad (12582911 / 32) (16777215 / 128) 8) wide_camera))
     \<subseteq> set (snd (render terrain_mesh_count (top_quad (16777215 / 64) (16777215 / 64) 7) wide_camera))"
  using render_descend [of 7 "Finite (16777215 / 64)" 0 terrain_mesh_count
        "\<lparr>x32 = Finite (16777215 / 64), y32 = Finite 0, z32 = Finite 0\<rparr>" wide_camera]
    render_descend [of 7 "Finite (16777215 / 64)" 1 terrain_mesh_count
        "\<lparr>x32 = Finite (16777215 / 64), y32 = Finite 0, z32 = Finite 0\<rparr>" wide_camera]
    wide_chain_renders
  by (simp_all add: fgt_def child_min_def TOP_LEFT_def TOP_RIGHT_def round32_wide del: render.simps)

lemma wide_leaves:
  "snd (render terrain_mesh_count (top_quad (16777215 / 64) (16777215 / 128) 8) wide_camera) =
     [draw_quadrant terrain_mesh_count \<lparr>x32 = Finite (16777215 / 64), y32 = Finite 0, z32 = Finite 0\<rparr>
        (Finite (16777215 / 128)) 0,
      draw_quadrant terrain_mesh_count \<lparr>x32 = Finite (16777215 / 64), y32 = Finite 0, z32 = Finite 0\<rparr>
        (Finite (16777215 / 128)) 1,
      draw_quadrant terrain_mesh_count \<lparr>x32 = Finite (16777215 / 64), y32 = Finite 0, z32 = Finite 0\<rparr>
        (Finite (16777215 / 128)) 2,
      draw_quadrant terrain_mesh_count \<lparr>x32 = Finite (16777215 / 64), y32 = Finite 0, z32 = Finite 0\<rparr>
        (Finite (16777215 / 128)) 3]"
  "snd (render terrain_mesh_count (top_quad (12582911 / 32) (16777215 / 128) 8) wide_camera) =
     [draw_quadrant terrain_mesh_count \<lparr>x32 = Finite (12582911 / 32), y32 = Finite 0, z32 = Finite 0\<rparr> (Finite (16777215 / 128)) 0,
      draw_quadrant terrain_mesh_count \<lparr>x32 = Finite (12582911 / 32), y32 = Finite 0, z32 = Finite 0\<rparr> (Finite (16777215 / 128)) 1,
      draw_quadrant terrain_mesh_count \<lparr>x32 = Finite (12582911 / 32), y32 = Finite 0, z32 = Finite 0\<rparr> (Finite (16777215 / 128)) 2,
      draw_quadrant terrain_mesh_count \<lparr>x32 = Finite (12582911 / 32), y32 = Finite 0, z32 = Finite 0\<rparr> (Finite (16777215 / 128)) 3]"
  using wide_chain_renders
  by (simp_all add: createChildren_leaf render_leaf del: render.simps)

theorem render_draws_strip_twice:
  "in_square \<lparr>vx = 0, vy = 0, vz = 0\<rparr> 16777215 (39321597 / 100) 1 \<and>
   2 \<le> times_covered
         (snd (render terrain_mesh_count (generateQuadTree (Finite 16777215))
                 \<lparr>x32 = Finite (12582911 / 32), y32 = Finite 0, z32 = Finite 0\<rparr>))
         (39321597 / 100) 1"
proof -
  let ?ds = "snd (render terrain_mesh_count (generateQuadTree (Finite 16777215)) wide_camera)"
  let ?d1 = "draw_quadrant terrain_mesh_count
               \<lparr>x32 = Finite (16777215 / 64), y32 = Finite 0, z32 = Finite 0\<rparr>
               (Finite (16777215 / 128)) 1"
  let ?d2 = "draw_quadrant terrain_mesh_count
               \<lparr>x32 = Finite (12582911 / 32), y32 = Finite 0, z32 = Finite 0\<rparr>
               (Finite (16777215 / 128)) 0"
  have r: "generateQuadTree (Finite 16777215) = top_quad 0 16777215 1"
    by (simp add: generateQuadTree_def)
  have "?d1 \<in> set (snd (render terrain_mesh_count (top_quad (16777215 / 64) (16777215 / 128) 8) wide_camera))"
    unfolding wide_leaves by simp
  then have d1: "?d1 \<in> set ?ds" unfolding r using wide_leaves_draws(1) wide_chain_draws by blast
  have "?d2 \<in> set (snd (render terrain_mesh_count (top_quad (12582911 / 32) (16777215 / 128) 8) wide_camera))"
    unfolding wide_leaves by simp
  then have d2: "?d2 \<in> set ?ds" unfolding r using wide_leaves_draws(2) wide_chain_draws by blast
  have ne: "?d1 \<noteq> ?d2" by (simp add: draw_quadrant_def)
  have c1: "draw_covers ?d1 (39321597 / 100) 1" unfolding draw_covers_quadrant
    by (simp add: in_square_def quadrant_min_def vec_val_def TOP_LEFT_def TOP_RIGHT_def)
  have c2: "draw_covers ?d2 (39321597 / 100) 1" unfolding draw_covers_quadrant
    by (simp add: in_square_def quadrant_min_def vec_val_def TOP_LEFT_def TOP_RIGHT_def)
  have "2 \<le> times_covered ?ds (39321597 / 100) 1" using d1 d2 ne c1 c2 by (rule covered_twice)
  then show ?thesis by (simp add: in_square_def)
qed

section \<open>Properties of the scene\<close>

lemmas sample_defs = sample_scene_def sample_collaborators_def sample_matrix_def sample_hit_def
  ray_hits_sphere_def vec_sub_def dotProduct_def broad_phase_def reported_hit_def Let_def
  sample_universe_def RENDERABLE_HASH_def

subsection \<open>Debug lines\<close>

lemma eraseFast_middle: "eraseFast (pre @ x # suf) (length pre) = pre @ (if suf = [] then [] else last suf # butlast suf)"
  by (simp add: eraseFast_def list_update_append butlast_append)

lemma update_step_middle:
  "update_step dt (length pre) (pre @ x # suf) =
     (if expires dt x then pre @ (if suf = [] then [] else last suf # butlast suf)
      else pre @ x # suf)"
  by (simp add: update_step_def Let_def expires_def eraseFast_middle)

lemma mset_last_butlast: "suf \<noteq> [] \<Longrightarrow> mset (last suf # butlast suf) = mset suf"
  by (metis append_butlast_last_id mset.simps(2) mset_append union_mset_add_mset_right add.right_neutral mset.simps(1))

lemma update_loop:
  "mset (fold (update_step dt) (rev [0..<length pre]) (pre @ suf))
     = filter_mset (\<lambda>l. \<not> expires dt l) (mset pre) + mset suf"
proof (induction pre arbitrary: suf rule: rev_induct)
  case Nil
  show ?case by simp
next
  case (snoc x pre)
  show ?case
  proof (cases "expires dt x")
    case False
    then show ?thesis
      using snoc.IH [of "x # suf"] update_step_middle [of dt pre x suf] by simp
  next
    case True
    show ?thesis
    proof (cases "suf = []")
      case True
      with \<open>expires dt x\<close> show ?thesis
        using snoc.IH [of "[]"] update_step_middle [of dt pre x suf] by simp
    next
      case False
      with \<open>expires dt x\<close> show ?thesis
        using snoc.IH [of "last suf # butlast suf"] update_step_middle [of dt pre x suf]
          mset_last_butlast [OF False]
        by simp
    qed
  qed
qed

text \<open>
  What \<^verbatim>\<open>update\<close> does to the stored lines: it removes exactly those whose stored lifetime
  is below \<open>dt\<close>, and the lines it keeps are the stored ones, their lifetimes as they were.
\<close>

lemma update_removes_by_own_life:
  "mset (m_debug_lines (update dt s))
     = filter_mset (\<lambda>l. \<not> m_life l - dt < 0) (mset (m_debug_lines s))"
  using update_loop [of dt "m_debug_lines s" "[]"]
  by (simp add: update_def expires_def)

text \<open>
  C5. A line added with life 1 is in the buffer after \<^verbatim>\<open>update(0.6)\<close> and is still there,
  with life 1, after the following \<^verbatim>\<open>update(0.5)\<close>: the lifetime \<^verbatim>\<open>update\<close> decrements is a
  local copy, so the decrements of two calls do not add up.
\<close>

theorem update_keeps_line_after_two_calls:
  "m_debug_lines (update (1 / 2) (update (3 / 5)
      (addDebugLine \<lparr>vx = 0, vy = 0, vz = 0\<rparr> \<lparr>vx = 1, vy = 0, vz = 0\<rparr> \<lparr>vx = 1, vy = 1, vz = 1\<rparr> 1
         (new_RenderSceneImpl 0 (new_Universe 0)))))
   = [\<lparr>m_from = \<lparr>vx = 0, vy = 0, vz = 0\<rparr>, m_to = \<lparr>vx = 1, vy = 0, vz = 0\<rparr>,
       m_color = \<lparr>vx = 1, vy = 1, vz = 1\<rparr>, m_life = 1\<rparr>]"
  by (simp add: update_def update_step_def addDebugLine_def new_RenderSceneImpl_def eraseFast_def)

subsection \<open>Lights\<close>

text \<open>
  C10. For a non-negative index, \<^verbatim>\<open>getLight\<close> returns the invalid component when the index
  is at least the number of lights, and otherwise a component with the entity of that
  light, the type tag of lights and the index; the scene is returned as it was.
\<close>

theorem getLight_component:
  assumes "0 \<le> idx"
  shows "(idx \<ge> int (length (m_lights s)) \<longrightarrow> getLight ext s idx = Some (INVALID ext, s)) \<and>
         (idx < int (length (m_lights s)) \<longrightarrow>
            (\<exists>c. getLight ext s idx = Some (c, s) \<and>
                 entity c = Light.m_entity (m_lights s ! nat idx) \<and>
                 type c = LIGHT_HASH ext \<and> c_index c = idx))"
  using assms by (simp add: getLight_def LIGHT_HASH_def)

theorem getLight_component_witness:
  "(0::int) \<le> 1 \<and> (1::int) < int (length (m_lights sample_scene)) \<and>
   (\<exists>c. getLight sample_collaborators sample_scene 1 = Some (c, sample_scene) \<and>
        entity c = Light.m_entity (m_lights sample_scene ! nat 1) \<and>
        type c = LIGHT_HASH sample_collaborators \<and> c_index c = 1) \<and>
   (0::int) \<le> 2 \<and> (2::int) \<ge> int (length (m_lights sample_scene)) \<and>
   getLight sample_collaborators sample_scene 2 = Some (INVALID sample_collaborators, sample_scene)"
proof -
  have len: "int (length (m_lights sample_scene)) = 2" by (simp add: sample_scene_def)
  show ?thesis
    using getLight_component [of 1 sample_scene sample_collaborators]
      getLight_component [of 2 sample_scene sample_collaborators] len
    by simp
qed

subsection \<open>Ray cast\<close>

text \<open>The two radii, and so the two tests, agree for an instance of scale 1.\<close>

lemma broad_phase_scale_one:
  "m_scale r = 1 \<Longrightarrow> broad_phase ext r m origin dir = broad_phase_spec ext r m origin dir"
  by (simp add: broad_phase_def broad_phase_spec_def)

text \<open>
  C6. The inside check of the broad phase compares with the unscaled bounding radius, the
  intersection test with the scaled one. For the second renderable of the sample scene
  (bounding radius 1, scale 1/2, at \<open>(2, 0, 0)\<close>) and the ray from \<open>(11/4, 0, 0)\<close> in
  direction \<open>(1, 0, 0)\<close>, the origin is outside the scaled sphere and the ray leaves it
  behind, yet the broad phase of the code passes.
\<close>

theorem broad_phase_unscaled_inside_check:
  "broad_phase sample_collaborators (m_renderables sample_scene ! 1)
      \<lparr>model_path = ''near.msh'', bounding_radius = 1\<rparr>
      \<lparr>vx = 11 / 4, vy = 0, vz = 0\<rparr> \<lparr>vx = 1, vy = 0, vz = 0\<rparr> \<and>
   \<not> broad_phase_spec sample_collaborators (m_renderables sample_scene ! 1)
      \<lparr>model_path = ''near.msh'', bounding_radius = 1\<rparr>
      \<lparr>vx = 11 / 4, vy = 0, vz = 0\<rparr> \<lparr>vx = 1, vy = 0, vz = 0\<rparr>"
  by (simp add: sample_defs broad_phase_spec_def power2_eq_square)

lemma castRay_step_reported:
  "castRay_step ext s origin dir i hit =
     (case reported_hit ext s origin dir i of
        None \<Rightarrow> hit
      | Some h \<Rightarrow> if \<not> m_is_hit hit \<or> m_t h < m_t hit then h else hit)"
  by (simp add: castRay_step_def reported_hit_def Let_def RENDERABLE_HASH_def split: option.splits)

lemma reported_hit_component:
  "reported_hit ext s origin dir i = Some h \<Longrightarrow>
   m_is_hit h \<and>
   m_renderable h = \<lparr>entity = Renderable.m_entity (m_renderables s ! i), type = RENDERABLE_HASH ext,
                      scene = this s, c_index = int i\<rparr>"
  by (auto simp: reported_hit_def Let_def split: option.splits if_splits)

lemma castRay_inv_step:
  assumes "castRay_inv ext hit0 s origin dir k h"
  shows "castRay_inv ext hit0 s origin dir (Suc k) (castRay_step ext s origin dir k h)"
proof (cases "reported_hit ext s origin dir k")
  case None
  then have step: "castRay_step ext s origin dir k h = h"
    by (simp add: castRay_step_reported)
  have same: "(\<exists>i < Suc k. reported_hit ext s origin dir i \<noteq> None)
                 = (\<exists>i < k. reported_hit ext s origin dir i \<noteq> None)"
    using None by (auto simp: less_Suc_eq)
  have keep: "closest_hit ext s origin dir (Suc k) i h" if "closest_hit ext s origin dir k i h" for i
    using that None by (auto simp: closest_hit_def less_Suc_eq)
  show ?thesis
    unfolding castRay_inv_def step same
    using assms keep unfolding castRay_inv_def by (blast intro: less_SucI)
next
  case (Some h')
  then have ex: "\<not> (\<forall>i < Suc k. reported_hit ext s origin dir i = None)" by auto
  have "\<exists>i. closest_hit ext s origin dir (Suc k) i (castRay_step ext s origin dir k h)"
  proof (cases "\<exists>i < k. reported_hit ext s origin dir i \<noteq> None")
    case False
    with assms have "h = hit0\<lparr>m_is_hit := False\<rparr>" unfolding castRay_inv_def by blast
    then have step: "castRay_step ext s origin dir k h = h'"
      by (simp add: castRay_step_reported Some)
    have "closest_hit ext s origin dir (Suc k) k h'"
      using False Some by (auto simp: closest_hit_def less_Suc_eq)
    then show ?thesis unfolding step by blast
  next
    case True
    with assms obtain i where i: "closest_hit ext s origin dir k i h"
      unfolding castRay_inv_def by blast
    then have hit: "m_is_hit h" using reported_hit_component by (auto simp: closest_hit_def)
    show ?thesis
    proof (cases "m_t h' < m_t h")
      case True
      then have step: "castRay_step ext s origin dir k h = h'"
        by (simp add: castRay_step_reported Some)
      have "closest_hit ext s origin dir (Suc k) k h'"
        using i True Some by (fastforce simp: closest_hit_def less_Suc_eq)
      then show ?thesis unfolding step by blast
    next
      case False
      then have step: "castRay_step ext s origin dir k h = h"
        using hit by (simp add: castRay_step_reported Some)
      have "closest_hit ext s origin dir (Suc k) i h"
        using i False Some by (fastforce simp: closest_hit_def less_Suc_eq)
      then show ?thesis unfolding step by blast
    qed
  qed
  with ex show ?thesis unfolding castRay_inv_def by blast
qed

lemma castRay_inv_fold:
  "castRay_inv ext hit0 s origin dir n
     (fold (castRay_step ext s origin dir) [0..<n] (hit0\<lparr>m_is_hit := False\<rparr>))"
proof (induction n)
  case 0
  show ?case by (simp add: castRay_inv_def)
next
  case (Suc n)
  then show ?case using castRay_inv_step by simp
qed

text \<open>
  What the loop does with the hits it sees. When some renderable reports a hit (it has a
  model, passes the broad phase of the code and its model's ray cast hits), \<^verbatim>\<open>castRay\<close>
  returns the reported hit of a renderable \<open>i\<close> such that no reported hit has a smaller
  \<^verbatim>\<open>m_t\<close> and every reported hit before \<open>i\<close> has a larger one: the closest of them, the
  first in iteration order on a tie. The component of the result carries the entity and the
  index of that renderable. When no renderable reports a hit, the result has \<^verbatim>\<open>m_is_hit\<close>
  false.
\<close>

lemma castRay_closest_reported:
  "((\<exists>i < length (m_renderables s). reported_hit ext s origin dir i \<noteq> None) \<longrightarrow>
      (\<exists>i. closest_hit ext s origin dir (length (m_renderables s)) i (castRay ext hit0 s origin dir) \<and>
           m_is_hit (castRay ext hit0 s origin dir) \<and>
           entity (m_renderable (castRay ext hit0 s origin dir)) = Renderable.m_entity (m_renderables s ! i) \<and>
           c_index (m_renderable (castRay ext hit0 s origin dir)) = int i)) \<and>
   ((\<forall>i < length (m_renderables s). reported_hit ext s origin dir i = None) \<longrightarrow>
      castRay ext hit0 s origin dir = hit0\<lparr>m_is_hit := False\<rparr> \<and>
      \<not> m_is_hit (castRay ext hit0 s origin dir))"
proof -
  let ?h = "castRay ext hit0 s origin dir"
  have inv: "castRay_inv ext hit0 s origin dir (length (m_renderables s)) ?h"
    unfolding castRay_def by (rule castRay_inv_fold)
  have a: "\<exists>i. closest_hit ext s origin dir (length (m_renderables s)) i ?h \<and> m_is_hit ?h \<and>
           entity (m_renderable ?h) = Renderable.m_entity (m_renderables s ! i) \<and>
           c_index (m_renderable ?h) = int i"
    if "\<exists>i < length (m_renderables s). reported_hit ext s origin dir i \<noteq> None"
  proof -
    from inv that obtain i where i: "closest_hit ext s origin dir (length (m_renderables s)) i ?h"
      unfolding castRay_inv_def by blast
    then have "reported_hit ext s origin dir i = Some ?h" by (simp add: closest_hit_def)
    from reported_hit_component [OF this] i show ?thesis by auto
  qed
  have b: "?h = hit0\<lparr>m_is_hit := False\<rparr> \<and> \<not> m_is_hit ?h"
    if "\<forall>i < length (m_renderables s). reported_hit ext s origin dir i = None"
  proof -
    from inv that have "?h = hit0\<lparr>m_is_hit := False\<rparr>" unfolding castRay_inv_def by blast
    then show ?thesis by simp
  qed
  from a b show ?thesis by blast
qed



section \<open>Properties of serialization\<close>

subsection \<open>The stream that is written\<close>

lemma fold_serializeArrayItem: "fold serializeArrayItem vs st = st @ map ArrayItem vs"
  by (induction vs arbitrary: st) (simp_all add: serializeArrayItem_def)

lemma fold_append_tokens:
  assumes "\<And>i st. i < n \<Longrightarrow> step i st = st @ f i"
  shows "fold step [0..<n] st = st @ concat (map f [0..<n])"
  using assms by (induction n arbitrary: st) simp_all

lemma concat_map_nth: "concat (map (\<lambda>i. f (xs ! i)) [0..<length xs]) = concat (map f xs)"
proof -
  have "map (\<lambda>i. f (xs ! i)) [0..<length xs] = map f (map (\<lambda>i. xs ! i) [0..<length xs])"
    by simp
  then show ?thesis by (simp only: map_nth)
qed

lemma fold_registry:
  assumes "\<And>x st. x \<in> set xs \<Longrightarrow> step x st = st @ f x"
  shows "fold (\<lambda>i. step (xs ! i)) [0..<length xs] st = st @ concat (map f xs)"
proof -
  have "fold (\<lambda>i. step (xs ! i)) [0..<length xs] st
          = st @ concat (map (\<lambda>i. f (xs ! i)) [0..<length xs])"
    by (rule fold_append_tokens) (simp add: assms)
  then show ?thesis by (simp only: concat_map_nth)
qed

lemma serializeCameras_stream:
  "serializeCameras s st = st @ registry_stream ''camera_count'' ''cameras'' camera_tokens (m_cameras s)"
proof -
  have "fold (\<lambda>i. fold serializeArrayItem (camera_items (m_cameras s ! i))) [0..<length (m_cameras s)] st'
          = st' @ concat (map camera_tokens (m_cameras s))" for st'
    by (rule fold_registry) (simp add: fold_serializeArrayItem camera_tokens_def)
  then show ?thesis
    by (simp add: serializeCameras_def registry_stream_def serialize_int_def beginArray_def endArray_def)
qed

lemma serializeLights_stream:
  "serializeLights s st = st @ registry_stream ''light_count'' ''lights'' light_tokens (m_lights s)"
proof -
  have "fold (\<lambda>i. fold serializeArrayItem (light_items (m_lights s ! i))) [0..<length (m_lights s)] st'
          = st' @ concat (map light_tokens (m_lights s))" for st'
    by (rule fold_registry) (simp add: fold_serializeArrayItem light_tokens_def)
  then show ?thesis
    by (simp add: serializeLights_def registry_stream_def serialize_int_def beginArray_def endArray_def)
qed

lemma serializeRenderable_tokens:
  assumes "length (mi_matrix (m_model r)) = 16"
  shows "serializeRenderable r st = st @ renderable_tokens r"
proof -
  let ?mtx = "mi_matrix (m_model r)"
  have "fold (\<lambda>j. serializeArrayItem (FloatValue (?mtx ! j))) [0..<length ?mtx] st'
          = st' @ concat (map (\<lambda>v. [ArrayItem (FloatValue v)]) ?mtx)" for st'
    by (rule fold_registry) (simp add: serializeArrayItem_def)
  moreover have "concat (map (\<lambda>v. [ArrayItem (FloatValue v)]) ?mtx) = map ArrayItem (map FloatValue ?mtx)"
    by (induction ?mtx) simp_all
  ultimately show ?thesis
    using assms
    by (simp add: serializeRenderable_def renderable_tokens_def serializeArrayItem_def Let_def)
qed

lemma serializeRenderables_stream:
  assumes "list_all (\<lambda>r. length (mi_matrix (m_model r)) = 16) (m_renderables s)"
  shows "serializeRenderables s st
           = st @ registry_stream ''renderable_count'' ''renderables'' renderable_tokens (m_renderables s)"
proof -
  have "fold (\<lambda>i. serializeRenderable (m_renderables s ! i)) [0..<length (m_renderables s)] st'
          = st' @ concat (map renderable_tokens (m_renderables s))" for st'
    using assms by (intro fold_registry serializeRenderable_tokens) (simp add: list_all_iff)
  then show ?thesis
    by (simp add: serializeRenderables_def registry_stream_def serialize_int_def beginArray_def endArray_def)
qed

lemma for_each_snoc:
  "for_each (xs @ [x]) body s = Option.bind (for_each xs body s) (body x)"
  by (induction xs arbitrary: s) (auto split: option.splits)

lemma serializeTerrain_tokens:
  "m_material t \<noteq> None \<Longrightarrow> serializeTerrain t st = Some (st @ terrain_tokens t)"
  by (auto simp: serializeTerrain_def serializeArrayItem_def terrain_tokens_def terrain_path_def)

lemma for_each_serializeTerrain:
  assumes "list_all (\<lambda>t. m_material t \<noteq> None) (take n ts)" "n \<le> length ts"
  shows "for_each [0..<n] (\<lambda>i. serializeTerrain (ts ! i)) st
           = Some (st @ concat (map terrain_tokens (take n ts)))"
  using assms
proof (induction n)
  case 0
  show ?case by simp
next
  case (Suc n)
  then have n: "n < length ts" by simp
  from Suc.prems have "m_material (ts ! n) \<noteq> None" "list_all (\<lambda>t. m_material t \<noteq> None) (take n ts)"
    by (simp_all add: take_Suc_conv_app_nth [OF n])
  then show ?case
    using Suc.IH n
    by (simp add: for_each_snoc take_Suc_conv_app_nth [OF n] serializeTerrain_tokens)
qed

lemma serializeTerrains_stream:
  assumes "list_all (\<lambda>t. m_material t \<noteq> None) (m_terrains s)"
  shows "serializeTerrains s st
           = Some (st @ registry_stream ''terrain_count'' ''terrains'' terrain_tokens (m_terrains s))"
  using for_each_serializeTerrain [of "length (m_terrains s)" "m_terrains s"] assms
  by (simp add: serializeTerrains_def registry_stream_def serialize_int_def beginArray_def endArray_def)

lemma for_each_serializeTerrain_None:
  assumes "\<not> list_all (\<lambda>t. m_material t \<noteq> None) (take n ts)" "n \<le> length ts"
  shows "for_each [0..<n] (\<lambda>i. serializeTerrain (ts ! i)) st = None"
  using assms
proof (induction n)
  case 0
  then show ?case by simp
next
  case (Suc n)
  then have n: "n < length ts" by simp
  show ?case
  proof (cases "list_all (\<lambda>t. m_material t \<noteq> None) (take n ts)")
    case True
    with Suc.prems have "m_material (ts ! n) = None"
      by (simp add: take_Suc_conv_app_nth [OF n])
    then show ?thesis
      using for_each_serializeTerrain [OF True] n
      by (simp add: for_each_snoc serializeTerrain_def)
  next
    case False
    then show ?thesis using Suc.IH n by (simp add: for_each_snoc)
  qed
qed

lemma serialize_stream:
  assumes "list_all (\<lambda>r. length (mi_matrix (m_model r)) = 16) (m_renderables s)"
  shows "serialize s [] =
           (if list_all (\<lambda>t. m_material t \<noteq> None) (m_terrains s) then Some (scene_stream s) else None)"
proof (cases "list_all (\<lambda>t. m_material t \<noteq> None) (m_terrains s)")
  case True
  then show ?thesis
    using assms
    by (simp add: serialize_def serializeCameras_stream serializeRenderables_stream
        serializeLights_stream serializeTerrains_stream scene_stream_def)
next
  case False
  then show ?thesis
    using for_each_serializeTerrain_None [of "length (m_terrains s)" "m_terrains s"]
    by (simp add: serialize_def serializeTerrains_def)
qed

subsection \<open>Reading a stream that was written\<close>

lemma for_each_decode:
  assumes item: "\<And>i s rest. i < length xs \<Longrightarrow> P i s \<Longrightarrow>
                   body i (s, enc (xs ! i) @ rest) = Some (upd i s, rest)"
    and step: "\<And>i s. i < length xs \<Longrightarrow> P i s \<Longrightarrow> P (Suc i) (upd i s)"
    and init: "P 0 s"
    and k: "k \<le> length xs"
  shows "for_each [0..<k] body (s, concat (map enc xs) @ rest)
           = Some (fold upd [0..<k] s, concat (map enc (drop k xs)) @ rest) \<and>
         P k (fold upd [0..<k] s)"
  using k
proof (induction k)
  case 0
  show ?case using init by simp
next
  case (Suc k)
  then have k: "k < length xs" by simp
  from Suc have IH: "for_each [0..<k] body (s, concat (map enc xs) @ rest)
           = Some (fold upd [0..<k] s, concat (map enc (drop k xs)) @ rest)"
    and pk: "P k (fold upd [0..<k] s)" by simp_all
  have split: "concat (map enc (drop k xs)) @ rest
                 = enc (xs ! k) @ concat (map enc (drop (Suc k) xs)) @ rest"
    by (simp add: Cons_nth_drop_Suc [OF k, symmetric])
  show ?case
    using item [OF k pk] step [OF k pk]
    by (simp add: for_each_snoc IH split)
qed

lemma camera_overwritten:
  fixes old :: Camera
  shows "old\<lparr>m_far := m_far c, m_near := m_near c, m_fov := m_fov c, m_is_active := m_is_active c,
             Camera.m_width := Camera.m_width c, Camera.m_height := Camera.m_height c,
             m_aspect := Camera.m_width c / Camera.m_height c,
             Camera.m_entity := \<lparr>index = index (Camera.m_entity c), universe = a\<rparr>,
             m_slot := m_slot c\<rparr>
         = restored_camera a c"
  by (rule Camera.equality) (simp_all add: restored_camera_def)

lemma deserializeCamera_tokens:
  assumes "length (m_slot c) \<le> MAX_SLOT_LENGTH"
  shows "deserializeCamera ext i (s, camera_tokens c @ rest) = Some (read_camera ext i c s, rest)"
  using assms
  by (simp add: deserializeCamera_def camera_tokens_def camera_items_def
      deserializeArrayItem_float_def deserializeArrayItem_bool_def deserializeArrayItem_int_def
      deserializeArrayItem_string_def Universe_addComponent_def Let_def read_camera_def
      camera_overwritten)

lemma registered_snoc:
  "registered a sc t (es @ [e])
     = registered a sc t es @
       [\<lparr>entity = \<lparr>index = e, universe = a\<rparr>, type = t, scene = sc, c_index = int (length es)\<rparr>]"
  by (simp add: registered_def enumerate_append_eq)

lemma update_at_boundary:
  "k < length old \<Longrightarrow> length ys = k \<Longrightarrow> (ys @ drop k old)[k := x] = (ys @ [x]) @ drop (Suc k) old"
  by (simp add: list_update_append upd_conv_take_nth_drop)

lemma read_cameras_fold:
  assumes "k \<le> length cs" "length (m_cameras s) = length cs"
  shows "fold (\<lambda>i. read_camera ext i (cs ! i)) [0..<k] s =
           s\<lparr>m_cameras := map (restored_camera (u_address (m_universe s))) (take k cs) @ drop k (m_cameras s),
             m_universe := (m_universe s)
               \<lparr>u_components := u_components (m_universe s) @
                  registered (u_address (m_universe s)) (this s) (CAMERA_HASH ext)
                    (map (\<lambda>c. index (Camera.m_entity c)) (take k cs))\<rparr>\<rparr>"
  using assms(1)
proof (induction k)
  case 0
  show ?case by (simp add: registered_def)
next
  case (Suc k)
  then have k: "k < length cs" by simp
  then have k': "k < length (m_cameras s)" using assms(2) by simp
  show ?case
    using Suc k
    by (simp add: read_camera_def take_Suc_conv_app_nth [OF k] registered_snoc
        update_at_boundary [OF k'])
qed

lemma length_resize: "length (resize d xs n) = n"
  by (simp add: resize_def)

lemma deserializeCameras_stream:
  assumes "list_all (\<lambda>c. length (m_slot c) \<le> MAX_SLOT_LENGTH) cs"
  shows "deserializeCameras ext (s, registry_stream ''camera_count'' ''cameras'' camera_tokens cs @ rest)
           = Some (s\<lparr>m_cameras := map (restored_camera (u_address (m_universe s))) cs,
                     m_universe := (m_universe s)
                       \<lparr>u_components := u_components (m_universe s) @
                          registered (u_address (m_universe s)) (this s) (CAMERA_HASH ext)
                            (map (\<lambda>c. index (Camera.m_entity c)) cs)\<rparr>\<rparr>, rest)"
proof -
  let ?s0 = "s\<lparr>m_cameras := resize (default_Camera ext) (m_cameras s) (length cs)\<rparr>"
  have "for_each [0..<length cs] (deserializeCamera ext) (?s0, concat (map camera_tokens cs) @ EndArray # rest)
          = Some (fold (\<lambda>i. read_camera ext i (cs ! i)) [0..<length cs] ?s0,
                  concat (map camera_tokens (drop (length cs) cs)) @ EndArray # rest) \<and> True"
    using assms
    by (intro for_each_decode [where P = "\<lambda>i s. True"])
       (simp_all add: deserializeCamera_tokens list_all_length)
  then have loop: "for_each [0..<length cs] (deserializeCamera ext) (?s0, concat (map camera_tokens cs) @ EndArray # rest)
          = Some (fold (\<lambda>i. read_camera ext i (cs ! i)) [0..<length cs] ?s0, EndArray # rest)"
    by simp
  have closed: "fold (\<lambda>i. read_camera ext i (cs ! i)) [0..<length cs] ?s0
      = s\<lparr>m_cameras := map (restored_camera (u_address (m_universe s))) cs,
          m_universe := (m_universe s)
            \<lparr>u_components := u_components (m_universe s) @
               registered (u_address (m_universe s)) (this s) (CAMERA_HASH ext)
                 (map (\<lambda>c. index (Camera.m_entity c)) cs)\<rparr>\<rparr>"
    by (subst read_cameras_fold) (simp_all add: length_resize)
  show ?thesis
    by (simp add: deserializeCameras_def registry_stream_def deserialize_int_def
        deserializeArrayBegin_def deserializeArrayEnd_def loop closed)
qed

lemma light_overwritten:
  fixes old :: Light
  shows "old\<lparr>Light.m_entity := \<lparr>index = index (Light.m_entity l), universe = a\<rparr>, m_type := m_type l\<rparr>
         = restored_light a l"
  by (rule Light.equality) (simp_all add: restored_light_def)

lemma deserializeLight_tokens:
  "deserializeLight ext i (s, light_tokens l @ rest) = Some (read_light ext i l s, rest)"
  by (simp add: deserializeLight_def light_tokens_def light_items_def
      deserializeArrayItem_int_def Universe_addComponent_def Let_def read_light_def
      light_overwritten)

lemma read_lights_fold:
  assumes "k \<le> length ls" "length (m_lights s) = length ls"
  shows "fold (\<lambda>i. read_light ext i (ls ! i)) [0..<k] s =
           s\<lparr>m_lights := map (restored_light (u_address (m_universe s))) (take k ls) @ drop k (m_lights s),
             m_universe := (m_universe s)
               \<lparr>u_components := u_components (m_universe s) @
                  registered (u_address (m_universe s)) (this s) (LIGHT_HASH ext)
                    (map (\<lambda>l. index (Light.m_entity l)) (take k ls))\<rparr>\<rparr>"
  using assms(1)
proof (induction k)
  case 0
  show ?case by (simp add: registered_def)
next
  case (Suc k)
  then have k: "k < length ls" by simp
  then have k': "k < length (m_lights s)" using assms(2) by simp
  show ?case
    using Suc k
    by (simp add: read_light_def take_Suc_conv_app_nth [OF k] registered_snoc
        update_at_boundary [OF k'])
qed

lemma deserializeLights_stream:
  "deserializeLights ext (s, registry_stream ''light_count'' ''lights'' light_tokens ls @ rest)
     = Some (s\<lparr>m_lights := map (restored_light (u_address (m_universe s))) ls,
               m_universe := (m_universe s)
                 \<lparr>u_components := u_components (m_universe s) @
                    registered (u_address (m_universe s)) (this s) (LIGHT_HASH ext)
                      (map (\<lambda>l. index (Light.m_entity l)) ls)\<rparr>\<rparr>, rest)"
proof -
  let ?s0 = "s\<lparr>m_lights := resize (default_Light ext) (m_lights s) (length ls)\<rparr>"
  have "for_each [0..<length ls] (deserializeLight ext) (?s0, concat (map light_tokens ls) @ EndArray # rest)
          = Some (fold (\<lambda>i. read_light ext i (ls ! i)) [0..<length ls] ?s0,
                  concat (map light_tokens (drop (length ls) ls)) @ EndArray # rest) \<and> True"
    by (intro for_each_decode [where P = "\<lambda>i s. True"])
       (simp_all add: deserializeLight_tokens)
  then have loop: "for_each [0..<length ls] (deserializeLight ext) (?s0, concat (map light_tokens ls) @ EndArray # rest)
          = Some (fold (\<lambda>i. read_light ext i (ls ! i)) [0..<length ls] ?s0, EndArray # rest)"
    by simp
  have closed: "fold (\<lambda>i. read_light ext i (ls ! i)) [0..<length ls] ?s0
      = s\<lparr>m_lights := map (restored_light (u_address (m_universe s))) ls,
          m_universe := (m_universe s)
            \<lparr>u_components := u_components (m_universe s) @
               registered (u_address (m_universe s)) (this s) (LIGHT_HASH ext)
                 (map (\<lambda>l. index (Light.m_entity l)) ls)\<rparr>\<rparr>"
    by (subst read_lights_fold) (simp_all add: length_resize)
  show ?thesis
    by (simp add: deserializeLights_def registry_stream_def deserialize_int_def
        deserializeArrayBegin_def deserializeArrayEnd_def loop closed)
qed

lemma fold_list_update_prefix:
  "k \<le> length vs \<Longrightarrow> length m = length vs \<Longrightarrow>
   fold (\<lambda>j m. m[j := vs ! j]) [0..<k] m = take k vs @ drop k m"
proof (induction k)
  case 0
  show ?case by simp
next
  case (Suc k)
  then have k: "k < length vs" "k < length m" by simp_all
  show ?case
    using Suc k
    by (simp add: take_Suc_conv_app_nth [OF k(1)] update_at_boundary [OF k(2)])
qed

lemma deserializeMatrix_tokens:
  assumes "length vs = 16" "length m = 16"
  shows "for_each [0..<16] deserializeMatrixItem (m, map (ArrayItem \<circ> FloatValue) vs @ rest)
           = Some (vs, rest)"
proof -
  have conc: "map (ArrayItem \<circ> FloatValue) vs = concat (map (\<lambda>v. [ArrayItem (FloatValue v)]) vs)"
    by (induction vs) simp_all
  have "for_each [0..<length vs] deserializeMatrixItem
          (m, concat (map (\<lambda>v. [ArrayItem (FloatValue v)]) vs) @ rest)
        = Some (fold (\<lambda>j m. m[j := vs ! j]) [0..<length vs] m,
                concat (map (\<lambda>v. [ArrayItem (FloatValue v)]) (drop (length vs) vs)) @ rest) \<and> True"
    by (intro for_each_decode [where P = "\<lambda>i s. True"])
       (simp_all add: deserializeMatrixItem_def deserializeArrayItem_float_def)
  then have "for_each [0..<length vs] deserializeMatrixItem
          (m, concat (map (\<lambda>v. [ArrayItem (FloatValue v)]) vs) @ rest) = Some (vs, rest)"
    using assms by (simp add: fold_list_update_prefix)
  then show ?thesis unfolding conc assms(1) .
qed

lemma deserializeRenderable_tokens:
  assumes "length (mi_matrix (m_model r)) = 16"
    and "length (renderable_path r) \<le> LUMIX_MAX_PATH ext"
    and "length (mi_matrix (m_model (m_renderables s ! i))) = 16"
  shows "deserializeRenderable ext i (s, renderable_tokens r @ rest)
           = Some (read_renderable ext i r s, rest)"
  using assms
  by (simp add: deserializeRenderable_def renderable_tokens_def deserializeArrayItem_int_def
      deserializeArrayItem_string_def deserializeArrayItem_float_def deserializeMatrix_tokens
      Universe_addComponent_def Let_def read_renderable_def overwritten_renderable_def)

lemma read_renderables_fold:
  assumes "k \<le> length rs" "length (m_renderables s) = length rs"
  shows "fold (\<lambda>i. read_renderable ext i (rs ! i)) [0..<k] s =
           s\<lparr>m_renderables :=
                map2 (overwritten_renderable ext (u_address (m_universe s)))
                     (take k (m_renderables s)) (take k rs) @ drop k (m_renderables s),
             m_universe := (m_universe s)
               \<lparr>u_components := u_components (m_universe s) @
                  registered (u_address (m_universe s)) (this s) (RENDERABLE_HASH ext)
                    (map (\<lambda>r. index (Renderable.m_entity r)) (take k rs))\<rparr>\<rparr>"
  using assms(1)
proof (induction k)
  case 0
  show ?case by (simp add: registered_def)
next
  case (Suc k)
  then have k: "k < length rs" by simp
  then have k': "k < length (m_renderables s)" using assms(2) by simp
  have len: "length (map2 (overwritten_renderable ext (u_address (m_universe s)))
                       (take k (m_renderables s)) (take k rs)) = k"
    using k k' by simp
  have nth: "(map2 (overwritten_renderable ext (u_address (m_universe s)))
                (take k (m_renderables s)) (take k rs) @ drop k (m_renderables s)) ! k
             = m_renderables s ! k"
    using k k' by (simp add: nth_append min_def)
  have z: "map2 f (take k (m_renderables s) @ [x]) (take k rs @ [y])
             = map2 f (take k (m_renderables s)) (take k rs) @ [f x y]" for f x y
    using k k' by (subst zip_append) simp_all
  show ?case
    using Suc k
    by (simp add: read_renderable_def take_Suc_conv_app_nth [OF k] take_Suc_conv_app_nth [OF k']
        registered_snoc update_at_boundary [OF k' len] nth z)
qed

lemma matrices_ok_update:
  "matrices_ok rs \<Longrightarrow> length (mi_matrix (m_model r)) = 16 \<Longrightarrow> matrices_ok (rs[i := r])"
  unfolding matrices_ok_def list_all_iff
  using set_update_subset_insert [of rs i r] by auto

lemma deserializeRenderables_stream:
  assumes rs: "matrices_ok rs"
      "list_all (\<lambda>r. length (renderable_path r) \<le> LUMIX_MAX_PATH ext) rs"
    and old: "matrices_ok (m_renderables s)"
      "length (mi_matrix (m_model (default_Renderable ext))) = 16"
  shows "deserializeRenderables ext
           (s, registry_stream ''renderable_count'' ''renderables'' renderable_tokens rs @ rest)
           = Some (s\<lparr>m_renderables :=
                       map2 (overwritten_renderable ext (u_address (m_universe s)))
                         (resize (default_Renderable ext) (m_renderables s) (length rs)) rs,
                     m_universe := (m_universe s)
                       \<lparr>u_components := u_components (m_universe s) @
                          registered (u_address (m_universe s)) (this s) (RENDERABLE_HASH ext)
                            (map (\<lambda>r. index (Renderable.m_entity r)) rs)\<rparr>\<rparr>, rest)"
proof -
  let ?olds = "resize (default_Renderable ext) (m_renderables s) (length rs)"
  let ?s0 = "s\<lparr>m_renderables := ?olds\<rparr>"
  let ?P = "\<lambda>(i::nat) s'. matrices_ok (m_renderables s') \<and> length (m_renderables s') = length rs"
  have olds: "matrices_ok ?olds"
    using old unfolding matrices_ok_def resize_def list_all_iff
    by (auto dest: in_set_takeD)
  have "for_each [0..<length rs] (deserializeRenderable ext)
          (?s0, concat (map renderable_tokens rs) @ EndArray # rest)
          = Some (fold (\<lambda>i. read_renderable ext i (rs ! i)) [0..<length rs] ?s0,
                  concat (map renderable_tokens (drop (length rs) rs)) @ EndArray # rest) \<and>
            ?P (length rs) (fold (\<lambda>i. read_renderable ext i (rs ! i)) [0..<length rs] ?s0)"
  proof (intro for_each_decode [where P = ?P], goal_cases)
    case (1 i s' rest')
    then show ?case
      using rs
      by (intro deserializeRenderable_tokens) (simp_all add: matrices_ok_def list_all_length)
  next
    case (2 i s')
    then have ok: "matrices_ok (m_renderables s')" and len: "length (m_renderables s') = length rs"
      by simp_all
    have m: "length (mi_matrix (m_model (overwritten_renderable ext a old (rs ! i)))) = 16" for a old
      using rs(1) 2(1) by (simp add: overwritten_renderable_def matrices_ok_def list_all_length)
    show ?case
      by (simp add: read_renderable_def matrices_ok_update [OF ok m] len)
  next
    case 3
    show ?case using olds by (simp add: length_resize)
  next
    case 4
    show ?case by simp
  qed
  then have loop: "for_each [0..<length rs] (deserializeRenderable ext)
          (?s0, concat (map renderable_tokens rs) @ EndArray # rest)
          = Some (fold (\<lambda>i. read_renderable ext i (rs ! i)) [0..<length rs] ?s0, EndArray # rest)"
    by simp
  have closed: "fold (\<lambda>i. read_renderable ext i (rs ! i)) [0..<length rs] ?s0
      = s\<lparr>m_renderables := map2 (overwritten_renderable ext (u_address (m_universe s))) ?olds rs,
          m_universe := (m_universe s)
            \<lparr>u_components := u_components (m_universe s) @
               registered (u_address (m_universe s)) (this s) (RENDERABLE_HASH ext)
                 (map (\<lambda>r. index (Renderable.m_entity r)) rs)\<rparr>\<rparr>"
    by (subst read_renderables_fold) (simp_all add: length_resize)
  show ?thesis
    by (simp add: deserializeRenderables_def registry_stream_def deserialize_int_def
        deserializeArrayBegin_def deserializeArrayEnd_def loop closed)
qed

lemma deserializeTerrain_tokens:
  assumes "length (m_terrains s) = i"
    and "load_material ext (terrain_path t) \<noteq> None"
    and "length (terrain_path t) \<le> LUMIX_MAX_PATH ext"
  shows "deserializeTerrain ext i (s, terrain_tokens t @ rest) = Some (read_terrain ext t s, rest)"
  using assms
  by (auto simp: deserializeTerrain_def terrain_tokens_def deserializeArrayItem_int_def
      deserializeArrayItem_string_def deserializeArrayItem_float_def createComponent_def
      setTerrainMaterial_def Universe_addComponent_def componentCreated_invoke_def Let_def
      read_terrain_def restored_terrain_def nth_append)

lemma read_terrains_fold:
  assumes "k \<le> length ts" "m_terrains s = []"
  shows "fold (\<lambda>i. read_terrain ext (ts ! i)) [0..<k] s =
           s\<lparr>m_terrains := map (restored_terrain ext (u_address (m_universe s))) (take k ts),
             m_universe := (m_universe s)
               \<lparr>u_components := u_components (m_universe s) @
                  registered (u_address (m_universe s)) (this s) (TERRAIN_HASH ext)
                    (map (\<lambda>t. index (m_entity t)) (take k ts)),
                u_created := u_created (m_universe s) @
                  registered (u_address (m_universe s)) (this s) (TERRAIN_HASH ext)
                    (map (\<lambda>t. index (m_entity t)) (take k ts))\<rparr>\<rparr>"
  using assms(1)
proof (induction k)
  case 0
  show ?case using assms(2) by (simp add: registered_def)
next
  case (Suc k)
  then have k: "k < length ts" by simp
  show ?case
    using Suc k
    by (simp add: read_terrain_def Let_def take_Suc_conv_app_nth [OF k] registered_snoc)
qed

lemma deserializeTerrains_stream:
  assumes "list_all (\<lambda>t. load_material ext (terrain_path t) \<noteq> None) ts"
    and "list_all (\<lambda>t. length (terrain_path t) \<le> LUMIX_MAX_PATH ext) ts"
    and "m_terrains s = []"
  shows "deserializeTerrains ext
           (s, registry_stream ''terrain_count'' ''terrains'' terrain_tokens ts @ rest)
           = Some (s\<lparr>m_terrains := map (restored_terrain ext (u_address (m_universe s))) ts,
                     m_universe := (m_universe s)
                       \<lparr>u_components := u_components (m_universe s) @
                          registered (u_address (m_universe s)) (this s) (TERRAIN_HASH ext)
                            (map (\<lambda>t. index (m_entity t)) ts),
                        u_created := u_created (m_universe s) @
                          registered (u_address (m_universe s)) (this s) (TERRAIN_HASH ext)
                            (map (\<lambda>t. index (m_entity t)) ts)\<rparr>\<rparr>, rest)"
proof -
  let ?P = "\<lambda>i s'. length (m_terrains s') = i"
  have "for_each [0..<length ts] (deserializeTerrain ext)
          (s, concat (map terrain_tokens ts) @ EndArray # rest)
          = Some (fold (\<lambda>i. read_terrain ext (ts ! i)) [0..<length ts] s,
                  concat (map terrain_tokens (drop (length ts) ts)) @ EndArray # rest) \<and>
            ?P (length ts) (fold (\<lambda>i. read_terrain ext (ts ! i)) [0..<length ts] s)"
  proof (intro for_each_decode [where P = ?P], goal_cases)
    case (1 i s' rest')
    then show ?case
      using assms(1,2)
      by (intro deserializeTerrain_tokens) (simp_all add: list_all_length)
  next
    case (2 i s')
    then show ?case by (simp add: read_terrain_def Let_def)
  next
    case 3
    show ?case using assms(3) by simp
  next
    case 4
    show ?case by simp
  qed
  then have loop: "for_each [0..<length ts] (deserializeTerrain ext)
          (s, concat (map terrain_tokens ts) @ EndArray # rest)
          = Some (fold (\<lambda>i. read_terrain ext (ts ! i)) [0..<length ts] s, EndArray # rest)"
    by simp
  show ?thesis
    by (simp add: deserializeTerrains_def registry_stream_def deserialize_int_def
        deserializeArrayBegin_def deserializeArrayEnd_def loop read_terrains_fold assms(3))
qed

subsection \<open>The round trip\<close>

lemma map2_replicate: "map2 f (replicate (length ys) d) ys = map (f d) ys"
  by (induction ys) simp_all

lemma overwritten_default:
  "overwritten_renderable ext a (default_Renderable ext) r = restored_renderable ext a r"
  by (rule Renderable.equality) (simp_all add: overwritten_renderable_def restored_renderable_def)

lemma deserialize_scene_stream:
  assumes wf: "well_formed ext s"
    and loads: "list_all (\<lambda>t. load_material ext (terrain_path t) \<noteq> None) (m_terrains s)"
  shows "deserialize ext (new_RenderSceneImpl a u, scene_stream s)
           = Some (restored_scene ext (new_RenderSceneImpl a u) s, [])"
proof -
  from wf have slots: "list_all (\<lambda>c. length (m_slot c) \<le> MAX_SLOT_LENGTH) (m_cameras s)"
    and mats: "matrices_ok (m_renderables s)"
    and paths: "list_all (\<lambda>r. length (renderable_path r) \<le> LUMIX_MAX_PATH ext) (m_renderables s)"
    and tpaths: "list_all (\<lambda>t. length (terrain_path t) \<le> LUMIX_MAX_PATH ext) (m_terrains s)"
    and dflt: "length (mi_matrix (m_model (default_Renderable ext))) = 16"
    by (simp_all add: well_formed_def matrices_ok_def list_all_iff)
  let ?f = "new_RenderSceneImpl a u"
  have e: "matrices_ok []" by (simp add: matrices_ok_def)
  show ?thesis
    unfolding deserialize_def scene_stream_def
    apply (subst deserializeCameras_stream [OF slots])
    apply (simp only: bind.bind_lunit)
    apply (subst deserializeRenderables_stream [OF mats paths _ dflt])
     apply (simp add: new_RenderSceneImpl_def e)
    apply (simp only: bind.bind_lunit)
    apply (subst deserializeLights_stream)
    apply (simp only: bind.bind_lunit)
    apply (subst deserializeTerrains_stream [OF loads tpaths, where rest = "[]", simplified])
     apply (simp add: new_RenderSceneImpl_def)
    apply (simp add: restored_scene_def new_RenderSceneImpl_def resize_def map2_replicate
        overwritten_default Let_def)
    done
qed

lemma serializeRenderable_ignores_layer_mask:
  "serializeRenderable (r\<lparr>Renderable.m_layer_mask := v\<rparr>) st = serializeRenderable r st"
  by (simp add: serializeRenderable_def renderable_path_def)

text \<open>The stream does not depend on the layer masks of the renderables: two scenes that
  differ only there are written to the same stream.\<close>

lemma serialize_ignores_renderable_layer_masks:
  "serialize (s\<lparr>m_renderables := map (\<lambda>r. r\<lparr>Renderable.m_layer_mask := f r\<rparr>) (m_renderables s)\<rparr>) st
     = serialize s st"
proof -
  let ?rs = "map (\<lambda>r. r\<lparr>Renderable.m_layer_mask := f r\<rparr>) (m_renderables s)"
  have "fold (\<lambda>i. serializeRenderable (?rs ! i)) [0..<length (m_renderables s)] st'
          = fold (\<lambda>i. serializeRenderable (m_renderables s ! i)) [0..<length (m_renderables s)] st'" for st'
    by (rule fold_cong) (auto simp: serializeRenderable_ignores_layer_mask fun_eq_iff)
  then show ?thesis
    by (simp add: serialize_def serializeRenderables_def serializeCameras_def serializeLights_def
        serializeTerrains_def)
qed

lemma same_fields_restored:
  assumes "loads_by_path ext"
  shows "camera_fields (restored_camera a c) = camera_fields c"
    "renderable_fields (restored_renderable ext a r) = renderable_fields r"
    "light_fields (restored_light a l) = light_fields l"
    "terrain_fields (restored_terrain ext a t) = terrain_fields t"
proof -
  from assms obtain m where m: "load_model ext (renderable_path r) = Some m" "model_path m = renderable_path r"
    unfolding loads_by_path_def by blast
  from assms obtain mt where mt: "load_material ext (terrain_path t) = Some mt" "material_path mt = terrain_path t"
    unfolding loads_by_path_def by blast
  show "camera_fields (restored_camera a c) = camera_fields c"
    by (simp add: camera_fields_def restored_camera_def)
  show "renderable_fields (restored_renderable ext a r) = renderable_fields r"
    using m by (simp add: renderable_fields_def restored_renderable_def renderable_path_def)
  show "light_fields (restored_light a l) = light_fields l"
    by (simp add: light_fields_def restored_light_def)
  show "terrain_fields (restored_terrain ext a t) = terrain_fields t"
    using mt by (simp add: terrain_fields_def restored_terrain_def terrain_path_def)
qed

lemma deserialize_written_stream:
  assumes "well_formed ext s" and "loads_by_path ext" and "serialize s [] = Some st"
  shows "deserialize ext (new_RenderSceneImpl a u, st)
           = Some (restored_scene ext (new_RenderSceneImpl a u) s, [])"
proof -
  from assms(1) have mats: "list_all (\<lambda>r. length (mi_matrix (m_model r)) = 16) (m_renderables s)"
    by (simp add: well_formed_def list_all_iff)
  from assms(3) have st: "st = scene_stream s"
    by (simp add: serialize_stream [OF mats] split: if_splits)
  have loads: "list_all (\<lambda>t. load_material ext (terrain_path t) \<noteq> None) (m_terrains s)"
    using assms(2) unfolding loads_by_path_def list_all_iff by (metis option.distinct(1))
  show ?thesis
    unfolding st by (rule deserialize_scene_stream [OF assms(1) loads])
qed

text \<open>
  The layer mask of a renderable is not in the stream, and \<^verbatim>\<open>deserializeRenderables\<close> does
  not assign it: every renderable read into a fresh scene has the layer mask its
  constructor left, whatever the original had.
\<close>

lemma roundtrip_renderable_layer_masks:
  "map Renderable.m_layer_mask
     (m_renderables (restored_scene ext (new_RenderSceneImpl a u) s))
   = replicate (length (m_renderables s)) (Renderable.m_layer_mask (default_Renderable ext))"
  by (simp add: restored_scene_def Let_def new_RenderSceneImpl_def restored_renderable_def comp_def
      map_replicate_const)

text \<open>
  C3, as the code has it. Let the scene be well formed, let the resource managers answer a
  path with a resource of that path, and let serialization succeed. Then deserializing the
  stream into a scene fresh from its constructor succeeds and consumes the stream; the
  registries read back agree with the originals, element by element and in order, in every
  field that is written to the stream (cameras: fov, near, far, width, height, active flag,
  slot and entity index; renderables: matrix, scale, model path and entity index; lights:
  type and entity index; terrains: layer mask, material path, xz and y scale and entity
  index); and one component is registered for each element, with the entity index of the
  original, the type tag of its registry and its position. The layer masks of the
  renderables are not among the fields written.
\<close>

theorem roundtrip_restores_serialized_fields:
  assumes "well_formed ext s" and "loads_by_path ext" and "serialize s [] = Some st"
  shows "\<exists>s'. deserialize ext (new_RenderSceneImpl a u, st) = Some (s', []) \<and>
              same_serialized_fields s s' \<and>
              u_components (m_universe s') =
                u_components u @
                registered (u_address u) a (CAMERA_HASH ext)
                  (map (\<lambda>c. index (Camera.m_entity c)) (m_cameras s)) @
                registered (u_address u) a (RENDERABLE_HASH ext)
                  (map (\<lambda>r. index (Renderable.m_entity r)) (m_renderables s)) @
                registered (u_address u) a (LIGHT_HASH ext)
                  (map (\<lambda>l. index (Light.m_entity l)) (m_lights s)) @
                registered (u_address u) a (TERRAIN_HASH ext)
                  (map (\<lambda>t. index (m_entity t)) (m_terrains s))"
proof -
  let ?s' = "restored_scene ext (new_RenderSceneImpl a u) s"
  have d: "deserialize ext (new_RenderSceneImpl a u, st) = Some (?s', [])"
    by (rule deserialize_written_stream [OF assms])
  have f: "same_serialized_fields s ?s'"
    by (simp add: same_serialized_fields_def restored_scene_def Let_def new_RenderSceneImpl_def
        same_fields_restored [OF assms(2)] comp_def)
  have c: "u_components (m_universe ?s') =
                u_components u @
                registered (u_address u) a (CAMERA_HASH ext)
                  (map (\<lambda>c. index (Camera.m_entity c)) (m_cameras s)) @
                registered (u_address u) a (RENDERABLE_HASH ext)
                  (map (\<lambda>r. index (Renderable.m_entity r)) (m_renderables s)) @
                registered (u_address u) a (LIGHT_HASH ext)
                  (map (\<lambda>l. index (Light.m_entity l)) (m_lights s)) @
                registered (u_address u) a (TERRAIN_HASH ext)
                  (map (\<lambda>t. index (m_entity t)) (m_terrains s))"
    by (simp add: restored_scene_def Let_def new_RenderSceneImpl_def)
  from d f c show ?thesis by blast
qed

lemma sample_well_formed: "well_formed sample_collaborators sample_scene"
  by (simp add: well_formed_def sample_scene_def sample_collaborators_def sample_matrix_def
      MAX_SLOT_LENGTH_def renderable_path_def terrain_path_def)

lemma sample_loads_by_path: "loads_by_path sample_collaborators"
  by (simp add: loads_by_path_def sample_collaborators_def)

lemma sample_serialize: "serialize sample_scene [] = Some (scene_stream sample_scene)"
  by (subst serialize_stream) (simp_all add: sample_scene_def sample_matrix_def)

theorem roundtrip_restores_serialized_fields_witness:
  "well_formed sample_collaborators sample_scene \<and> loads_by_path sample_collaborators \<and>
   serialize sample_scene [] = Some (scene_stream sample_scene) \<and>
   (\<exists>s'. deserialize sample_collaborators (new_RenderSceneImpl 2 (new_Universe 9), scene_stream sample_scene)
            = Some (s', []) \<and>
         same_serialized_fields sample_scene s' \<and>
         length (u_components (m_universe s')) = 6)"
proof -
  from roundtrip_restores_serialized_fields
         [OF sample_well_formed sample_loads_by_path sample_serialize, of 2 "new_Universe 9"]
  obtain s' where s': "deserialize sample_collaborators (new_RenderSceneImpl 2 (new_Universe 9), scene_stream sample_scene)
            = Some (s', [])" "same_serialized_fields sample_scene s'"
    and c: "u_components (m_universe s') =
                u_components (new_Universe 9) @
                registered (u_address (new_Universe 9)) 2 (CAMERA_HASH sample_collaborators)
                  (map (\<lambda>c. index (Camera.m_entity c)) (m_cameras sample_scene)) @
                registered (u_address (new_Universe 9)) 2 (RENDERABLE_HASH sample_collaborators)
                  (map (\<lambda>r. index (Renderable.m_entity r)) (m_renderables sample_scene)) @
                registered (u_address (new_Universe 9)) 2 (LIGHT_HASH sample_collaborators)
                  (map (\<lambda>l. index (Light.m_entity l)) (m_lights sample_scene)) @
                registered (u_address (new_Universe 9)) 2 (TERRAIN_HASH sample_collaborators)
                  (map (\<lambda>t. index (m_entity t)) (m_terrains sample_scene))"
    by blast
  have "length (u_components (m_universe s')) = 6"
    unfolding c by (simp add: registered_def new_Universe_def sample_scene_def)
  with s' show ?thesis
    using sample_well_formed sample_loads_by_path sample_serialize by blast
qed

text \<open>
  The round trip of the sample scene does not give back its registries field for field: the
  two renderables have the layer masks 1 and 2, and the ones read back have the layer mask
  of the default-constructed renderable.
\<close>

theorem roundtrip_loses_renderable_layer_mask:
  "\<not> roundtrip_preserves sample_collaborators sample_scene (new_RenderSceneImpl 2 (new_Universe 9))"
proof -
  have loads: "list_all (\<lambda>t. load_material sample_collaborators (terrain_path t) \<noteq> None)
                 (m_terrains sample_scene)"
    by (simp add: sample_collaborators_def list_all_iff)
  have r: "roundtrip sample_collaborators sample_scene (new_RenderSceneImpl 2 (new_Universe 9))
             = Some (restored_scene sample_collaborators (new_RenderSceneImpl 2 (new_Universe 9)) sample_scene, [])"
    by (simp add: roundtrip_def sample_serialize deserialize_scene_stream [OF sample_well_formed loads])
  have "map Renderable.m_layer_mask
          (m_renderables (restored_scene sample_collaborators (new_RenderSceneImpl 2 (new_Universe 9)) sample_scene))
        = [0, 0]"
    unfolding roundtrip_renderable_layer_masks
    by (simp add: sample_scene_def sample_collaborators_def numeral_2_eq_2)
  moreover have "map Renderable.m_layer_mask (m_renderables sample_scene) = [1, 2]"
    by (simp add: sample_scene_def)
  ultimately show ?thesis
    by (simp add: roundtrip_preserves_def r same_registries_def)
qed

subsection \<open>Deserializing into a scene that is not empty\<close>

lemmas deserialize_defs = deserialize_def deserializeCameras_def deserializeCamera_def
  deserializeRenderables_def deserializeRenderable_def deserializeMatrixItem_def
  deserializeLights_def deserializeLight_def deserializeTerrains_def deserializeTerrain_def
  deserialize_int_def deserializeArrayBegin_def deserializeArrayEnd_def
  deserializeArrayItem_int_def deserializeArrayItem_float_def deserializeArrayItem_bool_def
  deserializeArrayItem_string_def createComponent_def setTerrainMaterial_def
  Universe_addComponent_def componentCreated_invoke_def resize_def

lemmas stream_defs = scene_stream_def registry_stream_def camera_tokens_def camera_items_def
  renderable_tokens_def renderable_path_def light_tokens_def light_items_def terrain_tokens_def
  terrain_path_def

text \<open>
  C4. The sample scene holds one camera, two renderables, two lights and one terrain, and
  so does its stream. Deserializing that stream into the sample scene itself leaves one
  camera, two renderables and two lights, but two terrains: \<^verbatim>\<open>deserializeTerrains\<close> appends
  to the terrains that exist. The recorded scales went to the terrain that was there before
  (the loop index 0), and the terrain that was created has the scales of a new terrain.
\<close>

theorem deserialize_appends_terrains:
  "registry_sizes sample_scene = (1, 2, 2, 1) \<and>
   map_option (\<lambda>(s', rest). (registry_sizes s', terrain_scales s'))
     (roundtrip sample_collaborators sample_scene sample_scene)
     = Some ((1, 2, 2, 2), [(2, 3), (1, 1)])"
proof -
  have r: "roundtrip sample_collaborators sample_scene sample_scene
             = deserialize sample_collaborators (sample_scene, scene_stream sample_scene)"
    by (simp add: roundtrip_def sample_serialize)
  have "map_option (\<lambda>(s', rest). (registry_sizes s', terrain_scales s'))
          (deserialize sample_collaborators (sample_scene, scene_stream sample_scene))
        = Some ((1, 2, 2, 2), [(2, 3), (1, 1)])"
    by (simp add: deserialize_defs stream_defs sample_scene_def
      sample_matrix_def upt_rec DIRECTIONAL_def sample_collaborators_def sample_universe_def
      Let_def MAX_SLOT_LENGTH_def CAMERA_HASH_def RENDERABLE_HASH_def LIGHT_HASH_def
      TERRAIN_HASH_def new_Terrain_mesh_def registry_sizes_def terrain_scales_def)
  moreover have "registry_sizes sample_scene = (1, 2, 2, 1)"
    by (simp add: registry_sizes_def sample_scene_def)
  ultimately show ?thesis unfolding r by simp
qed

end
